theory Spec2Isabelle
  imports Main
begin

section \<open>Shader resource layout of the D3D12 backend\<close>

text \<open>
  A shallow embedding of \<^verbatim>\<open>ShaderResourceLayoutD3D12.cpp\<close>. Pointers to device
  objects are values that carry their address; two pointers are equal when the addresses
  are. The resource cache a layout points to (\<^verbatim>\<open>m_pResourceCache\<close>) lives in the state
  that every operation takes and returns, together with the error log and the list of
  descriptor copies issued to the device. A failed \<^verbatim>\<open>VERIFY\<close>, \<^verbatim>\<open>VERIFY_EXPR\<close> or
  \<^verbatim>\<open>UNEXPECTED\<close> ends the operation with a value of type \<open>fatal\<close>.
\<close>

subsection \<open>Enumerations and reflected attributes\<close>

datatype SHADER_VARIABLE_TYPE =
    SHADER_VARIABLE_TYPE_STATIC
  | SHADER_VARIABLE_TYPE_MUTABLE
  | SHADER_VARIABLE_TYPE_DYNAMIC

datatype CachedResourceType = Unknown | CBV | TexSRV | BufSRV | TexUAV | BufUAV | Sampler

datatype D3D12_DESCRIPTOR_HEAP_TYPE =
    D3D12_DESCRIPTOR_HEAP_TYPE_CBV_SRV_UAV
  | D3D12_DESCRIPTOR_HEAP_TYPE_SAMPLER

text \<open>The values of \<^verbatim>\<open>D3D12_DESCRIPTOR_RANGE_TYPE\<close> in \<^verbatim>\<open>d3d12.h\<close>.\<close>

definition D3D12_DESCRIPTOR_RANGE_TYPE_SRV :: nat where
  "D3D12_DESCRIPTOR_RANGE_TYPE_SRV = 0"

definition D3D12_DESCRIPTOR_RANGE_TYPE_UAV :: nat where
  "D3D12_DESCRIPTOR_RANGE_TYPE_UAV = 1"

definition D3D12_DESCRIPTOR_RANGE_TYPE_CBV :: nat where
  "D3D12_DESCRIPTOR_RANGE_TYPE_CBV = 2"

definition D3D12_DESCRIPTOR_RANGE_TYPE_SAMPLER :: nat where
  "D3D12_DESCRIPTOR_RANGE_TYPE_SAMPLER = 3"

text \<open>
  Every failed assertion of the file, and the bounds checks of the cache accessors the
  file calls.
\<close>

datatype fatal =
    UnexpectedResourceType
  | ResourceCacheIsNull
  | ArrayIndexOutOfRange
  | RootIndexOutOfRange
  | OffsetOutOfRange
  | NoDescriptorHandle
  | InvalidBindPointFatal
  | InconsistentBindCount
  | NotATextureSRV
  | NoAssociatedSampler
  | SamplerIdOutOfRange
  | InconsistentVariableTypes
  | SamplerNameMismatch
  | StaticSamplerInCache
  | ShaderVisibleSpaceMismatch
  | UnknownContentType
  | StaticResourceMismatch
  | StaticSamplerResourceMismatch
  | InconsistentCachedResource
  | InvalidRootIndexFatal
  | InvalidOffsetFatal
  | SamplerIdExceedsLimit
  | RootIndexExceedsLimit
  | InconsistentSamplerId
  | CacheAndRootSignature
  | CacheAlreadyInitialized
  | TypeNotAllowed
  | InconsistentShaderTypes
  | UninitializedSamplers

text \<open>The messages of \<^verbatim>\<open>LOG_ERROR_MESSAGE\<close> and \<^verbatim>\<open>LOG_ERROR\<close>, by kind.\<close>

datatype log_msg =
    ConstantBufferAlreadyBound
  | ResourceAlreadyBound
  | SamplerAlreadyBound
  | NoUniformBufferFlag
  | BufferExpected
  | IncorrectViewType
  | IncorrectResourceType
  | SamplerNotSetInView
  | NonDynamicUnbound
  | ResourceMappingIsNull
  | NotFoundInMapping
  | LayoutHasNoCache
  | SourceLayoutHasNoCache
  | NoStaticResourceAssigned
  | NoStaticSamplerAssigned
  | VariableNotFound

text \<open>
  \<^verbatim>\<open>D3DShaderResourceAttribs\<close> is declared outside this file; the fields are the ones
  the file reads. \<open>SamplerId = None\<close> is the invalid id (\<^verbatim>\<open>IsValidSampler()\<close> false).
\<close>

record D3DShaderResourceAttribs =
  Name :: string
  BindPoint :: nat
  BindCount :: nat
  VariableType :: SHADER_VARIABLE_TYPE
  AttribSamplerId :: "nat option"
  StaticSampler :: bool

subsection \<open>Device objects\<close>

datatype TEXTURE_VIEW_TYPE =
    TEXTURE_VIEW_UNDEFINED
  | TEXTURE_VIEW_SHADER_RESOURCE
  | TEXTURE_VIEW_RENDER_TARGET
  | TEXTURE_VIEW_DEPTH_STENCIL
  | TEXTURE_VIEW_UNORDERED_ACCESS

datatype BUFFER_VIEW_TYPE =
    BUFFER_VIEW_UNDEFINED
  | BUFFER_VIEW_SHADER_RESOURCE
  | BUFFER_VIEW_UNORDERED_ACCESS

record SamplerD3D12Impl =
  SamplerAddr :: nat
  SamplerCPUDescriptorHandle :: nat

text \<open>
  What \<^verbatim>\<open>IDeviceObject*\<close> can point to, with the properties the file asks for:
  the address, for a buffer whether \<^verbatim>\<open>BIND_UNIFORM_BUFFER\<close> is set, its CBV handle and
  whether its usage is \<^verbatim>\<open>USAGE_DYNAMIC\<close>; for a view its view type and CPU descriptor
  handle; for a texture view also the sampler set in it.
\<close>

datatype IDeviceObject =
    BufferD3D12Impl nat bool nat bool
  | TextureViewD3D12Impl nat TEXTURE_VIEW_TYPE nat "SamplerD3D12Impl option"
  | BufferViewD3D12Impl nat BUFFER_VIEW_TYPE nat
  | SamplerObject SamplerD3D12Impl
  | OtherObject nat

fun ObjAddr :: "IDeviceObject \<Rightarrow> nat" where
  "ObjAddr (BufferD3D12Impl a _ _ _) = a"
| "ObjAddr (TextureViewD3D12Impl a _ _ _) = a"
| "ObjAddr (BufferViewD3D12Impl a _ _) = a"
| "ObjAddr (SamplerObject s) = SamplerAddr s"
| "ObjAddr (OtherObject a) = a"

text \<open>Comparison of two smart pointers: null equals null, otherwise the addresses.\<close>

definition SamePtr :: "IDeviceObject option \<Rightarrow> IDeviceObject option \<Rightarrow> bool" where
  "SamePtr p q = (map_option ObjAddr p = map_option ObjAddr q)"

text \<open>
  \<^verbatim>\<open>ValidatedCast<BufferD3D12Impl>(p)->GetDesc().Usage == USAGE_DYNAMIC\<close>: the cast is
  checked, so an object that is not a buffer does not pass.
\<close>

fun IsDynamicBuffer :: "IDeviceObject \<Rightarrow> bool" where
  "IsDynamicBuffer (BufferD3D12Impl _ _ _ dyn) = dyn"
| "IsDynamicBuffer _ = False"

subsection \<open>The resource cache\<close>

text \<open>
  Modelled from the spec: \<^verbatim>\<open>ShaderResourceCacheD3D12\<close> is declared and implemented outside
  this file. A cache is a fixed number of tables, each a sequence of slots; a slot holds the
  bound object (absent when unbound), its resolved category and a descriptor handle; the
  accessors are bounds-checked and an out-of-range access is fatal; a query gives the
  shader-visible descriptor handle of a (table, offset) pair, null (0) when there is none.
\<close>

record Resource =
  Type :: CachedResourceType
  CPUDescriptorHandle :: nat
  pObject :: "IDeviceObject option"

definition NullResource :: Resource where
  "NullResource = \<lparr>Type = Unknown, CPUDescriptorHandle = 0, pObject = None\<rparr>"

datatype DbgCacheContentType = StaticShaderResources | SRBResources | OtherContent

record ShaderResourceCacheD3D12 =
  RootTables :: "Resource list list"
  ShaderVisibleTableCPUDescriptorHandle :: "D3D12_DESCRIPTOR_HEAP_TYPE \<Rightarrow> nat \<Rightarrow> nat \<Rightarrow> nat"
  DbgContentType :: DbgCacheContentType

definition GetNumRootTables :: "ShaderResourceCacheD3D12 \<Rightarrow> nat" where
  "GetNumRootTables c = length (RootTables c)"

text \<open>\<^verbatim>\<open>GetRootTable(RootIndex).GetResource(Offset, ...)\<close>, read.\<close>

definition GetResource :: "ShaderResourceCacheD3D12 \<Rightarrow> nat \<Rightarrow> nat \<Rightarrow> fatal + Resource" where
  "GetResource c RootIndex Offset =
     (if RootIndex < GetNumRootTables c then
        (if Offset < length (RootTables c ! RootIndex)
         then Inr (RootTables c ! RootIndex ! Offset)
         else Inl OffsetOutOfRange)
      else Inl RootIndexOutOfRange)"

text \<open>A write through the reference that \<^verbatim>\<open>GetResource\<close> returned.\<close>

definition SetResource ::
  "ShaderResourceCacheD3D12 \<Rightarrow> nat \<Rightarrow> nat \<Rightarrow> Resource \<Rightarrow> ShaderResourceCacheD3D12" where
  "SetResource c RootIndex Offset r =
     c\<lparr>RootTables := (RootTables c)[RootIndex := (RootTables c ! RootIndex)[Offset := r]]\<rparr>"

subsection \<open>Build configuration and state\<close>

text \<open>
  The preprocessor symbols that gate code in the file, and the constants of the header the
  file uses: they are parameters of the model.
\<close>

record config =
  DEBUG :: bool
  VERIFY_SHADER_BINDINGS :: bool
  MaxSamplerId :: nat
  MaxRootIndex :: nat
  InvalidRootIndex :: nat
  InvalidOffset :: nat
  InvalidBindPoint :: nat
  D3DSamplerSuffix :: string

record world =
  Cache :: "ShaderResourceCacheD3D12 option"
  Log :: "log_msg list"
  DescriptorCopies :: "(D3D12_DESCRIPTOR_HEAP_TYPE \<times> nat \<times> nat) list"

text \<open>
  Modelled from the spec: the macros \<^verbatim>\<open>VERIFY\<close>, \<^verbatim>\<open>VERIFY_EXPR\<close> and \<^verbatim>\<open>UNEXPECTED\<close>
  are defined outside this file. A failed assertion signals a fatal error by aborting: the
  operation ends there, with no state.
\<close>

definition VERIFY :: "bool \<Rightarrow> fatal \<Rightarrow> (fatal + 'a) \<Rightarrow> fatal + 'a" where
  "VERIFY cond e k = (if cond then k else Inl e)"

definition LOG_ERROR_MESSAGE :: "log_msg \<Rightarrow> world \<Rightarrow> world" where
  "LOG_ERROR_MESSAGE m w = w\<lparr>Log := Log w @ [m]\<rparr>"

text \<open>\<^verbatim>\<open>ID3D12Device::CopyDescriptorsSimple(1, Dst, Src, HeapType)\<close>.\<close>

definition CopyDescriptorsSimple ::
  "nat \<Rightarrow> nat \<Rightarrow> D3D12_DESCRIPTOR_HEAP_TYPE \<Rightarrow> world \<Rightarrow> world" where
  "CopyDescriptorsSimple Dst Src HeapType w =
     w\<lparr>DescriptorCopies := DescriptorCopies w @ [(HeapType, Dst, Src)]\<rparr>"

text \<open>Unsigned 32-bit addition, as in \<^verbatim>\<open>OffsetFromTableStart + ArrayIndex\<close>.\<close>

definition u32_add :: "nat \<Rightarrow> nat \<Rightarrow> nat" where
  "u32_add a b = (a + b) mod 2 ^ 32"

definition WriteSlot :: "nat \<Rightarrow> nat \<Rightarrow> Resource \<Rightarrow> world \<Rightarrow> world" where
  "WriteSlot RootIndex Offset r w =
     w\<lparr>Cache := map_option (\<lambda>c. SetResource c RootIndex Offset r) (Cache w)\<rparr>"

subsection \<open>Resolved bindings\<close>

text \<open>
  \<^verbatim>\<open>SRV_CBV_UAV\<close> and \<^verbatim>\<open>Sampler\<close> are declared in the header: a reference to the
  attributes, the cached resource type, root index, offset from table start and, for a
  texture SRV, the id of the assigned sampler (\<open>None\<close> is \<^verbatim>\<open>InvalidSamplerId\<close>).
\<close>

record SRV_CBV_UAV =
  Attribs :: D3DShaderResourceAttribs
  ResType :: CachedResourceType
  RootIndex :: nat
  OffsetFromTableStart :: nat
  SamplerId :: "nat option"

definition IsValidSampler :: "SRV_CBV_UAV \<Rightarrow> bool" where
  "IsValidSampler res = (SamplerId res \<noteq> None)"

record SamplerBinding =
  SamAttribs :: D3DShaderResourceAttribs
  SamRootIndex :: nat
  SamOffsetFromTableStart :: nat

definition ReadSlot :: "world \<Rightarrow> nat \<Rightarrow> nat \<Rightarrow> fatal + Resource" where
  "ReadSlot w Root Offset =
     (case Cache w of
        None \<Rightarrow> Inl ResourceCacheIsNull
      | Some c \<Rightarrow> GetResource c Root Offset)"

text \<open>
  The layout keeps its resolved bindings in one buffer, grouped by variable type (static,
  then mutable, then dynamic), the samplers after the resources; \<^verbatim>\<open>m_NumCbvSrvUav\<close> and
  \<^verbatim>\<open>m_NumSamplers\<close> are the lengths of the groups. \<open>m_ShaderType\<close> is
  \<^verbatim>\<open>m_pResources->GetShaderType()\<close>.
\<close>

record ShaderResourceLayoutD3D12 =
  m_SrvCbvUav :: "SHADER_VARIABLE_TYPE \<Rightarrow> SRV_CBV_UAV list"
  m_Samplers :: "SHADER_VARIABLE_TYPE \<Rightarrow> SamplerBinding list"
  m_ShaderType :: nat

definition m_NumCbvSrvUav :: "ShaderResourceLayoutD3D12 \<Rightarrow> SHADER_VARIABLE_TYPE \<Rightarrow> nat" where
  "m_NumCbvSrvUav L VarType = length (m_SrvCbvUav L VarType)"

definition m_NumSamplers :: "ShaderResourceLayoutD3D12 \<Rightarrow> SHADER_VARIABLE_TYPE \<Rightarrow> nat" where
  "m_NumSamplers L VarType = length (m_Samplers L VarType)"

text \<open>\<^verbatim>\<open>GetSrvCbvUav(r)\<close> for \<open>r\<close> below \<^verbatim>\<open>GetTotalSrvCbvUavCount()\<close>: the whole buffer.\<close>

definition AllSrvCbvUav :: "ShaderResourceLayoutD3D12 \<Rightarrow> SRV_CBV_UAV list" where
  "AllSrvCbvUav L =
     m_SrvCbvUav L SHADER_VARIABLE_TYPE_STATIC @
     m_SrvCbvUav L SHADER_VARIABLE_TYPE_MUTABLE @
     m_SrvCbvUav L SHADER_VARIABLE_TYPE_DYNAMIC"

text \<open>\<^verbatim>\<open>GetSampler(VarType, s)\<close>; an index past the group is fatal.\<close>

definition GetSampler ::
  "ShaderResourceLayoutD3D12 \<Rightarrow> SHADER_VARIABLE_TYPE \<Rightarrow> nat \<Rightarrow> fatal + SamplerBinding" where
  "GetSampler L VarType s =
     (if s < m_NumSamplers L VarType then Inr (m_Samplers L VarType ! s)
      else Inl SamplerIdOutOfRange)"

subsection \<open>IsBound\<close>

definition IsBound :: "SRV_CBV_UAV \<Rightarrow> nat \<Rightarrow> world \<Rightarrow> fatal + bool" where
  "IsBound res ArrayIndex w =
     (case Cache w of
        None \<Rightarrow> Inl ResourceCacheIsNull
      | Some c \<Rightarrow>
          VERIFY (ArrayIndex < BindCount (Attribs res)) ArrayIndexOutOfRange
            (if RootIndex res < GetNumRootTables c then
               (let RootTable = RootTables c ! RootIndex res;
                    Offset = u32_add (OffsetFromTableStart res) ArrayIndex
                in if Offset < length RootTable then
                     (let CachedRes = RootTable ! Offset
                      in case pObject CachedRes of
                           Some obj \<Rightarrow>
                             VERIFY (CPUDescriptorHandle CachedRes \<noteq> 0 \<or> IsDynamicBuffer obj)
                               NoDescriptorHandle (Inr True)
                         | None \<Rightarrow> Inr False)
                   else Inr False)
             else Inr False))"

subsection \<open>Caching one object\<close>

text \<open>
  The \<^verbatim>\<open>#ifdef _DEBUG\<close> block of \<^verbatim>\<open>BindResource\<close>: the shader-visible handle of the
  slot must agree with what the cache holds and with the variable type. The result is the
  assertion that fails, if one does.
\<close>

definition DbgVerifyResourceHandle ::
  "config \<Rightarrow> ShaderResourceCacheD3D12 \<Rightarrow> SRV_CBV_UAV \<Rightarrow> nat \<Rightarrow> fatal option" where
  "DbgVerifyResourceHandle cfg c res ShdrVisibleHandle =
     (if \<not> DEBUG cfg then None
      else case DbgContentType c of
             StaticShaderResources \<Rightarrow>
               (if ShdrVisibleHandle = 0 then None else Some ShaderVisibleSpaceMismatch)
           | SRBResources \<Rightarrow>
               (if ResType res = CBV then
                  (if ShdrVisibleHandle = 0 then None else Some ShaderVisibleSpaceMismatch)
                else if VariableType (Attribs res) = SHADER_VARIABLE_TYPE_DYNAMIC then
                  (if ShdrVisibleHandle = 0 then None else Some ShaderVisibleSpaceMismatch)
                else
                  (if ShdrVisibleHandle \<noteq> 0 then None else Some ShaderVisibleSpaceMismatch))
           | OtherContent \<Rightarrow> Some UnknownContentType)"

text \<open>The same block of \<^verbatim>\<open>CacheSampler\<close>; \<open>IsNullView\<close> is \<^verbatim>\<open>pTexViewD3D12 == nullptr\<close>.\<close>

definition DbgVerifySamplerHandle ::
  "config \<Rightarrow> ShaderResourceCacheD3D12 \<Rightarrow> SamplerBinding \<Rightarrow> bool \<Rightarrow> nat \<Rightarrow> fatal option" where
  "DbgVerifySamplerHandle cfg c Sam IsNullView ShdrVisibleHandle =
     (if \<not> DEBUG cfg then None
      else case DbgContentType c of
             StaticShaderResources \<Rightarrow>
               (if ShdrVisibleHandle = 0 then None else Some ShaderVisibleSpaceMismatch)
           | SRBResources \<Rightarrow>
               (if VariableType (SamAttribs Sam) = SHADER_VARIABLE_TYPE_DYNAMIC then
                  (if ShdrVisibleHandle = 0 then None else Some ShaderVisibleSpaceMismatch)
                else
                  (if ShdrVisibleHandle \<noteq> 0 \<or> IsNullView then None
                   else Some ShaderVisibleSpaceMismatch))
           | OtherContent \<Rightarrow> Some UnknownContentType)"

text \<open>
  \<^verbatim>\<open>CacheCB\<close>. \<open>DstRes\<close> is a reference to the slot at (\<open>DstRoot\<close>, \<open>DstOffset\<close>); it
  is read from, and written to, the cache in the state.
\<close>

definition CacheCB ::
  "SRV_CBV_UAV \<Rightarrow> IDeviceObject \<Rightarrow> nat \<Rightarrow> nat \<Rightarrow> nat \<Rightarrow> world \<Rightarrow> fatal + world" where
  "CacheCB res pBuffer DstRoot DstOffset ShdrVisibleHandle w =
     (case pBuffer of
        BufferD3D12Impl a uniform CBVHandle dyn \<Rightarrow>
          (if uniform then
             (case ReadSlot w DstRoot DstOffset of
                Inl e \<Rightarrow> Inl e
              | Inr DstRes \<Rightarrow>
                  (let w1 = (if VariableType (Attribs res) \<noteq> SHADER_VARIABLE_TYPE_DYNAMIC
                                \<and> pObject DstRes \<noteq> None
                                \<and> \<not> SamePtr (pObject DstRes) (Some pBuffer)
                             then LOG_ERROR_MESSAGE ConstantBufferAlreadyBound w else w)
                   in VERIFY (CBVHandle \<noteq> 0 \<or> dyn) NoDescriptorHandle
                        (let w2 = (if ShdrVisibleHandle \<noteq> 0
                                   then CopyDescriptorsSimple ShdrVisibleHandle CBVHandle
                                          D3D12_DESCRIPTOR_HEAP_TYPE_CBV_SRV_UAV w1
                                   else w1)
                         in Inr (WriteSlot DstRoot DstOffset
                                   \<lparr>Type = ResType res, CPUDescriptorHandle = CBVHandle,
                                    pObject = Some pBuffer\<rparr> w2))))
           else Inr (LOG_ERROR_MESSAGE NoUniformBufferFlag w))
      | _ \<Rightarrow> Inr (LOG_ERROR_MESSAGE BufferExpected w))"

text \<open>
  The two instances of the template \<^verbatim>\<open>CacheResourceView\<close>, each with the view type it
  is called with as \<^verbatim>\<open>dbgExpectedViewType\<close>.
\<close>

datatype ViewTemplate =
    AsTextureView TEXTURE_VIEW_TYPE
  | AsBufferView BUFFER_VIEW_TYPE

text \<open>
  The interface query at the head of \<^verbatim>\<open>CacheResourceView\<close>: for an object of the
  template's view class, whether its view type is the expected one, and its CPU
  descriptor handle.
\<close>

fun QueryView :: "ViewTemplate \<Rightarrow> IDeviceObject \<Rightarrow> (bool \<times> nat) option" where
  "QueryView (AsTextureView expected) (TextureViewD3D12Impl a vt h s) = Some (vt = expected, h)"
| "QueryView (AsBufferView expected) (BufferViewD3D12Impl a vt h) = Some (vt = expected, h)"
| "QueryView _ _ = None"

definition CacheResourceView ::
  "config \<Rightarrow> SRV_CBV_UAV \<Rightarrow> ViewTemplate \<Rightarrow> IDeviceObject \<Rightarrow> nat \<Rightarrow> nat \<Rightarrow> nat \<Rightarrow>
   (IDeviceObject \<Rightarrow> world \<Rightarrow> fatal + world) \<Rightarrow> world \<Rightarrow> fatal + world" where
  "CacheResourceView cfg res tmpl pView DstRoot DstOffset ShdrVisibleHandle BindSamplerProc w =
     (case QueryView tmpl pView of
        Some (ViewTypeOK, Handle) \<Rightarrow>
          (if VERIFY_SHADER_BINDINGS cfg \<and> \<not> ViewTypeOK
           then Inr (LOG_ERROR_MESSAGE IncorrectViewType w)
           else
             (case ReadSlot w DstRoot DstOffset of
                Inl e \<Rightarrow> Inl e
              | Inr DstRes \<Rightarrow>
                  (let w1 = (if VariableType (Attribs res) \<noteq> SHADER_VARIABLE_TYPE_DYNAMIC
                                \<and> pObject DstRes \<noteq> None
                                \<and> \<not> SamePtr (pObject DstRes) (Some pView)
                             then LOG_ERROR_MESSAGE ResourceAlreadyBound w else w);
                       w2 = WriteSlot DstRoot DstOffset
                              \<lparr>Type = ResType res, CPUDescriptorHandle = Handle,
                               pObject = Some pView\<rparr> w1
                   in VERIFY (Handle \<noteq> 0) NoDescriptorHandle
                        (BindSamplerProc pView
                           (if ShdrVisibleHandle \<noteq> 0
                            then CopyDescriptorsSimple ShdrVisibleHandle Handle
                                   D3D12_DESCRIPTOR_HEAP_TYPE_CBV_SRV_UAV w2
                            else w2)))))
      | None \<Rightarrow> Inr (LOG_ERROR_MESSAGE IncorrectResourceType w))"

text \<open>\<^verbatim>\<open>ITextureViewD3D12::GetSampler()\<close>.\<close>

fun GetViewSampler :: "IDeviceObject \<Rightarrow> SamplerD3D12Impl option" where
  "GetViewSampler (TextureViewD3D12Impl a vt h s) = s"
| "GetViewSampler _ = None"

definition CacheSampler ::
  "config \<Rightarrow> SamplerBinding \<Rightarrow> IDeviceObject option \<Rightarrow> nat \<Rightarrow> nat \<Rightarrow> world \<Rightarrow> fatal + world" where
  "CacheSampler cfg Sam pTexViewD3D12 ArrayIndex ShdrVisibleHandle w =
     (case Cache w of
        None \<Rightarrow> Inl ResourceCacheIsNull
      | Some c \<Rightarrow>
          VERIFY (BindPoint (SamAttribs Sam) \<noteq> InvalidBindPoint cfg) InvalidBindPointFatal
         (VERIFY (ArrayIndex < BindCount (SamAttribs Sam)) ArrayIndexOutOfRange
            (let Offset = u32_add (SamOffsetFromTableStart Sam) ArrayIndex
             in case GetResource c (SamRootIndex Sam) Offset of
                  Inl e \<Rightarrow> Inl e
                | Inr DstSam \<Rightarrow>
                   (case DbgVerifySamplerHandle cfg c Sam (pTexViewD3D12 = None) ShdrVisibleHandle of
                      Some e \<Rightarrow> Inl e
                    | None \<Rightarrow>
                       (case pTexViewD3D12 of
                          Some pTexView \<Rightarrow>
                            (case GetViewSampler pTexView of
                               Some pSampler \<Rightarrow>
                                 (let w1 = (if VariableType (SamAttribs Sam) \<noteq> SHADER_VARIABLE_TYPE_DYNAMIC
                                               \<and> pObject DstSam \<noteq> None
                                               \<and> \<not> SamePtr (pObject DstSam) (Some (SamplerObject pSampler))
                                            then LOG_ERROR_MESSAGE SamplerAlreadyBound w else w)
                                  in VERIFY (SamplerCPUDescriptorHandle pSampler \<noteq> 0) NoDescriptorHandle
                                       (let w2 = (if ShdrVisibleHandle \<noteq> 0
                                                  then CopyDescriptorsSimple ShdrVisibleHandle
                                                         (SamplerCPUDescriptorHandle pSampler)
                                                         D3D12_DESCRIPTOR_HEAP_TYPE_SAMPLER w1
                                                  else w1)
                                        in Inr (WriteSlot (SamRootIndex Sam) Offset
                                                  \<lparr>Type = Sampler,
                                                   CPUDescriptorHandle = SamplerCPUDescriptorHandle pSampler,
                                                   pObject = Some (SamplerObject pSampler)\<rparr> w2)))
                             | None \<Rightarrow> Inr (LOG_ERROR_MESSAGE SamplerNotSetInView w))
                        | None \<Rightarrow> Inr (WriteSlot (SamRootIndex Sam) Offset NullResource w))))))"

definition GetAssignedSampler ::
  "config \<Rightarrow> ShaderResourceLayoutD3D12 \<Rightarrow> SRV_CBV_UAV \<Rightarrow> fatal + SamplerBinding" where
  "GetAssignedSampler cfg L TexSrv =
     VERIFY (ResType TexSrv = TexSRV) NotATextureSRV
       (case SamplerId TexSrv of
          None \<Rightarrow> Inl NoAssociatedSampler
        | Some sid \<Rightarrow>
            (case GetSampler L (VariableType (Attribs TexSrv)) sid of
               Inl e \<Rightarrow> Inl e
             | Inr SamInfo \<Rightarrow>
                 VERIFY (VariableType (SamAttribs SamInfo) = VariableType (Attribs TexSrv))
                   InconsistentVariableTypes
                  (VERIFY (Name (SamAttribs SamInfo) = Name (Attribs TexSrv) @ D3DSamplerSuffix cfg)
                     SamplerNameMismatch (Inr SamInfo))))"

text \<open>\<^verbatim>\<open>Sam.Attribs.BindCount > 1 ? ArrayIndex : 0\<close>.\<close>

definition SamplerArrInd :: "SamplerBinding \<Rightarrow> nat \<Rightarrow> nat" where
  "SamplerArrInd Sam ArrayIndex = (if BindCount (SamAttribs Sam) > 1 then ArrayIndex else 0)"

text \<open>The lambda that \<^verbatim>\<open>BindResource\<close> passes for a texture SRV.\<close>

definition BindSamplerProc ::
  "config \<Rightarrow> ShaderResourceLayoutD3D12 \<Rightarrow> SRV_CBV_UAV \<Rightarrow> nat \<Rightarrow> IDeviceObject \<Rightarrow> world \<Rightarrow> fatal + world" where
  "BindSamplerProc cfg L res ArrayIndex pTexView w =
     (if IsValidSampler res then
        (case GetAssignedSampler cfg L res of
           Inl e \<Rightarrow> Inl e
         | Inr Sam \<Rightarrow>
             VERIFY (\<not> StaticSampler (SamAttribs Sam)) StaticSamplerInCache
            (VERIFY (BindCount (Attribs res) = BindCount (SamAttribs Sam) \<or> BindCount (SamAttribs Sam) = 1)
               InconsistentBindCount
               (case Cache w of
                  None \<Rightarrow> Inl ResourceCacheIsNull
                | Some c \<Rightarrow>
                    CacheSampler cfg Sam (Some pTexView) (SamplerArrInd Sam ArrayIndex)
                      (ShaderVisibleTableCPUDescriptorHandle c D3D12_DESCRIPTOR_HEAP_TYPE_SAMPLER
                         (SamRootIndex Sam)
                         (u32_add (SamOffsetFromTableStart Sam) (SamplerArrInd Sam ArrayIndex)))
                      w)))
      else Inr w)"

subsection \<open>BindResource\<close>

text \<open>
  \<^verbatim>\<open>SRV_CBV_UAV::BindResource(pObj, ArrayIndex, dbgResLayout)\<close>. The state holds one cache,
  the one the parent layout points to, so the check that \<^verbatim>\<open>dbgResLayout\<close> points to the
  same cache has nothing to compare.
\<close>

definition BindResource ::
  "config \<Rightarrow> ShaderResourceLayoutD3D12 \<Rightarrow> SRV_CBV_UAV \<Rightarrow> IDeviceObject option \<Rightarrow> nat \<Rightarrow>
   world \<Rightarrow> fatal + world" where
  "BindResource cfg L res pObj ArrayIndex w =
     (case Cache w of
        None \<Rightarrow> Inl ResourceCacheIsNull
      | Some c \<Rightarrow>
          VERIFY (ArrayIndex < BindCount (Attribs res)) ArrayIndexOutOfRange
            (let Offset = u32_add (OffsetFromTableStart res) ArrayIndex
             in case GetResource c (RootIndex res) Offset of
                  Inl e \<Rightarrow> Inl e
                | Inr DstRes \<Rightarrow>
                   (let ShdrVisibleHandle =
                          ShaderVisibleTableCPUDescriptorHandle c D3D12_DESCRIPTOR_HEAP_TYPE_CBV_SRV_UAV
                            (RootIndex res) Offset
                    in case DbgVerifyResourceHandle cfg c res ShdrVisibleHandle of
                         Some e \<Rightarrow> Inl e
                       | None \<Rightarrow>
                          (case pObj of
                             Some obj \<Rightarrow>
                               (case ResType res of
                                  CBV \<Rightarrow> CacheCB res obj (RootIndex res) Offset ShdrVisibleHandle w
                                | TexSRV \<Rightarrow>
                                    CacheResourceView cfg res (AsTextureView TEXTURE_VIEW_SHADER_RESOURCE)
                                      obj (RootIndex res) Offset ShdrVisibleHandle
                                      (BindSamplerProc cfg L res ArrayIndex) w
                                | TexUAV \<Rightarrow>
                                    CacheResourceView cfg res (AsTextureView TEXTURE_VIEW_UNORDERED_ACCESS)
                                      obj (RootIndex res) Offset ShdrVisibleHandle
                                      (\<lambda>pTexView w'. Inr w') w
                                | BufSRV \<Rightarrow>
                                    CacheResourceView cfg res (AsBufferView BUFFER_VIEW_SHADER_RESOURCE)
                                      obj (RootIndex res) Offset ShdrVisibleHandle
                                      (\<lambda>pBufView w'. Inr w') w
                                | BufUAV \<Rightarrow>
                                    CacheResourceView cfg res (AsBufferView BUFFER_VIEW_UNORDERED_ACCESS)
                                      obj (RootIndex res) Offset ShdrVisibleHandle
                                      (\<lambda>pBufView w'. Inr w') w
                                | _ \<Rightarrow> Inl UnexpectedResourceType)
                           | None \<Rightarrow>
                               (let w1 = (if pObject DstRes \<noteq> None
                                             \<and> VariableType (Attribs res) \<noteq> SHADER_VARIABLE_TYPE_DYNAMIC
                                          then LOG_ERROR_MESSAGE NonDynamicUnbound w else w);
                                    w2 = WriteSlot (RootIndex res) Offset NullResource w1
                                in if IsValidSampler res then
                                     (case GetAssignedSampler cfg L res of
                                        Inl e \<Rightarrow> Inl e
                                      | Inr Sam \<Rightarrow>
                                          CacheSampler cfg Sam None (SamplerArrInd Sam ArrayIndex) 0 w2)
                                   else Inr w2)))))"

subsection \<open>BindResources\<close>

text \<open>
  The resource mapping answers \<^verbatim>\<open>GetResource(Name, &pObj, ArrayIndex)\<close>; the three
  flags of \<^verbatim>\<open>BindResources\<close> are tested one by one, so they are three booleans.
\<close>

type_synonym IResourceMapping = "string \<Rightarrow> nat \<Rightarrow> IDeviceObject option"

record BIND_SHADER_RESOURCES_FLAGS =
  BIND_SHADER_RESOURCES_RESET_BINDINGS :: bool
  BIND_SHADER_RESOURCES_UPDATE_UNRESOLVED :: bool
  BIND_SHADER_RESOURCES_ALL_RESOLVED :: bool

text \<open>
  The body of the inner loop, for one resource and one array index. The boolean of the
  result says that the body executed \<^verbatim>\<open>return\<close>.
\<close>

definition BindSlot ::
  "config \<Rightarrow> ShaderResourceLayoutD3D12 \<Rightarrow> IResourceMapping \<Rightarrow> BIND_SHADER_RESOURCES_FLAGS \<Rightarrow>
   SRV_CBV_UAV \<Rightarrow> nat \<Rightarrow> world \<Rightarrow> fatal + (bool \<times> world)" where
  "BindSlot cfg L pResourceMapping Flags Res ArrInd w =
     (case (if BIND_SHADER_RESOURCES_RESET_BINDINGS Flags
            then BindResource cfg L Res None ArrInd w else Inr w) of
        Inl e \<Rightarrow> Inl e
      | Inr w1 \<Rightarrow>
         (case (if BIND_SHADER_RESOURCES_UPDATE_UNRESOLVED Flags
                then IsBound Res ArrInd w1 else Inr False) of
            Inl e \<Rightarrow> Inl e
          | Inr True \<Rightarrow> Inr (True, w1)
          | Inr False \<Rightarrow>
             (case pResourceMapping (Name (Attribs Res)) ArrInd of
                Some pObj \<Rightarrow>
                  (case BindResource cfg L Res (Some pObj) ArrInd w1 of
                     Inl e \<Rightarrow> Inl e
                   | Inr w2 \<Rightarrow> Inr (False, w2))
              | None \<Rightarrow>
                  (if BIND_SHADER_RESOURCES_ALL_RESOLVED Flags then
                     (case IsBound Res ArrInd w1 of
                        Inl e \<Rightarrow> Inl e
                      | Inr True \<Rightarrow> Inr (False, w1)
                      | Inr False \<Rightarrow> Inr (False, LOG_ERROR_MESSAGE NotFoundInMapping w1))
                   else Inr (False, w1)))))"

text \<open>The inner loop, over the array indices that are left.\<close>

fun BindResources_elems ::
  "config \<Rightarrow> ShaderResourceLayoutD3D12 \<Rightarrow> IResourceMapping \<Rightarrow> BIND_SHADER_RESOURCES_FLAGS \<Rightarrow>
   SRV_CBV_UAV \<Rightarrow> nat list \<Rightarrow> world \<Rightarrow> fatal + (bool \<times> world)" where
  "BindResources_elems cfg L M Flags Res [] w = Inr (False, w)"
| "BindResources_elems cfg L M Flags Res (ArrInd # rest) w =
     (case BindSlot cfg L M Flags Res ArrInd w of
        Inl e \<Rightarrow> Inl e
      | Inr (True, w1) \<Rightarrow> Inr (True, w1)
      | Inr (False, w1) \<Rightarrow> BindResources_elems cfg L M Flags Res rest w1)"

text \<open>The outer loop, over the resources that are left.\<close>

fun BindResources_loop ::
  "config \<Rightarrow> ShaderResourceLayoutD3D12 \<Rightarrow> IResourceMapping \<Rightarrow> BIND_SHADER_RESOURCES_FLAGS \<Rightarrow>
   SRV_CBV_UAV list \<Rightarrow> world \<Rightarrow> fatal + world" where
  "BindResources_loop cfg L M Flags [] w = Inr w"
| "BindResources_loop cfg L M Flags (Res # rest) w =
     (case BindResources_elems cfg L M Flags Res [0 ..< BindCount (Attribs Res)] w of
        Inl e \<Rightarrow> Inl e
      | Inr (True, w1) \<Rightarrow> Inr w1
      | Inr (False, w1) \<Rightarrow> BindResources_loop cfg L M Flags rest w1)"

text \<open>
  \<^verbatim>\<open>BindResources(pResourceMapping, Flags, dbgResourceCache)\<close>; as in \<^verbatim>\<open>BindResource\<close>,
  the state holds the one cache of the layout.
\<close>

definition BindResources ::
  "config \<Rightarrow> ShaderResourceLayoutD3D12 \<Rightarrow> IResourceMapping option \<Rightarrow>
   BIND_SHADER_RESOURCES_FLAGS \<Rightarrow> world \<Rightarrow> fatal + world" where
  "BindResources cfg L pResourceMapping Flags w =
     (case pResourceMapping of
        None \<Rightarrow> Inr (LOG_ERROR_MESSAGE ResourceMappingIsNull w)
      | Some M \<Rightarrow> BindResources_loop cfg L M Flags (AllSrvCbvUav L) w)"

text \<open>
  The (resource, array index) pairs in the order the two loops visit them, and the loop body
  run over a list of such pairs until one run of the body returns.
\<close>

definition SlotsInOrder :: "SRV_CBV_UAV list \<Rightarrow> (SRV_CBV_UAV \<times> nat) list" where
  "SlotsInOrder rs = concat (map (\<lambda>Res. map (\<lambda>ArrInd. (Res, ArrInd)) [0 ..< BindCount (Attribs Res)]) rs)"

fun BindSlots ::
  "config \<Rightarrow> ShaderResourceLayoutD3D12 \<Rightarrow> IResourceMapping \<Rightarrow> BIND_SHADER_RESOURCES_FLAGS \<Rightarrow>
   (SRV_CBV_UAV \<times> nat) list \<Rightarrow> world \<Rightarrow> fatal + (bool \<times> world)" where
  "BindSlots cfg L M Flags [] w = Inr (False, w)"
| "BindSlots cfg L M Flags ((Res, ArrInd) # rest) w =
     (case BindSlot cfg L M Flags Res ArrInd w of
        Inl e \<Rightarrow> Inl e
      | Inr (True, w1) \<Rightarrow> Inr (True, w1)
      | Inr (False, w1) \<Rightarrow> BindSlots cfg L M Flags rest w1)"

subsection \<open>CopyStaticResourceDesriptorHandles\<close>

text \<open>
  \<^verbatim>\<open>GetDescriptorRangeType\<close>: the table has an entry for every cached resource type but
  \<^verbatim>\<open>Unknown\<close>, whose index is outside the table.
\<close>

fun GetDescriptorRangeType :: "CachedResourceType \<Rightarrow> fatal + nat" where
  "GetDescriptorRangeType CBV = Inr D3D12_DESCRIPTOR_RANGE_TYPE_CBV"
| "GetDescriptorRangeType TexSRV = Inr D3D12_DESCRIPTOR_RANGE_TYPE_SRV"
| "GetDescriptorRangeType BufSRV = Inr D3D12_DESCRIPTOR_RANGE_TYPE_SRV"
| "GetDescriptorRangeType TexUAV = Inr D3D12_DESCRIPTOR_RANGE_TYPE_UAV"
| "GetDescriptorRangeType BufUAV = Inr D3D12_DESCRIPTOR_RANGE_TYPE_UAV"
| "GetDescriptorRangeType Sampler = Inr D3D12_DESCRIPTOR_RANGE_TYPE_SAMPLER"
| "GetDescriptorRangeType Unknown = Inl UnexpectedResourceType"

text \<open>
  The body of the two inner loops of \<^verbatim>\<open>CopyStaticResourceDesriptorHandles\<close>, which are
  the same code for a resource (heap type CBV_SRV_UAV) and for a sampler (heap type SAMPLER)
  up to the message, the assertion on the shader-visible handle and the heap type of the
  copy. The source cache is the one \<^verbatim>\<open>SrcLayout\<close> points to; it is read only and is not
  the cache of this layout.
\<close>

definition CopyStaticElement ::
  "D3D12_DESCRIPTOR_HEAP_TYPE \<Rightarrow> ShaderResourceCacheD3D12 \<Rightarrow> nat \<times> nat \<Rightarrow> nat \<times> nat \<Rightarrow>
   world \<Rightarrow> fatal + world" where
  "CopyStaticElement HeapType SrcCache SrcPos DstPos w =
     (case GetResource SrcCache (fst SrcPos) (snd SrcPos) of
        Inl e \<Rightarrow> Inl e
      | Inr SrcRes \<Rightarrow>
         (let w1 = (if pObject SrcRes = None
                    then LOG_ERROR_MESSAGE
                           (if HeapType = D3D12_DESCRIPTOR_HEAP_TYPE_SAMPLER
                            then NoStaticSamplerAssigned else NoStaticResourceAssigned) w
                    else w)
          in case Cache w1 of
               None \<Rightarrow> Inl ResourceCacheIsNull
             | Some c \<Rightarrow>
                (case GetResource c (fst DstPos) (snd DstPos) of
                   Inl e \<Rightarrow> Inl e
                 | Inr DstRes \<Rightarrow>
                    (if \<not> SamePtr (pObject DstRes) (pObject SrcRes) then
                       VERIFY (pObject DstRes = None)
                         (if HeapType = D3D12_DESCRIPTOR_HEAP_TYPE_SAMPLER
                          then StaticSamplerResourceMismatch else StaticResourceMismatch)
                         (let w2 = WriteSlot (fst DstPos) (snd DstPos)
                                     \<lparr>Type = Type SrcRes,
                                      CPUDescriptorHandle = CPUDescriptorHandle SrcRes,
                                      pObject = pObject SrcRes\<rparr> w1;
                              ShdrVisibleHandle =
                                ShaderVisibleTableCPUDescriptorHandle c HeapType (fst DstPos) (snd DstPos)
                          in VERIFY (ShdrVisibleHandle \<noteq> 0
                                     \<or> (HeapType = D3D12_DESCRIPTOR_HEAP_TYPE_CBV_SRV_UAV
                                        \<and> Type SrcRes = CBV))
                               ShaderVisibleSpaceMismatch
                               (Inr (if ShdrVisibleHandle \<noteq> 0
                                     then CopyDescriptorsSimple ShdrVisibleHandle
                                            (CPUDescriptorHandle SrcRes) HeapType w2
                                     else w2)))
                     else
                       VERIFY (Type DstRes = Type SrcRes
                               \<and> CPUDescriptorHandle DstRes = CPUDescriptorHandle SrcRes)
                         InconsistentCachedResource (Inr w1)))))"

text \<open>
  One inner loop: the array indices that are left, the source at the bind point plus the
  index in the table of the range type, the destination at the resolved offset plus the
  index in the resolved table.
\<close>

fun CopyStaticElems ::
  "D3D12_DESCRIPTOR_HEAP_TYPE \<Rightarrow> ShaderResourceCacheD3D12 \<Rightarrow> nat \<times> nat \<Rightarrow> nat \<times> nat \<Rightarrow>
   nat list \<Rightarrow> world \<Rightarrow> fatal + world" where
  "CopyStaticElems HeapType SrcCache SrcStart DstStart [] w = Inr w"
| "CopyStaticElems HeapType SrcCache SrcStart DstStart (ArrInd # rest) w =
     (case CopyStaticElement HeapType SrcCache
             (fst SrcStart, u32_add (snd SrcStart) ArrInd)
             (fst DstStart, u32_add (snd DstStart) ArrInd) w of
        Inl e \<Rightarrow> Inl e
      | Inr w1 \<Rightarrow> CopyStaticElems HeapType SrcCache SrcStart DstStart rest w1)"

text \<open>The body of the outer loop, for one static resource.\<close>

definition CopyStaticResource ::
  "config \<Rightarrow> ShaderResourceLayoutD3D12 \<Rightarrow> ShaderResourceLayoutD3D12 \<Rightarrow> ShaderResourceCacheD3D12 \<Rightarrow>
   SRV_CBV_UAV \<Rightarrow> world \<Rightarrow> fatal + world" where
  "CopyStaticResource cfg L SrcLayout SrcCache res w =
     VERIFY (m_ShaderType SrcLayout = m_ShaderType L) InconsistentShaderTypes
       (case GetDescriptorRangeType (ResType res) of
          Inl e \<Rightarrow> Inl e
        | Inr RangeType \<Rightarrow>
           (case CopyStaticElems D3D12_DESCRIPTOR_HEAP_TYPE_CBV_SRV_UAV SrcCache
                   (RangeType, BindPoint (Attribs res))
                   (RootIndex res, OffsetFromTableStart res)
                   [0 ..< BindCount (Attribs res)] w of
              Inl e \<Rightarrow> Inl e
            | Inr w1 \<Rightarrow>
               (if IsValidSampler res then
                  (case GetAssignedSampler cfg L res of
                     Inl e \<Rightarrow> Inl e
                   | Inr SamInfo \<Rightarrow>
                       VERIFY (\<not> StaticSampler (SamAttribs SamInfo)) StaticSamplerInCache
                      (VERIFY (BindPoint (SamAttribs SamInfo) \<noteq> InvalidBindPoint cfg) InvalidBindPointFatal
                      (VERIFY (BindCount (SamAttribs SamInfo) = BindCount (Attribs res)
                               \<or> BindCount (SamAttribs SamInfo) = 1) InconsistentBindCount
                         (CopyStaticElems D3D12_DESCRIPTOR_HEAP_TYPE_SAMPLER SrcCache
                            (D3D12_DESCRIPTOR_RANGE_TYPE_SAMPLER, BindPoint (SamAttribs SamInfo))
                            (SamRootIndex SamInfo, SamOffsetFromTableStart SamInfo)
                            [0 ..< BindCount (SamAttribs SamInfo)] w1))))
                else Inr w1)))"

fun CopyStaticResources ::
  "config \<Rightarrow> ShaderResourceLayoutD3D12 \<Rightarrow> ShaderResourceLayoutD3D12 \<Rightarrow> ShaderResourceCacheD3D12 \<Rightarrow>
   SRV_CBV_UAV list \<Rightarrow> world \<Rightarrow> fatal + world" where
  "CopyStaticResources cfg L SrcLayout SrcCache [] w = Inr w"
| "CopyStaticResources cfg L SrcLayout SrcCache (res # rest) w =
     (case CopyStaticResource cfg L SrcLayout SrcCache res w of
        Inl e \<Rightarrow> Inl e
      | Inr w1 \<Rightarrow> CopyStaticResources cfg L SrcLayout SrcCache rest w1)"

text \<open>
  \<^verbatim>\<open>CopyStaticResourceDesriptorHandles(SrcLayout)\<close>; \<open>pSrcCache\<close> is
  \<^verbatim>\<open>SrcLayout.m_pResourceCache\<close>.
\<close>

definition CopyStaticResourceDesriptorHandles ::
  "config \<Rightarrow> ShaderResourceLayoutD3D12 \<Rightarrow> ShaderResourceLayoutD3D12 \<Rightarrow>
   ShaderResourceCacheD3D12 option \<Rightarrow> world \<Rightarrow> fatal + world" where
  "CopyStaticResourceDesriptorHandles cfg L SrcLayout pSrcCache w =
     (case Cache w of
        None \<Rightarrow> Inr (LOG_ERROR_MESSAGE LayoutHasNoCache w)
      | Some c \<Rightarrow>
         (case pSrcCache of
            None \<Rightarrow> Inr (LOG_ERROR_MESSAGE SourceLayoutHasNoCache w)
          | Some SrcCache \<Rightarrow>
              CopyStaticResources cfg L SrcLayout SrcCache
                (m_SrvCbvUav L SHADER_VARIABLE_TYPE_STATIC) w))"

subsection \<open>The clone constructor\<close>

text \<open>
  Modelled from the spec: \<^verbatim>\<open>GetAllowedTypeBits\<close> and \<^verbatim>\<open>IsAllowedType\<close> are defined
  outside this file; the filter is the list of allowed variable types.
\<close>

definition IsAllowedType :: "SHADER_VARIABLE_TYPE \<Rightarrow> SHADER_VARIABLE_TYPE list \<Rightarrow> bool" where
  "IsAllowedType VarType AllowedVarTypes = (VarType \<in> set AllowedVarTypes)"

text \<open>
  The sampler part of the loop body of the clone constructor. \<open>Samplers\<close> are the
  samplers constructed so far for this variable type, so \<^verbatim>\<open>CurrSampler[VarType]\<close> is
  their number.

  Modelled from the spec: the constructors \<^verbatim>\<open>Sampler(Parent, Sam)\<close> and
  \<^verbatim>\<open>SRV_CBV_UAV(Parent, Res, SamplerId)\<close> are defined in the header; they copy the
  attributes, the root index and the offset of their argument (and, for a resource, the
  resource type, with the sampler id given).
\<close>

definition CloneSampler ::
  "config \<Rightarrow> ShaderResourceLayoutD3D12 \<Rightarrow> SHADER_VARIABLE_TYPE \<Rightarrow> SRV_CBV_UAV \<Rightarrow>
   SamplerBinding list \<Rightarrow> fatal + (nat option \<times> SamplerBinding list)" where
  "CloneSampler cfg SrcLayout VarType SrcRes Samplers =
     (case SamplerId SrcRes of
        None \<Rightarrow> Inr (None, Samplers)
      | Some SrcSamplerId \<Rightarrow>
         (case GetSampler SrcLayout VarType SrcSamplerId of
            Inl e \<Rightarrow> Inl e
          | Inr SrcSamplerAttribs \<Rightarrow>
              VERIFY (\<not> StaticSampler (SamAttribs SrcSamplerAttribs)) StaticSamplerInCache
             (VERIFY (VariableType (SamAttribs SrcSamplerAttribs) = VariableType (Attribs SrcRes))
                InconsistentVariableTypes
             (VERIFY (SamRootIndex SrcSamplerAttribs \<noteq> InvalidRootIndex cfg) InvalidRootIndexFatal
             (VERIFY (SamOffsetFromTableStart SrcSamplerAttribs \<noteq> InvalidOffset cfg) InvalidOffsetFatal
             (VERIFY (BindCount (SamAttribs SrcSamplerAttribs) = BindCount (Attribs SrcRes)
                      \<or> BindCount (SamAttribs SrcSamplerAttribs) = 1) InconsistentBindCount
             (VERIFY (length Samplers \<le> MaxSamplerId cfg) SamplerIdExceedsLimit
             (VERIFY (length Samplers = SrcSamplerId) InconsistentSamplerId
                (Inr (Some (length Samplers), Samplers @ [SrcSamplerAttribs]))))))))))"

fun CloneResources ::
  "config \<Rightarrow> ShaderResourceLayoutD3D12 \<Rightarrow> SHADER_VARIABLE_TYPE \<Rightarrow> SRV_CBV_UAV list \<Rightarrow>
   SRV_CBV_UAV list \<times> SamplerBinding list \<Rightarrow> fatal + (SRV_CBV_UAV list \<times> SamplerBinding list)" where
  "CloneResources cfg SrcLayout VarType [] built = Inr built"
| "CloneResources cfg SrcLayout VarType (SrcRes # rest) (CbvSrvUav, Samplers) =
     (case CloneSampler cfg SrcLayout VarType SrcRes Samplers of
        Inl e \<Rightarrow> Inl e
      | Inr (NewSamplerId, Samplers') \<Rightarrow>
          VERIFY (RootIndex SrcRes \<noteq> InvalidRootIndex cfg) InvalidRootIndexFatal
         (VERIFY (OffsetFromTableStart SrcRes \<noteq> InvalidOffset cfg) InvalidOffsetFatal
            (CloneResources cfg SrcLayout VarType rest
               (CbvSrvUav @ [SrcRes\<lparr>SamplerId := NewSamplerId\<rparr>], Samplers'))))"

text \<open>One round of the loop over the variable types.\<close>

definition CloneVarType ::
  "config \<Rightarrow> ShaderResourceLayoutD3D12 \<Rightarrow> SHADER_VARIABLE_TYPE list \<Rightarrow> SHADER_VARIABLE_TYPE \<Rightarrow>
   fatal + (SRV_CBV_UAV list \<times> SamplerBinding list)" where
  "CloneVarType cfg SrcLayout AllowedVarTypes VarType =
     (if \<not> IsAllowedType VarType AllowedVarTypes then Inr ([], [])
      else CloneResources cfg SrcLayout VarType (m_SrvCbvUav SrcLayout VarType) ([], []))"

text \<open>
  The constructor \<^verbatim>\<open>ShaderResourceLayoutD3D12(Owner, SrcLayout, Allocator, AllowedVarTypes,
  NumAllowedTypes, ResourceCache)\<close>. The new layout points to \<^verbatim>\<open>ResourceCache\<close>, which
  the constructor does not touch. When fewer samplers are constructed than the source
  counts, the rest of the buffer stays uninitialised; the debug build asserts that this does
  not happen, and the model keeps the constructed ones.
\<close>

definition CloneLayout ::
  "config \<Rightarrow> ShaderResourceLayoutD3D12 \<Rightarrow> SHADER_VARIABLE_TYPE list \<Rightarrow>
   fatal + ShaderResourceLayoutD3D12" where
  "CloneLayout cfg SrcLayout AllowedVarTypes =
     (case CloneVarType cfg SrcLayout AllowedVarTypes SHADER_VARIABLE_TYPE_STATIC of
        Inl e \<Rightarrow> Inl e
      | Inr Static \<Rightarrow>
     (case CloneVarType cfg SrcLayout AllowedVarTypes SHADER_VARIABLE_TYPE_MUTABLE of
        Inl e \<Rightarrow> Inl e
      | Inr Mutable \<Rightarrow>
     (case CloneVarType cfg SrcLayout AllowedVarTypes SHADER_VARIABLE_TYPE_DYNAMIC of
        Inl e \<Rightarrow> Inl e
      | Inr Dynamic \<Rightarrow>
         (let Built = (\<lambda>VarType. case VarType of
                          SHADER_VARIABLE_TYPE_STATIC \<Rightarrow> Static
                        | SHADER_VARIABLE_TYPE_MUTABLE \<Rightarrow> Mutable
                        | SHADER_VARIABLE_TYPE_DYNAMIC \<Rightarrow> Dynamic)
          in VERIFY (\<not> DEBUG cfg
                     \<or> (\<forall>VarType \<in> set AllowedVarTypes.
                           length (snd (Built VarType)) = m_NumSamplers SrcLayout VarType))
               UninitializedSamplers
               (Inr \<lparr>m_SrvCbvUav = (\<lambda>VarType. fst (Built VarType)),
                     m_Samplers = (\<lambda>VarType. snd (Built VarType)),
                     m_ShaderType = m_ShaderType SrcLayout\<rparr>)))))"

subsection \<open>Initialize\<close>

text \<open>
  Modelled from the spec: \<^verbatim>\<open>ShaderResourcesD3D12\<close> is declared outside this file. It holds
  the reflected attributes by category, the samplers (looked up by id, an id past the end
  being fatal) and the shader type; \<^verbatim>\<open>ProcessResources\<close> invokes one callback per resource
  of an allowed variable type, constant buffers first, then texture SRVs, texture UAVs,
  buffer SRVs and buffer UAVs. The model lists the calls in order, each with the cached
  resource type its handler passes on.
\<close>

record ShaderResourcesD3D12 =
  ResCBs :: "D3DShaderResourceAttribs list"
  ResTexSRVs :: "D3DShaderResourceAttribs list"
  ResTexUAVs :: "D3DShaderResourceAttribs list"
  ResBufSRVs :: "D3DShaderResourceAttribs list"
  ResBufUAVs :: "D3DShaderResourceAttribs list"
  ResSamplers :: "D3DShaderResourceAttribs list"
  ShaderType :: nat

definition ProcessResources ::
  "SHADER_VARIABLE_TYPE list \<Rightarrow> ShaderResourcesD3D12 \<Rightarrow> (CachedResourceType \<times> D3DShaderResourceAttribs) list" where
  "ProcessResources AllowedVarTypes R =
     (let allowed = filter (\<lambda>a. IsAllowedType (VariableType a) AllowedVarTypes)
      in map (Pair CBV) (allowed (ResCBs R))
       @ map (Pair TexSRV) (allowed (ResTexSRVs R))
       @ map (Pair TexUAV) (allowed (ResTexUAVs R))
       @ map (Pair BufSRV) (allowed (ResBufSRVs R))
       @ map (Pair BufUAV) (allowed (ResBufUAVs R)))"

definition GetResSampler :: "ShaderResourcesD3D12 \<Rightarrow> nat \<Rightarrow> fatal + D3DShaderResourceAttribs" where
  "GetResSampler R SamId =
     (if SamId < length (ResSamplers R) then Inr (ResSamplers R ! SamId) else Inl SamplerIdOutOfRange)"

text \<open>
  The root signature is not part of this file: its two operations are parameters, over a
  state of any type.
\<close>

record 'rs RootSignatureOps =
  AllocateResourceSlot :: "'rs \<Rightarrow> nat \<Rightarrow> D3DShaderResourceAttribs \<Rightarrow> nat \<Rightarrow> (nat \<times> nat) \<times> 'rs"
  InitStaticSampler :: "'rs \<Rightarrow> nat \<Rightarrow> string \<Rightarrow> D3DShaderResourceAttribs \<Rightarrow> 'rs"

text \<open>
  \<^verbatim>\<open>static_cast<int>\<close> of an unsigned 32-bit value and \<^verbatim>\<open>static_cast<Uint32>\<close> of an
  \<^verbatim>\<open>int\<close>.
\<close>

definition int_of_u32 :: "nat \<Rightarrow> int" where
  "int_of_u32 n = (if n mod 2 ^ 32 < 2 ^ 31 then int (n mod 2 ^ 32) else int (n mod 2 ^ 32) - 2 ^ 32)"

definition u32_of_int :: "int \<Rightarrow> nat" where
  "u32_of_int i = nat (i mod 2 ^ 32)"

text \<open>
  The first call of \<^verbatim>\<open>ProcessResources\<close>: the handlers count the resources and the
  samplers that are not static, by variable type.
\<close>

fun CountResources ::
  "ShaderResourcesD3D12 \<Rightarrow> (CachedResourceType \<times> D3DShaderResourceAttribs) list \<Rightarrow>
   (SHADER_VARIABLE_TYPE \<Rightarrow> nat) \<times> (SHADER_VARIABLE_TYPE \<Rightarrow> nat) \<Rightarrow>
   fatal + ((SHADER_VARIABLE_TYPE \<Rightarrow> nat) \<times> (SHADER_VARIABLE_TYPE \<Rightarrow> nat))" where
  "CountResources R [] counts = Inr counts"
| "CountResources R ((Kind, A) # rest) (NumCbvSrvUav, NumSamplers) =
     (let VarType = VariableType A;
          NumCbvSrvUav' = NumCbvSrvUav(VarType := Suc (NumCbvSrvUav VarType))
      in if Kind = TexSRV then
           (case AttribSamplerId A of
              None \<Rightarrow> CountResources R rest (NumCbvSrvUav', NumSamplers)
            | Some SamId \<Rightarrow>
               (case GetResSampler R SamId of
                  Inl e \<Rightarrow> Inl e
                | Inr SamplerAttribs \<Rightarrow>
                    VERIFY (VariableType SamplerAttribs = VarType) InconsistentVariableTypes
                      (CountResources R rest
                         (NumCbvSrvUav',
                          if \<not> StaticSampler SamplerAttribs
                          then NumSamplers(VarType := Suc (NumSamplers VarType))
                          else NumSamplers))))
         else CountResources R rest (NumCbvSrvUav', NumSamplers))"

text \<open>
  What the second pass builds: the bindings and samplers constructed so far, by variable
  type (so \<^verbatim>\<open>CurrCbvSrvUav[VarType]\<close> and \<^verbatim>\<open>CurrSampler[VarType]\<close> are the lengths),
  \<^verbatim>\<open>MaxBindPoint\<close>, and the root signature, if there is one.
\<close>

record 'rs InitState =
  CurrCbvSrvUav :: "SHADER_VARIABLE_TYPE \<Rightarrow> SRV_CBV_UAV list"
  CurrSampler :: "SHADER_VARIABLE_TYPE \<Rightarrow> SamplerBinding list"
  MaxBindPoint :: "int list"
  RootSig :: "'rs option"

text \<open>
  The lambda \<^verbatim>\<open>AddResource\<close>. Without a root signature the layout has a cache, as
  asserted at the head of \<^verbatim>\<open>Initialize\<close>.
\<close>

definition AddResource ::
  "config \<Rightarrow> 'rs RootSignatureOps \<Rightarrow> nat \<Rightarrow> D3DShaderResourceAttribs \<Rightarrow> CachedResourceType \<Rightarrow>
   nat option \<Rightarrow> 'rs InitState \<Rightarrow> fatal + 'rs InitState" where
  "AddResource cfg ops ShType A Kind SamId st =
     (case GetDescriptorRangeType Kind of
        Inl e \<Rightarrow> Inl e
      | Inr DescriptorRangeType \<Rightarrow>
         (case (case RootSig st of
                  Some rs \<Rightarrow>
                    (let (Slot, rs') = AllocateResourceSlot ops rs ShType A DescriptorRangeType
                     in VERIFY (fst Slot \<le> MaxRootIndex cfg) RootIndexExceedsLimit
                          (Inr (Slot, st\<lparr>RootSig := Some rs'\<rparr>)))
                | None \<Rightarrow>
                    Inr ((DescriptorRangeType, BindPoint A),
                         st\<lparr>MaxBindPoint := (MaxBindPoint st)
                               [DescriptorRangeType :=
                                  max (MaxBindPoint st ! DescriptorRangeType)
                                      (int_of_u32 (u32_add (BindPoint A) (BindCount A)))]\<rparr>)) of
            Inl e \<Rightarrow> Inl e
          | Inr (Slot, st1) \<Rightarrow>
              VERIFY (fst Slot \<noteq> InvalidRootIndex cfg) InvalidRootIndexFatal
             (VERIFY (snd Slot \<noteq> InvalidOffset cfg) InvalidOffsetFatal
                (Inr (st1\<lparr>CurrCbvSrvUav := (CurrCbvSrvUav st1)
                        (VariableType A := CurrCbvSrvUav st1 (VariableType A) @
                           [\<lparr>Attribs = A, ResType = Kind, RootIndex = fst Slot,
                             OffsetFromTableStart = snd Slot, SamplerId = SamId\<rparr>])\<rparr>)))))"

text \<open>The handler of a texture SRV in the second pass.\<close>

definition AddTexSRV ::
  "config \<Rightarrow> 'rs RootSignatureOps \<Rightarrow> ShaderResourcesD3D12 \<Rightarrow> D3DShaderResourceAttribs \<Rightarrow>
   'rs InitState \<Rightarrow> fatal + 'rs InitState" where
  "AddTexSRV cfg ops R TexSRVAttribs st =
     (case AttribSamplerId TexSRVAttribs of
        None \<Rightarrow> AddResource cfg ops (ShaderType R) TexSRVAttribs TexSRV None st
      | Some SamId \<Rightarrow>
         (case GetResSampler R SamId of
            Inl e \<Rightarrow> Inl e
          | Inr SrcSamplerAttribs \<Rightarrow>
              VERIFY (VariableType SrcSamplerAttribs = VariableType TexSRVAttribs) InconsistentVariableTypes
               (if StaticSampler SrcSamplerAttribs then
                  AddResource cfg ops (ShaderType R) TexSRVAttribs TexSRV None
                    (st\<lparr>RootSig := map_option
                          (\<lambda>rs. InitStaticSampler ops rs (ShaderType R) (Name TexSRVAttribs) SrcSamplerAttribs)
                          (RootSig st)\<rparr>)
                else
                  (let (Slot, st1) =
                         (case RootSig st of
                            Some rs \<Rightarrow>
                              (let (Slot, rs') = AllocateResourceSlot ops rs (ShaderType R) SrcSamplerAttribs
                                                   D3D12_DESCRIPTOR_RANGE_TYPE_SAMPLER
                               in (Slot, st\<lparr>RootSig := Some rs'\<rparr>))
                          | None \<Rightarrow>
                              ((D3D12_DESCRIPTOR_RANGE_TYPE_SAMPLER, BindPoint SrcSamplerAttribs),
                               st\<lparr>MaxBindPoint := (MaxBindPoint st)
                                     [D3D12_DESCRIPTOR_RANGE_TYPE_SAMPLER :=
                                        max (MaxBindPoint st ! D3D12_DESCRIPTOR_RANGE_TYPE_SAMPLER)
                                            (int_of_u32 (u32_add (BindPoint SrcSamplerAttribs)
                                                                 (BindCount SrcSamplerAttribs)))]\<rparr>))
                   in VERIFY (fst Slot \<noteq> InvalidRootIndex cfg) InvalidRootIndexFatal
                     (VERIFY (snd Slot \<noteq> InvalidOffset cfg) InvalidOffsetFatal
                     (let VarType = VariableType TexSRVAttribs;
                          NewSamplerId = length (CurrSampler st1 VarType)
                      in VERIFY (NewSamplerId \<le> MaxSamplerId cfg) SamplerIdExceedsLimit
                           (AddResource cfg ops (ShaderType R) TexSRVAttribs TexSRV (Some NewSamplerId)
                              (st1\<lparr>CurrSampler := (CurrSampler st1)
                                     (VarType := CurrSampler st1 VarType @
                                        [\<lparr>SamAttribs = SrcSamplerAttribs, SamRootIndex = fst Slot,
                                          SamOffsetFromTableStart = snd Slot\<rparr>])\<rparr>))))))))"

text \<open>The second call of \<^verbatim>\<open>ProcessResources\<close>.\<close>

fun AddResources ::
  "config \<Rightarrow> 'rs RootSignatureOps \<Rightarrow> ShaderResourcesD3D12 \<Rightarrow>
   (CachedResourceType \<times> D3DShaderResourceAttribs) list \<Rightarrow> 'rs InitState \<Rightarrow> fatal + 'rs InitState" where
  "AddResources cfg ops R [] st = Inr st"
| "AddResources cfg ops R ((Kind, A) # rest) st =
     (case (if Kind = TexSRV then AddTexSRV cfg ops R A st
            else AddResource cfg ops (ShaderType R) A Kind None st) of
        Inl e \<Rightarrow> Inl e
      | Inr st1 \<Rightarrow> AddResources cfg ops R rest st1)"

text \<open>
  Modelled from the spec: \<^verbatim>\<open>ShaderResourceCacheD3D12::Initialize(Allocator, NumTables,
  TableSizes)\<close> gives the cache its tables, of unbound slots; it is called once, and a
  second call is fatal.
\<close>

definition CacheInitialize ::
  "nat list \<Rightarrow> ShaderResourceCacheD3D12 \<Rightarrow> fatal + ShaderResourceCacheD3D12" where
  "CacheInitialize TableSizes c =
     VERIFY (RootTables c = []) CacheAlreadyInitialized
       (Inr (c\<lparr>RootTables := map (\<lambda>n. replicate n NullResource) TableSizes\<rparr>))"

definition AllVarTypes :: "SHADER_VARIABLE_TYPE list" where
  "AllVarTypes = [SHADER_VARIABLE_TYPE_STATIC, SHADER_VARIABLE_TYPE_MUTABLE, SHADER_VARIABLE_TYPE_DYNAMIC]"

text \<open>
  \<^verbatim>\<open>Initialize\<close>. The state holds the cache \<^verbatim>\<open>pResourceCache\<close> points to (none for a
  null pointer); the result is the layout, the root signature and the state.
\<close>

definition Initialize ::
  "config \<Rightarrow> 'rs RootSignatureOps \<Rightarrow> ShaderResourcesD3D12 \<Rightarrow> SHADER_VARIABLE_TYPE list \<Rightarrow>
   'rs option \<Rightarrow> world \<Rightarrow> fatal + (ShaderResourceLayoutD3D12 \<times> 'rs option \<times> world)" where
  "Initialize cfg ops pSrcResources AllowedVarTypes pRootSig w =
     VERIFY ((Cache w \<noteq> None) \<noteq> (pRootSig \<noteq> None)) CacheAndRootSignature
       (case CountResources pSrcResources (ProcessResources AllowedVarTypes pSrcResources)
               (\<lambda>VarType. 0, \<lambda>VarType. 0) of
          Inl e \<Rightarrow> Inl e
        | Inr (NumCbvSrvUav, NumSamplers) \<Rightarrow>
           (case AddResources cfg ops pSrcResources (ProcessResources AllowedVarTypes pSrcResources)
                   \<lparr>CurrCbvSrvUav = (\<lambda>VarType. []), CurrSampler = (\<lambda>VarType. []),
                    MaxBindPoint = [-1, -1, -1, -1], RootSig = pRootSig\<rparr> of
              Inl e \<Rightarrow> Inl e
            | Inr st \<Rightarrow>
                VERIFY (\<not> DEBUG cfg
                        \<or> (\<forall>VarType \<in> set AllVarTypes.
                              length (CurrCbvSrvUav st VarType) = NumCbvSrvUav VarType
                              \<and> length (CurrSampler st VarType) = NumSamplers VarType))
                  UninitializedSamplers
                  (let L = \<lparr>m_SrvCbvUav = CurrCbvSrvUav st, m_Samplers = CurrSampler st,
                            m_ShaderType = ShaderType pSrcResources\<rparr>
                   in case Cache w of
                        None \<Rightarrow> Inr (L, RootSig st, w)
                      | Some c \<Rightarrow>
                         (case CacheInitialize
                                 [u32_of_int (MaxBindPoint st ! D3D12_DESCRIPTOR_RANGE_TYPE_SRV + 1),
                                  u32_of_int (MaxBindPoint st ! D3D12_DESCRIPTOR_RANGE_TYPE_UAV + 1),
                                  u32_of_int (MaxBindPoint st ! D3D12_DESCRIPTOR_RANGE_TYPE_CBV + 1),
                                  u32_of_int (MaxBindPoint st ! D3D12_DESCRIPTOR_RANGE_TYPE_SAMPLER + 1)] c of
                            Inl e \<Rightarrow> Inl e
                          | Inr c' \<Rightarrow> Inr (L, RootSig st, w\<lparr>Cache := Some c'\<rparr>)))))"

subsection \<open>Conditions under which unbinding reaches no assertion\<close>

text \<open>
  The assertions on the way of \<^verbatim>\<open>BindResource(nullptr, ArrayIndex)\<close> through
  \<^verbatim>\<open>GetAssignedSampler\<close> and \<^verbatim>\<open>CacheSampler\<close>, for a binding with a sampler id: the
  sampler is found and matches, its bind point is valid, the sampler array index is below
  the sampler's bind count, and the sampler's slot is inside the cache.
\<close>

definition ClearSamplerChecks ::
  "config \<Rightarrow> ShaderResourceLayoutD3D12 \<Rightarrow> SRV_CBV_UAV \<Rightarrow> nat \<Rightarrow> ShaderResourceCacheD3D12 \<Rightarrow> bool" where
  "ClearSamplerChecks cfg L res ArrayIndex c =
     (case SamplerId res of
        None \<Rightarrow> True
      | Some sid \<Rightarrow>
          (case GetAssignedSampler cfg L res of
             Inl e \<Rightarrow> False
           | Inr Sam \<Rightarrow>
               BindPoint (SamAttribs Sam) \<noteq> InvalidBindPoint cfg
               \<and> SamplerArrInd Sam ArrayIndex < BindCount (SamAttribs Sam)
               \<and> SamRootIndex Sam < GetNumRootTables c
               \<and> u32_add (SamOffsetFromTableStart Sam) (SamplerArrInd Sam ArrayIndex)
                    < length (RootTables c ! SamRootIndex Sam)
               \<and> DbgVerifySamplerHandle cfg c Sam True 0 = None))"


subsection \<open>Category of an object against the category of a binding\<close>

text \<open>
  The two ways an object can fail to fit a binding, in the words of the specification:
  \<open>CategoryMatches\<close> holds when the object is of the declared category (a buffer created
  with the uniform-buffer flag for a constant buffer, a texture view for a texture SRV or
  UAV, a buffer view for a buffer SRV or UAV); \<open>ViewKindMatches\<close> holds when a view of
  the right class is of the declared kind (shader resource or unordered access).
\<close>

fun CategoryMatches :: "CachedResourceType \<Rightarrow> IDeviceObject \<Rightarrow> bool" where
  "CategoryMatches CBV (BufferD3D12Impl a uniform h dyn) = uniform"
| "CategoryMatches TexSRV (TextureViewD3D12Impl a vt h s) = True"
| "CategoryMatches TexUAV (TextureViewD3D12Impl a vt h s) = True"
| "CategoryMatches BufSRV (BufferViewD3D12Impl a vt h) = True"
| "CategoryMatches BufUAV (BufferViewD3D12Impl a vt h) = True"
| "CategoryMatches _ _ = False"

fun ViewKindMatches :: "CachedResourceType \<Rightarrow> IDeviceObject \<Rightarrow> bool" where
  "ViewKindMatches TexSRV (TextureViewD3D12Impl a vt h s) = (vt = TEXTURE_VIEW_SHADER_RESOURCE)"
| "ViewKindMatches TexUAV (TextureViewD3D12Impl a vt h s) = (vt = TEXTURE_VIEW_UNORDERED_ACCESS)"
| "ViewKindMatches BufSRV (BufferViewD3D12Impl a vt h) = (vt = BUFFER_VIEW_SHADER_RESOURCE)"
| "ViewKindMatches BufUAV (BufferViewD3D12Impl a vt h) = (vt = BUFFER_VIEW_UNORDERED_ACCESS)"
| "ViewKindMatches _ _ = True"

subsection \<open>The copies of a static layout, one by one\<close>

text \<open>
  The copies that \<^verbatim>\<open>CopyStaticResourceDesriptorHandles\<close> attempts, in order: for every
  static resource its array elements, then the array elements of its sampler. A copy is the
  heap type, the position read in the source cache and the position written in this cache.
  \<open>CopyTasks\<close> runs the loop body over such a list; \<open>StaticChecks\<close> are the
  assertions of the outer loop body that do not depend on the caches; \<open>Matches\<close> says
  that the destination slot of a copy holds what its source slot holds.
  \<open>StaticDestinationsConsistent\<close> says that two copies that write the same position
  read the same position.
\<close>

type_synonym CopyTask = "D3D12_DESCRIPTOR_HEAP_TYPE \<times> (nat \<times> nat) \<times> (nat \<times> nat)"

definition ElemTasks ::
  "D3D12_DESCRIPTOR_HEAP_TYPE \<Rightarrow> nat \<times> nat \<Rightarrow> nat \<times> nat \<Rightarrow> nat list \<Rightarrow> CopyTask list" where
  "ElemTasks HeapType SrcStart DstStart inds =
     map (\<lambda>ArrInd. (HeapType, (fst SrcStart, u32_add (snd SrcStart) ArrInd),
                              (fst DstStart, u32_add (snd DstStart) ArrInd))) inds"

definition ResourceTasks ::
  "config \<Rightarrow> ShaderResourceLayoutD3D12 \<Rightarrow> SRV_CBV_UAV \<Rightarrow> CopyTask list" where
  "ResourceTasks cfg L res =
     (case GetDescriptorRangeType (ResType res) of
        Inl e \<Rightarrow> []
      | Inr RangeType \<Rightarrow>
          ElemTasks D3D12_DESCRIPTOR_HEAP_TYPE_CBV_SRV_UAV
            (RangeType, BindPoint (Attribs res))
            (RootIndex res, OffsetFromTableStart res)
            [0 ..< BindCount (Attribs res)])
     @ (if IsValidSampler res then
          (case GetAssignedSampler cfg L res of
             Inl e \<Rightarrow> []
           | Inr SamInfo \<Rightarrow>
               ElemTasks D3D12_DESCRIPTOR_HEAP_TYPE_SAMPLER
                 (D3D12_DESCRIPTOR_RANGE_TYPE_SAMPLER, BindPoint (SamAttribs SamInfo))
                 (SamRootIndex SamInfo, SamOffsetFromTableStart SamInfo)
                 [0 ..< BindCount (SamAttribs SamInfo)])
        else [])"

definition StaticTasks :: "config \<Rightarrow> ShaderResourceLayoutD3D12 \<Rightarrow> CopyTask list" where
  "StaticTasks cfg L = concat (map (ResourceTasks cfg L) (m_SrvCbvUav L SHADER_VARIABLE_TYPE_STATIC))"

fun CopyTasks :: "ShaderResourceCacheD3D12 \<Rightarrow> CopyTask list \<Rightarrow> world \<Rightarrow> fatal + world" where
  "CopyTasks SrcCache [] w = Inr w"
| "CopyTasks SrcCache ((HeapType, SrcPos, DstPos) # rest) w =
     (case CopyStaticElement HeapType SrcCache SrcPos DstPos w of
        Inl e \<Rightarrow> Inl e
      | Inr w1 \<Rightarrow> CopyTasks SrcCache rest w1)"

definition StaticChecks ::
  "config \<Rightarrow> ShaderResourceLayoutD3D12 \<Rightarrow> ShaderResourceLayoutD3D12 \<Rightarrow> SRV_CBV_UAV \<Rightarrow> bool" where
  "StaticChecks cfg L SrcLayout res =
     (m_ShaderType SrcLayout = m_ShaderType L
      \<and> ResType res \<noteq> Unknown
      \<and> (IsValidSampler res \<longrightarrow>
           (case GetAssignedSampler cfg L res of
              Inl e \<Rightarrow> False
            | Inr SamInfo \<Rightarrow>
                \<not> StaticSampler (SamAttribs SamInfo)
                \<and> BindPoint (SamAttribs SamInfo) \<noteq> InvalidBindPoint cfg
                \<and> (BindCount (SamAttribs SamInfo) = BindCount (Attribs res)
                    \<or> BindCount (SamAttribs SamInfo) = 1))))"

definition Matches :: "ShaderResourceCacheD3D12 \<Rightarrow> ShaderResourceCacheD3D12 \<Rightarrow> CopyTask \<Rightarrow> bool" where
  "Matches SrcCache c t =
     (case GetResource SrcCache (fst (fst (snd t))) (snd (fst (snd t))) of
        Inl e \<Rightarrow> False
      | Inr SrcRes \<Rightarrow>
         (case GetResource c (fst (snd (snd t))) (snd (snd (snd t))) of
            Inl e \<Rightarrow> False
          | Inr DstRes \<Rightarrow>
              SamePtr (pObject DstRes) (pObject SrcRes)
              \<and> Type DstRes = Type SrcRes
              \<and> CPUDescriptorHandle DstRes = CPUDescriptorHandle SrcRes))"

definition StaticDestinationsConsistent :: "config \<Rightarrow> ShaderResourceLayoutD3D12 \<Rightarrow> bool" where
  "StaticDestinationsConsistent cfg L =
     (\<forall>t1 \<in> set (StaticTasks cfg L). \<forall>t2 \<in> set (StaticTasks cfg L).
        snd (snd t1) = snd (snd t2) \<longrightarrow> fst (snd t1) = fst (snd t2))"

subsection \<open>Initialize followed by BindResources\<close>

text \<open>
  A slot of the cache counts as bound, for \<^verbatim>\<open>IsBound\<close>, when it can be read, holds an
  object, and has a descriptor handle or holds a dynamic buffer. \<open>NoFlags\<close> is the
  \<^verbatim>\<open>Flags\<close> argument 0.
\<close>

definition BoundAt :: "world \<Rightarrow> nat \<times> nat \<Rightarrow> bool" where
  "BoundAt w pos =
     (case ReadSlot w (fst pos) (snd pos) of
        Inl e \<Rightarrow> False
      | Inr R \<Rightarrow>
         (case pObject R of
            None \<Rightarrow> False
          | Some obj \<Rightarrow> CPUDescriptorHandle R \<noteq> 0 \<or> IsDynamicBuffer obj))"

definition NoFlags :: BIND_SHADER_RESOURCES_FLAGS where
  "NoFlags = \<lparr>BIND_SHADER_RESOURCES_RESET_BINDINGS = False,
               BIND_SHADER_RESOURCES_UPDATE_UNRESOLVED = False,
               BIND_SHADER_RESOURCES_ALL_RESOLVED = False\<rparr>"

text \<open>
  What the assertions of \<^verbatim>\<open>BindResource\<close> read of the cache but binding never changes:
  the sizes of the tables, the shader-visible handles and the content type. \<open>InRange\<close>
  says that a slot exists.
\<close>

definition Shape ::
  "ShaderResourceCacheD3D12 \<Rightarrow> nat list \<times> (D3D12_DESCRIPTOR_HEAP_TYPE \<Rightarrow> nat \<Rightarrow> nat \<Rightarrow> nat) \<times> DbgCacheContentType" where
  "Shape c = (map length (RootTables c), ShaderVisibleTableCPUDescriptorHandle c, DbgContentType c)"

definition InRange :: "ShaderResourceCacheD3D12 \<Rightarrow> nat \<Rightarrow> nat \<Rightarrow> bool" where
  "InRange c r off = (r < GetNumRootTables c \<and> off < length (RootTables c ! r))"

definition WShape ::
  "world \<Rightarrow> (nat list \<times> (D3D12_DESCRIPTOR_HEAP_TYPE \<Rightarrow> nat \<Rightarrow> nat \<Rightarrow> nat) \<times> DbgCacheContentType) option" where
  "WShape w = map_option Shape (Cache w)"

text \<open>
  An object passes the assertions on descriptor handles: \<^verbatim>\<open>CacheCB\<close> asserts that a
  buffer has a CBV handle or is dynamic, \<^verbatim>\<open>CacheResourceView\<close> that a view has a handle,
  \<^verbatim>\<open>CacheSampler\<close> that the sampler of a texture view has one.
\<close>

fun ObjectUsable :: "IDeviceObject \<Rightarrow> bool" where
  "ObjectUsable (BufferD3D12Impl a uniform h dyn) = (h \<noteq> 0 \<or> dyn)"
| "ObjectUsable (TextureViewD3D12Impl a vt h s) =
     (h \<noteq> 0 \<and> (case s of None \<Rightarrow> True | Some smp \<Rightarrow> SamplerCPUDescriptorHandle smp \<noteq> 0))"
| "ObjectUsable (BufferViewD3D12Impl a vt h) = (h \<noteq> 0)"
| "ObjectUsable _ = True"

text \<open>
  The assertions on the way of \<^verbatim>\<open>BindResource(pObj, ArrayIndex)\<close> through the lambda
  that caches the sampler of a texture view, and all the assertions of
  \<^verbatim>\<open>BindResource\<close> on a binding and an array index that do not depend on the object.
\<close>

definition BindSamplerChecks ::
  "config \<Rightarrow> ShaderResourceLayoutD3D12 \<Rightarrow> SRV_CBV_UAV \<Rightarrow> nat \<Rightarrow> ShaderResourceCacheD3D12 \<Rightarrow> bool" where
  "BindSamplerChecks cfg L res ArrayIndex c =
     (case SamplerId res of
        None \<Rightarrow> True
      | Some sid \<Rightarrow>
          (case GetAssignedSampler cfg L res of
             Inl e \<Rightarrow> False
           | Inr Sam \<Rightarrow>
               \<not> StaticSampler (SamAttribs Sam)
               \<and> (BindCount (Attribs res) = BindCount (SamAttribs Sam) \<or> BindCount (SamAttribs Sam) = 1)
               \<and> BindPoint (SamAttribs Sam) \<noteq> InvalidBindPoint cfg
               \<and> SamplerArrInd Sam ArrayIndex < BindCount (SamAttribs Sam)
               \<and> InRange c (SamRootIndex Sam)
                    (u32_add (SamOffsetFromTableStart Sam) (SamplerArrInd Sam ArrayIndex))
               \<and> DbgVerifySamplerHandle cfg c Sam False
                    (ShaderVisibleTableCPUDescriptorHandle c D3D12_DESCRIPTOR_HEAP_TYPE_SAMPLER
                       (SamRootIndex Sam)
                       (u32_add (SamOffsetFromTableStart Sam) (SamplerArrInd Sam ArrayIndex))) = None))"

definition SlotReady ::
  "config \<Rightarrow> ShaderResourceLayoutD3D12 \<Rightarrow> ShaderResourceCacheD3D12 \<Rightarrow> SRV_CBV_UAV \<Rightarrow> nat \<Rightarrow> bool" where
  "SlotReady cfg L c res ArrayIndex =
     (InRange c (RootIndex res) (u32_add (OffsetFromTableStart res) ArrayIndex)
      \<and> DbgVerifyResourceHandle cfg c res
           (ShaderVisibleTableCPUDescriptorHandle c D3D12_DESCRIPTOR_HEAP_TYPE_CBV_SRV_UAV
              (RootIndex res) (u32_add (OffsetFromTableStart res) ArrayIndex)) = None
      \<and> ResType res \<in> {CBV, TexSRV, TexUAV, BufSRV, BufUAV}
      \<and> BindSamplerChecks cfg L res ArrayIndex c)"

text \<open>
  The resource mapping supplies, for a reflected resource of category \<open>Kind\<close> and an array
  index, an object of that category and view kind with the handles the assertions ask for.
  \<open>SlotOK\<close> and \<open>SlotPos\<close> speak of a (binding, array index) pair of the loops of
  \<^verbatim>\<open>BindResources\<close>.
\<close>

definition Supplies :: "IResourceMapping \<Rightarrow> CachedResourceType \<Rightarrow> D3DShaderResourceAttribs \<Rightarrow> nat \<Rightarrow> bool" where
  "Supplies M Kind A ArrayIndex =
     (case M (Name A) ArrayIndex of
        None \<Rightarrow> False
      | Some obj \<Rightarrow> CategoryMatches Kind obj \<and> ViewKindMatches Kind obj \<and> ObjectUsable obj)"

definition SlotOK ::
  "config \<Rightarrow> ShaderResourceLayoutD3D12 \<Rightarrow> IResourceMapping \<Rightarrow> ShaderResourceCacheD3D12 \<Rightarrow>
   SRV_CBV_UAV \<times> nat \<Rightarrow> bool" where
  "SlotOK cfg L M c slot =
     (snd slot < BindCount (Attribs (fst slot)) \<and> SlotReady cfg L c (fst slot) (snd slot)
      \<and> Supplies M (ResType (fst slot)) (Attribs (fst slot)) (snd slot))"

definition SlotPos :: "SRV_CBV_UAV \<times> nat \<Rightarrow> nat \<times> nat" where
  "SlotPos slot = (RootIndex (fst slot), u32_add (OffsetFromTableStart (fst slot)) (snd slot))"

text \<open>
  What the shader reflection guarantees of the attributes that \<^verbatim>\<open>Initialize\<close> processes:
  bind point plus bind count stays below \<open>2\<^sup>3\<^sup>1\<close>, so that neither the \<^verbatim>\<open>Uint32\<close> sum
  nor its cast to \<^verbatim>\<open>int\<close> wraps; the sampler assigned to a texture SRV, unless static, is
  named after the texture with \<^verbatim>\<open>D3DSamplerSuffix\<close>, has a valid bind point, and has the
  bind count of the texture or 1.
\<close>

definition AttribsWellFormed ::
  "config \<Rightarrow> ShaderResourcesD3D12 \<Rightarrow> CachedResourceType \<Rightarrow> D3DShaderResourceAttribs \<Rightarrow> bool" where
  "AttribsWellFormed cfg R Kind A =
     (BindPoint A + BindCount A < 2 ^ 31
      \<and> (case (if Kind = TexSRV then AttribSamplerId A else None) of
            None \<Rightarrow> True
          | Some src \<Rightarrow>
             (case GetResSampler R src of
                Inl e \<Rightarrow> True
              | Inr S \<Rightarrow>
                  StaticSampler S
                  \<or> (Name S = Name A @ D3DSamplerSuffix cfg
                     \<and> BindPoint S \<noteq> InvalidBindPoint cfg
                     \<and> (BindCount A = BindCount S \<or> BindCount S = 1)
                     \<and> BindPoint S + BindCount S < 2 ^ 31))))"

text \<open>
  The invariant of the second pass of \<^verbatim>\<open>Initialize\<close> without a root signature. Every
  binding built so far is of a processed resource, sits in the table of its descriptor range
  type at its bind point, ends at or below \<^verbatim>\<open>MaxBindPoint\<close> of that table, and its
  sampler id, if any, is that of a sampler built so far for the sampler attributes the
  texture refers to, in the sampler table at the sampler's bind point. \<open>StaticTableSizes\<close>
  are the sizes \<^verbatim>\<open>Initialize\<close> passes to the cache.
\<close>

definition SamplerInv ::
  "ShaderResourcesD3D12 \<Rightarrow> int list \<Rightarrow> D3DShaderResourceAttribs \<Rightarrow> SamplerBinding \<Rightarrow> bool" where
  "SamplerInv R mbp A Sam =
     ((case AttribSamplerId A of
         None \<Rightarrow> False
       | Some src \<Rightarrow> GetResSampler R src = Inr (SamAttribs Sam))
      \<and> \<not> StaticSampler (SamAttribs Sam)
      \<and> VariableType (SamAttribs Sam) = VariableType A
      \<and> SamRootIndex Sam = D3D12_DESCRIPTOR_RANGE_TYPE_SAMPLER
      \<and> SamOffsetFromTableStart Sam = BindPoint (SamAttribs Sam)
      \<and> int (BindPoint (SamAttribs Sam) + BindCount (SamAttribs Sam))
           \<le> mbp ! D3D12_DESCRIPTOR_RANGE_TYPE_SAMPLER)"

definition BindingInv ::
  "ShaderResourcesD3D12 \<Rightarrow> (CachedResourceType \<times> D3DShaderResourceAttribs) list \<Rightarrow> int list \<Rightarrow>
   (SHADER_VARIABLE_TYPE \<Rightarrow> SamplerBinding list) \<Rightarrow> SRV_CBV_UAV \<Rightarrow> bool" where
  "BindingInv R items mbp sams res =
     ((ResType res, Attribs res) \<in> set items
      \<and> GetDescriptorRangeType (ResType res) = Inr (RootIndex res)
      \<and> OffsetFromTableStart res = BindPoint (Attribs res)
      \<and> int (BindPoint (Attribs res) + BindCount (Attribs res)) \<le> mbp ! RootIndex res
      \<and> (case SamplerId res of
            None \<Rightarrow> True
          | Some sid \<Rightarrow>
              ResType res = TexSRV
              \<and> sid < length (sams (VariableType (Attribs res)))
              \<and> SamplerInv R mbp (Attribs res) (sams (VariableType (Attribs res)) ! sid)))"

definition InitInv ::
  "ShaderResourcesD3D12 \<Rightarrow> (CachedResourceType \<times> D3DShaderResourceAttribs) list \<Rightarrow> 'rs InitState \<Rightarrow> bool" where
  "InitInv R items st =
     (RootSig st = None \<and> length (MaxBindPoint st) = 4
      \<and> (\<forall>k < 4. MaxBindPoint st ! k < 2 ^ 31)
      \<and> (\<forall>VarType. \<forall>res \<in> set (CurrCbvSrvUav st VarType).
            BindingInv R items (MaxBindPoint st) (CurrSampler st) res))"

definition StaticTableSizes :: "int list \<Rightarrow> nat list" where
  "StaticTableSizes mbp =
     [u32_of_int (mbp ! D3D12_DESCRIPTOR_RANGE_TYPE_SRV + 1),
      u32_of_int (mbp ! D3D12_DESCRIPTOR_RANGE_TYPE_UAV + 1),
      u32_of_int (mbp ! D3D12_DESCRIPTOR_RANGE_TYPE_CBV + 1),
      u32_of_int (mbp ! D3D12_DESCRIPTOR_RANGE_TYPE_SAMPLER + 1)]"

text \<open>
  A processed resource has a binding among those built so far, and a later state of the
  second pass (without a root signature) has all the bindings of an earlier one.
\<close>

definition Covered :: "'rs InitState \<Rightarrow> CachedResourceType \<times> D3DShaderResourceAttribs \<Rightarrow> bool" where
  "Covered st x =
     (\<exists>res \<in> set (CurrCbvSrvUav st (VariableType (snd x))). Attribs res = snd x \<and> ResType res = fst x)"

definition Grows :: "'rs InitState \<Rightarrow> 'rs InitState \<Rightarrow> bool" where
  "Grows st st' =
     (RootSig st' = None \<and> (\<forall>VarType. set (CurrCbvSrvUav st VarType) \<subseteq> set (CurrCbvSrvUav st' VarType)))"

subsection \<open>Concrete inputs\<close>

definition ExCfg :: config where
  "ExCfg = \<lparr>DEBUG = True, VERIFY_SHADER_BINDINGS = True, MaxSamplerId = 1023, MaxRootIndex = 1023,
            InvalidRootIndex = 4294967295, InvalidOffset = 4294967295, InvalidBindPoint = 4294967295,
            D3DSamplerSuffix = ''_sampler''\<rparr>"

definition ExCache :: "Resource list list \<Rightarrow> ShaderResourceCacheD3D12" where
  "ExCache ts = \<lparr>RootTables = ts, ShaderVisibleTableCPUDescriptorHandle = (\<lambda>h r off. 0),
                 DbgContentType = StaticShaderResources\<rparr>"

definition ExWorld :: "Resource list list \<Rightarrow> world" where
  "ExWorld ts = \<lparr>Cache = Some (ExCache ts), Log = [], DescriptorCopies = []\<rparr>"

definition ExAttribs :: "string \<Rightarrow> nat \<Rightarrow> nat \<Rightarrow> SHADER_VARIABLE_TYPE \<Rightarrow> D3DShaderResourceAttribs" where
  "ExAttribs n bp bc vt = \<lparr>Name = n, BindPoint = bp, BindCount = bc, VariableType = vt,
                          AttribSamplerId = None, StaticSampler = False\<rparr>"

definition ExLayoutEmpty :: ShaderResourceLayoutD3D12 where
  "ExLayoutEmpty = \<lparr>m_SrvCbvUav = (\<lambda>vt. []), m_Samplers = (\<lambda>vt. []), m_ShaderType = 1\<rparr>"

definition ExBuffer :: IDeviceObject where
  "ExBuffer = BufferD3D12Impl 4096 True 64 False"

definition ExCB :: SRV_CBV_UAV where
  "ExCB = \<lparr>Attribs = ExAttribs ''cbConstants'' 0 1 SHADER_VARIABLE_TYPE_MUTABLE, ResType = CBV,
           RootIndex = 0, OffsetFromTableStart = 0, SamplerId = None\<rparr>"

definition ExBoundCB :: Resource where
  "ExBoundCB = \<lparr>Type = CBV, CPUDescriptorHandle = 64, pObject = Some ExBuffer\<rparr>"

definition ExSam :: SamplerBinding where
  "ExSam = \<lparr>SamAttribs = ExAttribs ''g_Tex_sampler'' 0 1 SHADER_VARIABLE_TYPE_MUTABLE,
            SamRootIndex = 1, SamOffsetFromTableStart = 0\<rparr>"

definition ExTex :: SRV_CBV_UAV where
  "ExTex = \<lparr>Attribs = ExAttribs ''g_Tex'' 0 2 SHADER_VARIABLE_TYPE_MUTABLE, ResType = TexSRV,
            RootIndex = 0, OffsetFromTableStart = 0, SamplerId = Some 0\<rparr>"

definition ExLayoutTex :: ShaderResourceLayoutD3D12 where
  "ExLayoutTex = \<lparr>m_SrvCbvUav = (\<lambda>vt. if vt = SHADER_VARIABLE_TYPE_MUTABLE then [ExTex] else []),
                  m_Samplers = (\<lambda>vt. if vt = SHADER_VARIABLE_TYPE_MUTABLE then [ExSam] else []),
                  m_ShaderType = 1\<rparr>"

definition ExCfgRelease :: config where
  "ExCfgRelease = ExCfg\<lparr>DEBUG := False, VERIFY_SHADER_BINDINGS := False\<rparr>"

definition ExTexSRV :: SRV_CBV_UAV where
  "ExTexSRV = \<lparr>Attribs = ExAttribs ''g_Tex'' 0 1 SHADER_VARIABLE_TYPE_MUTABLE, ResType = TexSRV,
            RootIndex = 0, OffsetFromTableStart = 0, SamplerId = None\<rparr>"

definition ExUAVView :: IDeviceObject where
  "ExUAVView = TextureViewD3D12Impl 8192 TEXTURE_VIEW_UNORDERED_ACCESS 72 None"

definition ExCB2 :: SRV_CBV_UAV where
  "ExCB2 = \<lparr>Attribs = ExAttribs ''cbLights'' 1 1 SHADER_VARIABLE_TYPE_MUTABLE, ResType = CBV,
            RootIndex = 0, OffsetFromTableStart = 1, SamplerId = None\<rparr>"

definition ExLayoutTwoCB :: ShaderResourceLayoutD3D12 where
  "ExLayoutTwoCB = \<lparr>m_SrvCbvUav = (\<lambda>vt. if vt = SHADER_VARIABLE_TYPE_MUTABLE then [ExCB, ExCB2] else []),
                    m_Samplers = (\<lambda>vt. []), m_ShaderType = 1\<rparr>"

definition ExMapping :: IResourceMapping where
  "ExMapping n i = (if n = ''cbLights'' \<and> i = 0 then Some (BufferD3D12Impl 4352 True 80 False) else None)"

definition ExUpdateUnresolved :: BIND_SHADER_RESOURCES_FLAGS where
  "ExUpdateUnresolved = \<lparr>BIND_SHADER_RESOURCES_RESET_BINDINGS = False,
                          BIND_SHADER_RESOURCES_UPDATE_UNRESOLVED = True,
                          BIND_SHADER_RESOURCES_ALL_RESOLVED = False\<rparr>"

definition ExStaticCB :: SRV_CBV_UAV where
  "ExStaticCB = \<lparr>Attribs = ExAttribs ''cbStatic'' 0 1 SHADER_VARIABLE_TYPE_STATIC, ResType = CBV,
                 RootIndex = 0, OffsetFromTableStart = 0, SamplerId = None\<rparr>"

definition ExLayoutStatic :: ShaderResourceLayoutD3D12 where
  "ExLayoutStatic = \<lparr>m_SrvCbvUav = (\<lambda>vt. if vt = SHADER_VARIABLE_TYPE_STATIC then [ExStaticCB] else []),
                     m_Samplers = (\<lambda>vt. []), m_ShaderType = 1\<rparr>"

definition ExSrcCache :: ShaderResourceCacheD3D12 where
  "ExSrcCache = ExCache [[], [], [ExBoundCB], []]"

definition ExOtherCB :: Resource where
  "ExOtherCB = \<lparr>Type = CBV, CPUDescriptorHandle = 80,
                pObject = Some (BufferD3D12Impl 4352 True 80 False)\<rparr>"

definition ExOps :: "unit RootSignatureOps" where
  "ExOps = \<lparr>AllocateResourceSlot = (\<lambda>rs sh a rt. ((0, 0), rs)), InitStaticSampler = (\<lambda>rs sh n a. rs)\<rparr>"

definition ExScenario :: ShaderResourcesD3D12 where
  "ExScenario =
     \<lparr>ResCBs = [ExAttribs ''cbStatic'' 0 1 SHADER_VARIABLE_TYPE_STATIC],
      ResTexSRVs = [(ExAttribs ''g_Tex'' 0 3 SHADER_VARIABLE_TYPE_MUTABLE)\<lparr>AttribSamplerId := Some 0\<rparr>],
      ResTexUAVs = [],
      ResBufSRVs = [],
      ResBufUAVs = [ExAttribs ''g_Buf'' 0 1 SHADER_VARIABLE_TYPE_DYNAMIC],
      ResSamplers = [ExAttribs ''g_Tex_sampler'' 0 1 SHADER_VARIABLE_TYPE_MUTABLE],
      ShaderType = 1\<rparr>"

text \<open>
  The layout and the tables \<^verbatim>\<open>Initialize\<close> builds for \<open>ExScenario\<close>, and a mapping with
  an object for each of its three names.
\<close>

definition ExScenarioCB :: SRV_CBV_UAV where
  "ExScenarioCB = \<lparr>Attribs = ExAttribs ''cbStatic'' 0 1 SHADER_VARIABLE_TYPE_STATIC, ResType = CBV,
                   RootIndex = 2, OffsetFromTableStart = 0, SamplerId = None\<rparr>"

definition ExScenarioTex :: SRV_CBV_UAV where
  "ExScenarioTex = \<lparr>Attribs = (ExAttribs ''g_Tex'' 0 3 SHADER_VARIABLE_TYPE_MUTABLE)\<lparr>AttribSamplerId := Some 0\<rparr>,
                    ResType = TexSRV, RootIndex = 0, OffsetFromTableStart = 0, SamplerId = Some 0\<rparr>"

definition ExScenarioBuf :: SRV_CBV_UAV where
  "ExScenarioBuf = \<lparr>Attribs = ExAttribs ''g_Buf'' 0 1 SHADER_VARIABLE_TYPE_DYNAMIC, ResType = BufUAV,
                    RootIndex = 1, OffsetFromTableStart = 0, SamplerId = None\<rparr>"

definition ExScenarioSam :: SamplerBinding where
  "ExScenarioSam = \<lparr>SamAttribs = ExAttribs ''g_Tex_sampler'' 0 1 SHADER_VARIABLE_TYPE_MUTABLE,
                    SamRootIndex = 3, SamOffsetFromTableStart = 0\<rparr>"

definition ExScenarioLayout :: ShaderResourceLayoutD3D12 where
  "ExScenarioLayout =
     \<lparr>m_SrvCbvUav = (\<lambda>VarType. [])
        (SHADER_VARIABLE_TYPE_STATIC := [ExScenarioCB],
         SHADER_VARIABLE_TYPE_MUTABLE := [ExScenarioTex],
         SHADER_VARIABLE_TYPE_DYNAMIC := [ExScenarioBuf]),
      m_Samplers = (\<lambda>VarType. []) (SHADER_VARIABLE_TYPE_MUTABLE := [ExScenarioSam]),
      m_ShaderType = 1\<rparr>"

definition ExScenarioTables :: "Resource list list" where
  "ExScenarioTables = [replicate 4 NullResource, replicate 2 NullResource,
                       replicate 2 NullResource, replicate 2 NullResource]"

definition ExScenarioMapping :: IResourceMapping where
  "ExScenarioMapping n i =
     (if n = ''cbStatic'' \<and> i = 0 then Some ExBuffer
      else if n = ''g_Tex'' \<and> i < 3 then
        Some (TextureViewD3D12Impl (8192 + i) TEXTURE_VIEW_SHADER_RESOURCE (72 + i)
                (Some \<lparr>SamplerAddr = 16384, SamplerCPUDescriptorHandle = 128\<rparr>))
      else if n = ''g_Buf'' \<and> i = 0 then
        Some (BufferViewD3D12Impl 12288 BUFFER_VIEW_UNORDERED_ACCESS 96)
      else None)"

section \<open>Properties\<close>

subsection \<open>The cache and the state\<close>

lemma length_RootTables_SetResource [simp]:
  "length (RootTables (SetResource c r off x)) = length (RootTables c)"
  by (simp add: SetResource_def)

lemma RootTables_SetResource_nth:
  "r < length (RootTables c) \<Longrightarrow>
   RootTables (SetResource c r off x) ! r' =
     (if r' = r then (RootTables c ! r)[off := x] else RootTables c ! r')"
  by (simp add: SetResource_def nth_list_update)

lemma RootTables_SetResource_beyond:
  "\<not> r < length (RootTables c) \<Longrightarrow> RootTables (SetResource c r off x) = RootTables c"
  by (simp add: SetResource_def not_less list_update_beyond)

lemma length_table_SetResource [simp]:
  "length (RootTables (SetResource c r off x) ! r') = length (RootTables c ! r')"
  by (cases "r < length (RootTables c)")
     (simp_all add: RootTables_SetResource_nth RootTables_SetResource_beyond)

lemma GetNumRootTables_SetResource [simp]:
  "GetNumRootTables (SetResource c r off x) = GetNumRootTables c"
  by (simp add: GetNumRootTables_def)

lemma DbgContentType_SetResource [simp]:
  "DbgContentType (SetResource c r off x) = DbgContentType c"
  by (simp add: SetResource_def)

lemma ShaderVisible_SetResource [simp]:
  "ShaderVisibleTableCPUDescriptorHandle (SetResource c r off x) = ShaderVisibleTableCPUDescriptorHandle c"
  by (simp add: SetResource_def)

lemma GetResource_SetResource:
  "GetResource (SetResource c r off x) r' off' =
     (if r' = r \<and> off' = off \<and> r < GetNumRootTables c \<and> off < length (RootTables c ! r)
      then Inr x else GetResource c r' off')"
proof (cases "r < length (RootTables c)")
  case True
  then show ?thesis
    by (simp add: GetResource_def GetNumRootTables_def RootTables_SetResource_nth nth_list_update)
next
  case False
  then show ?thesis
    by (simp add: GetResource_def GetNumRootTables_def RootTables_SetResource_beyond)
qed

lemma DbgVerifySamplerHandle_SetResource [simp]:
  "DbgVerifySamplerHandle cfg (SetResource c r off x) Sam b h = DbgVerifySamplerHandle cfg c Sam b h"
  by (simp add: DbgVerifySamplerHandle_def)

lemma GetResource_Inr_iff:
  "(\<exists>x. GetResource c r off = Inr x) \<longleftrightarrow> r < GetNumRootTables c \<and> off < length (RootTables c ! r)"
  by (auto simp: GetResource_def)

lemma Cache_WriteSlot [simp]:
  "Cache (WriteSlot r off x w) = map_option (\<lambda>c. SetResource c r off x) (Cache w)"
  by (simp add: WriteSlot_def)

lemma Log_WriteSlot [simp]: "Log (WriteSlot r off x w) = Log w"
  by (simp add: WriteSlot_def)

lemma DescriptorCopies_WriteSlot [simp]: "DescriptorCopies (WriteSlot r off x w) = DescriptorCopies w"
  by (simp add: WriteSlot_def)

lemma Cache_LOG [simp]: "Cache (LOG_ERROR_MESSAGE m w) = Cache w"
  by (simp add: LOG_ERROR_MESSAGE_def)

lemma Log_LOG [simp]: "Log (LOG_ERROR_MESSAGE m w) = Log w @ [m]"
  by (simp add: LOG_ERROR_MESSAGE_def)

lemma DescriptorCopies_LOG [simp]: "DescriptorCopies (LOG_ERROR_MESSAGE m w) = DescriptorCopies w"
  by (simp add: LOG_ERROR_MESSAGE_def)

lemma Cache_Copy [simp]: "Cache (CopyDescriptorsSimple d s h w) = Cache w"
  by (simp add: CopyDescriptorsSimple_def)

lemma Log_Copy [simp]: "Log (CopyDescriptorsSimple d s h w) = Log w"
  by (simp add: CopyDescriptorsSimple_def)

lemma DescriptorCopies_Copy [simp]:
  "DescriptorCopies (CopyDescriptorsSimple d s h w) = DescriptorCopies w @ [(h, d, s)]"
  by (simp add: CopyDescriptorsSimple_def)

lemma ReadSlot_WriteSlot:
  "Cache w = Some c \<Longrightarrow>
   ReadSlot (WriteSlot r off x w) r' off' =
     (if r' = r \<and> off' = off \<and> r < GetNumRootTables c \<and> off < length (RootTables c ! r)
      then Inr x else ReadSlot w r' off')"
  by (simp add: ReadSlot_def GetResource_SetResource)

lemma CacheSampler_null:
  assumes "Cache w = Some c"
    and "BindPoint (SamAttribs Sam) \<noteq> InvalidBindPoint cfg"
    and "idx < BindCount (SamAttribs Sam)"
    and "SamRootIndex Sam < GetNumRootTables c"
    and "u32_add (SamOffsetFromTableStart Sam) idx < length (RootTables c ! SamRootIndex Sam)"
    and "DbgVerifySamplerHandle cfg c Sam True 0 = None"
  shows "CacheSampler cfg Sam None idx 0 w =
           Inr (WriteSlot (SamRootIndex Sam) (u32_add (SamOffsetFromTableStart Sam) idx) NullResource w)"
  using assms by (simp add: CacheSampler_def VERIFY_def GetResource_def)

lemma BindResource_null_eq:
  assumes c: "Cache w = Some c"
    and i: "ArrayIndex < BindCount (Attribs res)"
    and slot: "GetResource c (RootIndex res) (u32_add (OffsetFromTableStart res) ArrayIndex) = Inr DstRes"
    and dbg: "DbgVerifyResourceHandle cfg c res
               (ShaderVisibleTableCPUDescriptorHandle c D3D12_DESCRIPTOR_HEAP_TYPE_CBV_SRV_UAV
                  (RootIndex res) (u32_add (OffsetFromTableStart res) ArrayIndex)) = None"
  shows "BindResource cfg L res None ArrayIndex w =
          (let w1 = (if pObject DstRes \<noteq> None
                         \<and> VariableType (Attribs res) \<noteq> SHADER_VARIABLE_TYPE_DYNAMIC
                     then LOG_ERROR_MESSAGE NonDynamicUnbound w else w);
               w2 = WriteSlot (RootIndex res) (u32_add (OffsetFromTableStart res) ArrayIndex) NullResource w1
           in if IsValidSampler res then
                (case GetAssignedSampler cfg L res of
                   Inl e \<Rightarrow> Inl e
                 | Inr Sam \<Rightarrow> CacheSampler cfg Sam None (SamplerArrInd Sam ArrayIndex) 0 w2)
              else Inr w2)"
  using assms by (simp add: BindResource_def VERIFY_def Let_def)

subsection \<open>IsBound\<close>

text \<open>
  C10. \<^verbatim>\<open>IsBound(ArrayIndex)\<close>, called on a layout that has a cache and with an array
  index below the bind count, answers \<open>False\<close> without touching the cache when the root
  index is not below the number of root tables, or when the (32-bit) sum of the offset and
  the array index is not below the size of that table: no accessor is called and no
  assertion is reached. It answers \<open>True\<close> only when the slot at that position exists and
  holds a non-null object.
\<close>

theorem IsBound_out_of_range:
  assumes "Cache w = Some c" and "ArrayIndex < BindCount (Attribs res)"
  shows "(\<not> RootIndex res < GetNumRootTables c \<or>
          \<not> u32_add (OffsetFromTableStart res) ArrayIndex < length (RootTables c ! RootIndex res)
            \<longrightarrow> IsBound res ArrayIndex w = Inr False)
       \<and> (IsBound res ArrayIndex w = Inr True \<longrightarrow>
            (\<exists>r. GetResource c (RootIndex res) (u32_add (OffsetFromTableStart res) ArrayIndex) = Inr r
                 \<and> pObject r \<noteq> None))"
  using assms
  by (auto simp: IsBound_def VERIFY_def GetResource_def Let_def split: option.splits if_splits)

theorem IsBound_out_of_range_witness:
  "IsBound \<lparr>Attribs = ExAttribs ''g_Tex'' 0 1 SHADER_VARIABLE_TYPE_MUTABLE, ResType = TexSRV,
            RootIndex = 7, OffsetFromTableStart = 0, SamplerId = None\<rparr> 0
     (ExWorld [[NullResource]]) = Inr False"
  using IsBound_out_of_range [of "ExWorld [[NullResource]]" "ExCache [[NullResource]]" 0
     "\<lparr>Attribs = ExAttribs ''g_Tex'' 0 1 SHADER_VARIABLE_TYPE_MUTABLE, ResType = TexSRV,
            RootIndex = 7, OffsetFromTableStart = 0, SamplerId = None\<rparr>"]
  by (simp add: ExWorld_def ExCache_def ExAttribs_def GetNumRootTables_def)

subsection \<open>Unbinding\<close>

text \<open>
  C5. \<^verbatim>\<open>BindResource\<close> with a null object, when no assertion on its way fails,
  returns normally with the binding's cache entry cleared. For a dynamic variable the log is
  unchanged whatever the slot held; for a variable that is not dynamic and a slot that held
  an object, exactly one message (the variable is not dynamic but being unbound) is
  appended; for a slot that held nothing the log is unchanged.
\<close>

theorem BindResource_null:
  assumes c: "Cache w = Some c"
    and i: "ArrayIndex < BindCount (Attribs res)"
    and slot: "GetResource c (RootIndex res) (u32_add (OffsetFromTableStart res) ArrayIndex) = Inr DstRes"
    and dbg: "DbgVerifyResourceHandle cfg c res
               (ShaderVisibleTableCPUDescriptorHandle c D3D12_DESCRIPTOR_HEAP_TYPE_CBV_SRV_UAV
                  (RootIndex res) (u32_add (OffsetFromTableStart res) ArrayIndex)) = None"
    and sam: "ClearSamplerChecks cfg L res ArrayIndex c"
  shows "\<exists>w'. BindResource cfg L res None ArrayIndex w = Inr w'
           \<and> ReadSlot w' (RootIndex res) (u32_add (OffsetFromTableStart res) ArrayIndex) = Inr NullResource
           \<and> (VariableType (Attribs res) = SHADER_VARIABLE_TYPE_DYNAMIC \<longrightarrow> Log w' = Log w)
           \<and> (VariableType (Attribs res) \<noteq> SHADER_VARIABLE_TYPE_DYNAMIC \<and> pObject DstRes \<noteq> None
                \<longrightarrow> Log w' = Log w @ [NonDynamicUnbound])
           \<and> (pObject DstRes = None \<longrightarrow> Log w' = Log w)"
proof -
  have inr: "RootIndex res < GetNumRootTables c"
        "u32_add (OffsetFromTableStart res) ArrayIndex < length (RootTables c ! RootIndex res)"
    using slot GetResource_Inr_iff [of c "RootIndex res" "u32_add (OffsetFromTableStart res) ArrayIndex"]
    by auto
  define w1 where "w1 = (if pObject DstRes \<noteq> None
                         \<and> VariableType (Attribs res) \<noteq> SHADER_VARIABLE_TYPE_DYNAMIC
                     then LOG_ERROR_MESSAGE NonDynamicUnbound w else w)"
  define w2 where "w2 = WriteSlot (RootIndex res) (u32_add (OffsetFromTableStart res) ArrayIndex) NullResource w1"
  have c1: "Cache w1 = Some c" using c by (simp add: w1_def)
  have c2: "Cache w2 = Some (SetResource c (RootIndex res) (u32_add (OffsetFromTableStart res) ArrayIndex) NullResource)"
    using c1 by (simp add: w2_def)
  have r2: "ReadSlot w2 (RootIndex res) (u32_add (OffsetFromTableStart res) ArrayIndex) = Inr NullResource"
    using c1 inr by (simp add: w2_def ReadSlot_WriteSlot)
  have l2: "Log w2 = Log w1" by (simp add: w2_def)
  have eq: "BindResource cfg L res None ArrayIndex w =
          (if IsValidSampler res then
                (case GetAssignedSampler cfg L res of
                   Inl e \<Rightarrow> Inl e
                 | Inr Sam \<Rightarrow> CacheSampler cfg Sam None (SamplerArrInd Sam ArrayIndex) 0 w2)
              else Inr w2)"
    using BindResource_null_eq [OF c i slot dbg, of L] unfolding w1_def w2_def Let_def by assumption
  have logs: "(VariableType (Attribs res) = SHADER_VARIABLE_TYPE_DYNAMIC \<longrightarrow> Log w1 = Log w)
           \<and> (VariableType (Attribs res) \<noteq> SHADER_VARIABLE_TYPE_DYNAMIC \<and> pObject DstRes \<noteq> None
                \<longrightarrow> Log w1 = Log w @ [NonDynamicUnbound])
           \<and> (pObject DstRes = None \<longrightarrow> Log w1 = Log w)"
    by (simp add: w1_def)
  show ?thesis
  proof (cases "SamplerId res")
    case None
    then have "BindResource cfg L res None ArrayIndex w = Inr w2"
      using eq by (simp add: IsValidSampler_def)
    then show ?thesis using r2 l2 logs by simp
  next
    case (Some sid)
    then obtain Sam where S: "GetAssignedSampler cfg L res = Inr Sam"
      using sam by (auto simp: ClearSamplerChecks_def split: sum.splits)
    with Some sam have chk: "BindPoint (SamAttribs Sam) \<noteq> InvalidBindPoint cfg"
        "SamplerArrInd Sam ArrayIndex < BindCount (SamAttribs Sam)"
        "SamRootIndex Sam < GetNumRootTables c"
        "u32_add (SamOffsetFromTableStart Sam) (SamplerArrInd Sam ArrayIndex)
                    < length (RootTables c ! SamRootIndex Sam)"
        "DbgVerifySamplerHandle cfg c Sam True 0 = None"
      by (auto simp: ClearSamplerChecks_def)
    let ?w3 = "WriteSlot (SamRootIndex Sam)
                 (u32_add (SamOffsetFromTableStart Sam) (SamplerArrInd Sam ArrayIndex)) NullResource w2"
    have "CacheSampler cfg Sam None (SamplerArrInd Sam ArrayIndex) 0 w2 = Inr ?w3"
      using chk by (intro CacheSampler_null [OF c2]) simp_all
    then have res: "BindResource cfg L res None ArrayIndex w = Inr ?w3"
      using eq Some S by (simp add: IsValidSampler_def)
    have "ReadSlot ?w3 (RootIndex res) (u32_add (OffsetFromTableStart res) ArrayIndex) = Inr NullResource"
      using r2 by (simp add: ReadSlot_WriteSlot [OF c2])
    then show ?thesis using res l2 logs by simp
  qed
qed

theorem BindResource_null_witness:
  "\<exists>w'. BindResource ExCfg ExLayoutEmpty ExCB None 0 (ExWorld [[ExBoundCB]]) = Inr w'
      \<and> ReadSlot w' 0 0 = Inr NullResource \<and> Log w' = [NonDynamicUnbound]"
  using BindResource_null [of "ExWorld [[ExBoundCB]]" "ExCache [[ExBoundCB]]" 0 ExCB ExBoundCB
      ExCfg ExLayoutEmpty]
  by (simp add: ExWorld_def ExCache_def ExCB_def ExAttribs_def ExBoundCB_def ExCfg_def
        GetResource_def GetNumRootTables_def u32_add_def DbgVerifyResourceHandle_def
        ClearSamplerChecks_def)

text \<open>
  C9. For a texture SRV whose sampler id is valid, \<^verbatim>\<open>BindResource\<close> with a null object,
  when no assertion on its way fails, clears the texture's slot and the slot of the assigned
  sampler, the latter at the texture's array index when the sampler's bind count is above 1
  and at index 0 otherwise. Every other position of the cache reads as before, and no
  descriptor is copied.
\<close>

theorem BindResource_null_clears_sampler:
  assumes c: "Cache w = Some c"
    and i: "ArrayIndex < BindCount (Attribs res)"
    and slot: "GetResource c (RootIndex res) (u32_add (OffsetFromTableStart res) ArrayIndex) = Inr DstRes"
    and dbg: "DbgVerifyResourceHandle cfg c res
               (ShaderVisibleTableCPUDescriptorHandle c D3D12_DESCRIPTOR_HEAP_TYPE_CBV_SRV_UAV
                  (RootIndex res) (u32_add (OffsetFromTableStart res) ArrayIndex)) = None"
    and valid: "IsValidSampler res"
    and S: "GetAssignedSampler cfg L res = Inr Sam"
    and sam: "ClearSamplerChecks cfg L res ArrayIndex c"
    and idx: "SamIdx = (if BindCount (SamAttribs Sam) > 1 then ArrayIndex else 0)"
  shows "\<exists>w'. BindResource cfg L res None ArrayIndex w = Inr w'
           \<and> ReadSlot w' (RootIndex res) (u32_add (OffsetFromTableStart res) ArrayIndex) = Inr NullResource
           \<and> ReadSlot w' (SamRootIndex Sam) (u32_add (SamOffsetFromTableStart Sam) SamIdx) = Inr NullResource
           \<and> (\<forall>r off. (r, off) \<noteq> (RootIndex res, u32_add (OffsetFromTableStart res) ArrayIndex)
                   \<and> (r, off) \<noteq> (SamRootIndex Sam, u32_add (SamOffsetFromTableStart Sam) SamIdx)
                   \<longrightarrow> ReadSlot w' r off = ReadSlot w r off)
           \<and> DescriptorCopies w' = DescriptorCopies w"
proof -
  have inr: "RootIndex res < GetNumRootTables c"
        "u32_add (OffsetFromTableStart res) ArrayIndex < length (RootTables c ! RootIndex res)"
    using slot GetResource_Inr_iff [of c "RootIndex res" "u32_add (OffsetFromTableStart res) ArrayIndex"]
    by auto
  define w1 where "w1 = (if pObject DstRes \<noteq> None
                         \<and> VariableType (Attribs res) \<noteq> SHADER_VARIABLE_TYPE_DYNAMIC
                     then LOG_ERROR_MESSAGE NonDynamicUnbound w else w)"
  define w2 where "w2 = WriteSlot (RootIndex res) (u32_add (OffsetFromTableStart res) ArrayIndex) NullResource w1"
  have c1: "Cache w1 = Some c" using c by (simp add: w1_def)
  have c2: "Cache w2 = Some (SetResource c (RootIndex res) (u32_add (OffsetFromTableStart res) ArrayIndex) NullResource)"
    using c1 by (simp add: w2_def)
  have r1: "ReadSlot w1 r off = ReadSlot w r off" for r off
    using c c1 by (simp add: ReadSlot_def)
  have d2: "DescriptorCopies w2 = DescriptorCopies w" by (simp add: w2_def w1_def)
  have eq: "BindResource cfg L res None ArrayIndex w =
          (if IsValidSampler res then
                (case GetAssignedSampler cfg L res of
                   Inl e \<Rightarrow> Inl e
                 | Inr Sam \<Rightarrow> CacheSampler cfg Sam None (SamplerArrInd Sam ArrayIndex) 0 w2)
              else Inr w2)"
    using BindResource_null_eq [OF c i slot dbg, of L] unfolding w1_def w2_def Let_def by assumption
  obtain sid where Some: "SamplerId res = Some sid"
    using valid by (auto simp: IsValidSampler_def)
  have si: "SamplerArrInd Sam ArrayIndex = SamIdx" by (simp add: SamplerArrInd_def idx)
  from Some S sam have chk: "BindPoint (SamAttribs Sam) \<noteq> InvalidBindPoint cfg"
        "SamIdx < BindCount (SamAttribs Sam)"
        "SamRootIndex Sam < GetNumRootTables c"
        "u32_add (SamOffsetFromTableStart Sam) SamIdx < length (RootTables c ! SamRootIndex Sam)"
        "DbgVerifySamplerHandle cfg c Sam True 0 = None"
    by (auto simp: ClearSamplerChecks_def si)
  let ?w3 = "WriteSlot (SamRootIndex Sam) (u32_add (SamOffsetFromTableStart Sam) SamIdx) NullResource w2"
  have "CacheSampler cfg Sam None SamIdx 0 w2 = Inr ?w3"
    using chk by (intro CacheSampler_null [OF c2]) simp_all
  then have res: "BindResource cfg L res None ArrayIndex w = Inr ?w3"
    using eq valid S by (simp add: si)
  have r2: "ReadSlot w2 r off =
      (if (r, off) = (RootIndex res, u32_add (OffsetFromTableStart res) ArrayIndex)
       then Inr NullResource else ReadSlot w r off)" for r off
    using inr r1 by (simp add: w2_def ReadSlot_WriteSlot [OF c1])
  have a: "ReadSlot ?w3 (RootIndex res) (u32_add (OffsetFromTableStart res) ArrayIndex) = Inr NullResource"
    by (simp add: ReadSlot_WriteSlot [OF c2] r2)
  have b: "ReadSlot ?w3 (SamRootIndex Sam) (u32_add (SamOffsetFromTableStart Sam) SamIdx) = Inr NullResource"
    using chk by (simp add: ReadSlot_WriteSlot [OF c2])
  have f: "ReadSlot ?w3 r off = ReadSlot w r off"
    if "(r, off) \<noteq> (RootIndex res, u32_add (OffsetFromTableStart res) ArrayIndex)"
       "(r, off) \<noteq> (SamRootIndex Sam, u32_add (SamOffsetFromTableStart Sam) SamIdx)" for r off
    using that by (auto simp: ReadSlot_WriteSlot [OF c2] r2)
  show ?thesis using res a b f d2 by auto
qed

theorem BindResource_null_clears_sampler_witness:
  "\<exists>w'. BindResource ExCfg ExLayoutTex ExTex None 1 (ExWorld [[ExBoundCB, ExBoundCB], [ExBoundCB]]) = Inr w'
      \<and> ReadSlot w' 0 1 = Inr NullResource \<and> ReadSlot w' 1 0 = Inr NullResource
      \<and> ReadSlot w' 0 0 = Inr ExBoundCB"
proof -
  let ?w = "ExWorld [[ExBoundCB, ExBoundCB], [ExBoundCB]]"
  have S: "GetAssignedSampler ExCfg ExLayoutTex ExTex = Inr ExSam"
    by (simp add: GetAssignedSampler_def GetSampler_def m_NumSamplers_def VERIFY_def ExTex_def
          ExLayoutTex_def ExSam_def ExAttribs_def ExCfg_def)
  have sid: "SamplerId ExTex = Some 0" by (simp add: ExTex_def)
  have "\<exists>w'. BindResource ExCfg ExLayoutTex ExTex None 1 ?w = Inr w'
           \<and> ReadSlot w' (RootIndex ExTex) (u32_add (OffsetFromTableStart ExTex) 1) = Inr NullResource
           \<and> ReadSlot w' (SamRootIndex ExSam) (u32_add (SamOffsetFromTableStart ExSam) 0) = Inr NullResource
           \<and> (\<forall>r off. (r, off) \<noteq> (RootIndex ExTex, u32_add (OffsetFromTableStart ExTex) 1)
                   \<and> (r, off) \<noteq> (SamRootIndex ExSam, u32_add (SamOffsetFromTableStart ExSam) 0)
                   \<longrightarrow> ReadSlot w' r off = ReadSlot ?w r off)
           \<and> DescriptorCopies w' = DescriptorCopies ?w"
  proof (rule BindResource_null_clears_sampler [where c = "ExCache [[ExBoundCB, ExBoundCB], [ExBoundCB]]"
          and DstRes = ExBoundCB, OF _ _ _ _ _ S])
    show "ClearSamplerChecks ExCfg ExLayoutTex ExTex 1 (ExCache [[ExBoundCB, ExBoundCB], [ExBoundCB]])"
      by (simp add: ClearSamplerChecks_def S sid)
         (simp add: ExSam_def ExAttribs_def ExCfg_def SamplerArrInd_def ExCache_def
            GetNumRootTables_def u32_add_def DbgVerifySamplerHandle_def)
  qed (simp_all add: ExWorld_def ExCache_def ExTex_def ExSam_def ExAttribs_def ExCfg_def
         GetResource_def GetNumRootTables_def u32_add_def DbgVerifyResourceHandle_def
         IsValidSampler_def)
  then obtain w' where w': "BindResource ExCfg ExLayoutTex ExTex None 1 ?w = Inr w'"
      "ReadSlot w' (RootIndex ExTex) (u32_add (OffsetFromTableStart ExTex) 1) = Inr NullResource"
      "ReadSlot w' (SamRootIndex ExSam) (u32_add (SamOffsetFromTableStart ExSam) 0) = Inr NullResource"
      "\<forall>r off. (r, off) \<noteq> (RootIndex ExTex, u32_add (OffsetFromTableStart ExTex) 1)
                   \<and> (r, off) \<noteq> (SamRootIndex ExSam, u32_add (SamOffsetFromTableStart ExSam) 0)
                   \<longrightarrow> ReadSlot w' r off = ReadSlot ?w r off"
    by blast
  have "ReadSlot w' 0 0 = ReadSlot ?w 0 0"
    using w'(4) by (simp add: ExTex_def ExSam_def u32_add_def)
  moreover have "ReadSlot ?w 0 0 = Inr ExBoundCB"
    by (simp add: ReadSlot_def ExWorld_def ExCache_def GetResource_def GetNumRootTables_def)
  ultimately show ?thesis
    using w'(1,2,3) by (simp add: ExTex_def ExSam_def u32_add_def)
qed

subsection \<open>Binding an object of the wrong category\<close>

lemma BindResource_obj_eq:
  assumes c: "Cache w = Some c"
    and i: "ArrayIndex < BindCount (Attribs res)"
    and slot: "GetResource c (RootIndex res) (u32_add (OffsetFromTableStart res) ArrayIndex) = Inr DstRes"
    and dbg: "DbgVerifyResourceHandle cfg c res
               (ShaderVisibleTableCPUDescriptorHandle c D3D12_DESCRIPTOR_HEAP_TYPE_CBV_SRV_UAV
                  (RootIndex res) (u32_add (OffsetFromTableStart res) ArrayIndex)) = None"
  shows "BindResource cfg L res (Some obj) ArrayIndex w =
    (let Offset = u32_add (OffsetFromTableStart res) ArrayIndex;
         ShdrVisibleHandle = ShaderVisibleTableCPUDescriptorHandle c D3D12_DESCRIPTOR_HEAP_TYPE_CBV_SRV_UAV
                            (RootIndex res) Offset
     in case ResType res of
          CBV \<Rightarrow> CacheCB res obj (RootIndex res) Offset ShdrVisibleHandle w
        | TexSRV \<Rightarrow>
            CacheResourceView cfg res (AsTextureView TEXTURE_VIEW_SHADER_RESOURCE)
              obj (RootIndex res) Offset ShdrVisibleHandle
              (BindSamplerProc cfg L res ArrayIndex) w
        | TexUAV \<Rightarrow>
            CacheResourceView cfg res (AsTextureView TEXTURE_VIEW_UNORDERED_ACCESS)
              obj (RootIndex res) Offset ShdrVisibleHandle
              (\<lambda>pTexView w'. Inr w') w
        | BufSRV \<Rightarrow>
            CacheResourceView cfg res (AsBufferView BUFFER_VIEW_SHADER_RESOURCE)
              obj (RootIndex res) Offset ShdrVisibleHandle
              (\<lambda>pBufView w'. Inr w') w
        | BufUAV \<Rightarrow>
            CacheResourceView cfg res (AsBufferView BUFFER_VIEW_UNORDERED_ACCESS)
              obj (RootIndex res) Offset ShdrVisibleHandle
              (\<lambda>pBufView w'. Inr w') w
        | _ \<Rightarrow> Inl UnexpectedResourceType)"
  using assms by (simp add: BindResource_def VERIFY_def Let_def)

lemma CacheCB_mismatch:
  "\<not> CategoryMatches CBV obj \<Longrightarrow>
   \<exists>m. CacheCB res obj r off h w = Inr (LOG_ERROR_MESSAGE m w)"
  by (cases obj) (auto simp: CacheCB_def)

lemma CacheResourceView_no_interface:
  "QueryView tmpl obj = None \<Longrightarrow>
   CacheResourceView cfg res tmpl obj r off h proc w = Inr (LOG_ERROR_MESSAGE IncorrectResourceType w)"
  by (simp add: CacheResourceView_def)

lemma CacheResourceView_wrong_kind:
  "QueryView tmpl obj = Some (False, hdl) \<Longrightarrow> VERIFY_SHADER_BINDINGS cfg \<Longrightarrow>
   CacheResourceView cfg res tmpl obj r off h proc w = Inr (LOG_ERROR_MESSAGE IncorrectViewType w)"
  by (simp add: CacheResourceView_def)

text \<open>
  C2, as the code has it. When the entry assertions of \<^verbatim>\<open>BindResource\<close> pass, binding a
  non-null object that is not of the binding's category logs exactly one error and changes
  nothing else: the cache and the descriptor copies are as before. A view of the right class
  but of the wrong kind is refused in the same way when \<^verbatim>\<open>VERIFY_SHADER_BINDINGS\<close> is
  defined.
\<close>

theorem BindResource_type_mismatch:
  assumes c: "Cache w = Some c"
    and i: "ArrayIndex < BindCount (Attribs res)"
    and slot: "GetResource c (RootIndex res) (u32_add (OffsetFromTableStart res) ArrayIndex) = Inr DstRes"
    and dbg: "DbgVerifyResourceHandle cfg c res
               (ShaderVisibleTableCPUDescriptorHandle c D3D12_DESCRIPTOR_HEAP_TYPE_CBV_SRV_UAV
                  (RootIndex res) (u32_add (OffsetFromTableStart res) ArrayIndex)) = None"
    and ty: "ResType res \<in> {CBV, TexSRV, TexUAV, BufSRV, BufUAV}"
    and mis: "\<not> CategoryMatches (ResType res) obj
              \<or> (VERIFY_SHADER_BINDINGS cfg \<and> \<not> ViewKindMatches (ResType res) obj)"
  shows "\<exists>m. BindResource cfg L res (Some obj) ArrayIndex w = Inr (w\<lparr>Log := Log w @ [m]\<rparr>)"
proof -
  note eq = BindResource_obj_eq [OF c i slot dbg, of L obj, unfolded Let_def]
  from ty consider "ResType res = CBV" | "ResType res = TexSRV" | "ResType res = TexUAV"
    | "ResType res = BufSRV" | "ResType res = BufUAV" by auto
  then show ?thesis
  proof cases
    case 1
    with mis have "\<not> CategoryMatches CBV obj" by (cases obj) auto
    from CacheCB_mismatch [OF this] show ?thesis
      using 1 eq by (simp add: LOG_ERROR_MESSAGE_def)
  next
    case 2
    with mis show ?thesis using eq
      by (cases obj)
         (auto simp: LOG_ERROR_MESSAGE_def [symmetric] CacheResourceView_no_interface
            CacheResourceView_wrong_kind)
  next
    case 3
    with mis show ?thesis using eq
      by (cases obj)
         (auto simp: LOG_ERROR_MESSAGE_def [symmetric] CacheResourceView_no_interface
            CacheResourceView_wrong_kind)
  next
    case 4
    with mis show ?thesis using eq
      by (cases obj)
         (auto simp: LOG_ERROR_MESSAGE_def [symmetric] CacheResourceView_no_interface
            CacheResourceView_wrong_kind)
  next
    case 5
    with mis show ?thesis using eq
      by (cases obj)
         (auto simp: LOG_ERROR_MESSAGE_def [symmetric] CacheResourceView_no_interface
            CacheResourceView_wrong_kind)
  qed
qed

theorem BindResource_type_mismatch_witness:
  "\<exists>m. BindResource ExCfg ExLayoutEmpty ExTexSRV (Some ExBuffer) 0 (ExWorld [[NullResource]]) =
          Inr ((ExWorld [[NullResource]])\<lparr>Log := Log (ExWorld [[NullResource]]) @ [m]\<rparr>)"
  using BindResource_type_mismatch [of "ExWorld [[NullResource]]" "ExCache [[NullResource]]" 0
      ExTexSRV NullResource ExCfg ExBuffer ExLayoutEmpty]
  by (simp add: ExWorld_def ExCache_def ExTexSRV_def ExAttribs_def ExCfg_def ExBuffer_def
        GetResource_def GetNumRootTables_def u32_add_def DbgVerifyResourceHandle_def)

text \<open>
  C2 as stated fails. Without \<^verbatim>\<open>VERIFY_SHADER_BINDINGS\<close> the view type is not looked at: an unordered-access
  texture view bound to a texture SRV is recorded in the slot, and nothing is logged.
\<close>

theorem BindResource_wrong_view_kind_recorded:
  "BindResource ExCfgRelease ExLayoutEmpty ExTexSRV (Some ExUAVView) 0 (ExWorld [[NullResource]]) =
     Inr \<lparr>Cache = Some (ExCache [[\<lparr>Type = TexSRV, CPUDescriptorHandle = 72, pObject = Some ExUAVView\<rparr>]]),
          Log = [], DescriptorCopies = []\<rparr>
   \<and> \<not> ViewKindMatches (ResType ExTexSRV) ExUAVView"
  by (simp add: BindResource_def VERIFY_def ExWorld_def ExCache_def ExTexSRV_def ExAttribs_def
        ExCfgRelease_def ExCfg_def GetResource_def GetNumRootTables_def u32_add_def
        DbgVerifyResourceHandle_def CacheResourceView_def ExUAVView_def ReadSlot_def
        NullResource_def SamePtr_def WriteSlot_def SetResource_def BindSamplerProc_def
        IsValidSampler_def)

subsection \<open>BindResources\<close>

lemma BindSlots_append:
  "BindSlots cfg L M Flags (xs @ ys) w =
     (case BindSlots cfg L M Flags xs w of
        Inl e \<Rightarrow> Inl e
      | Inr (returned, w1) \<Rightarrow>
          if returned then Inr (True, w1) else BindSlots cfg L M Flags ys w1)"
proof (induction xs arbitrary: w)
  case Nil
  then show ?case by simp
next
  case (Cons x xs)
  obtain Res ArrInd where x: "x = (Res, ArrInd)" by (cases x)
  show ?case
    by (simp add: x Cons.IH split: sum.splits prod.splits bool.splits)
qed

lemma BindResources_elems_BindSlots:
  "BindResources_elems cfg L M Flags Res inds w =
     BindSlots cfg L M Flags (map (\<lambda>ArrInd. (Res, ArrInd)) inds) w"
  by (induction inds arbitrary: w) (simp_all split: sum.splits prod.splits bool.splits)

lemma BindResources_loop_BindSlots:
  "BindResources_loop cfg L M Flags rs w =
     (case BindSlots cfg L M Flags (SlotsInOrder rs) w of
        Inl e \<Rightarrow> Inl e
      | Inr (returned, w1) \<Rightarrow> Inr w1)"
proof (induction rs arbitrary: w)
  case Nil
  then show ?case by (simp add: SlotsInOrder_def)
next
  case (Cons Res rs)
  have s: "SlotsInOrder (Res # rs) =
             map (\<lambda>ArrInd. (Res, ArrInd)) [0 ..< BindCount (Attribs Res)] @ SlotsInOrder rs"
    by (simp add: SlotsInOrder_def)
  show ?case
    by (simp only: s BindSlots_append BindResources_loop.simps BindResources_elems_BindSlots)
       (simp add: Cons.IH split: sum.splits prod.splits bool.splits)
qed

text \<open>
  C6. With the flag \<^verbatim>\<open>BIND_SHADER_RESOURCES_UPDATE_UNRESOLVED\<close>, when the two loops of
  \<^verbatim>\<open>BindResources\<close> have run through the earlier (resource, array index) pairs without
  returning and reach a pair that \<^verbatim>\<open>IsBound\<close> reports as bound (after the reset of that
  pair, if the reset flag is set too), the whole call returns with the state it has at that
  moment: no later pair is looked up or bound, whatever the mapping holds for it and whether
  it is bound or not.
\<close>

theorem BindResources_update_unresolved_returns:
  assumes flag: "BIND_SHADER_RESOURCES_UPDATE_UNRESOLVED Flags"
    and order: "SlotsInOrder (AllSrvCbvUav L) = earlier @ (Res, ArrInd) # later"
    and before: "BindSlots cfg L M Flags earlier w = Inr (False, w1)"
    and reset: "(if BIND_SHADER_RESOURCES_RESET_BINDINGS Flags
                 then BindResource cfg L Res None ArrInd w1 else Inr w1) = Inr w2"
    and bound: "IsBound Res ArrInd w2 = Inr True"
  shows "BindResources cfg L (Some M) Flags w = Inr w2"
proof -
  have "BindSlot cfg L M Flags Res ArrInd w1 = Inr (True, w2)"
    using flag reset bound by (simp add: BindSlot_def)
  then have "BindSlots cfg L M Flags ((Res, ArrInd) # later) w1 = Inr (True, w2)"
    by simp
  then have "BindSlots cfg L M Flags (SlotsInOrder (AllSrvCbvUav L)) w = Inr (True, w2)"
    using before by (simp add: order BindSlots_append)
  then show ?thesis
    by (simp add: BindResources_def BindResources_loop_BindSlots)
qed

theorem BindResources_update_unresolved_returns_witness:
  "BindResources ExCfg ExLayoutTwoCB (Some ExMapping) ExUpdateUnresolved (ExWorld [[ExBoundCB, NullResource]])
     = Inr (ExWorld [[ExBoundCB, NullResource]])
   \<and> ExMapping ''cbLights'' 0 \<noteq> None
   \<and> IsBound ExCB2 0 (ExWorld [[ExBoundCB, NullResource]]) = Inr False"
proof -
  let ?w = "ExWorld [[ExBoundCB, NullResource]]"
  have order: "SlotsInOrder (AllSrvCbvUav ExLayoutTwoCB) = [] @ (ExCB, 0) # [(ExCB2, 0)]"
    by (simp add: SlotsInOrder_def AllSrvCbvUav_def ExLayoutTwoCB_def ExCB_def ExCB2_def ExAttribs_def)
  have bound: "IsBound ExCB 0 ?w = Inr True"
    by (simp add: IsBound_def ExWorld_def ExCache_def ExCB_def ExAttribs_def VERIFY_def
          GetNumRootTables_def u32_add_def ExBoundCB_def)
  have "BindResources ExCfg ExLayoutTwoCB (Some ExMapping) ExUpdateUnresolved ?w = Inr ?w"
    by (rule BindResources_update_unresolved_returns [OF _ order _ _ bound])
       (simp_all add: ExUpdateUnresolved_def)
  moreover have "IsBound ExCB2 0 ?w = Inr False"
    by (simp add: IsBound_def ExWorld_def ExCache_def ExCB2_def ExAttribs_def VERIFY_def
          GetNumRootTables_def u32_add_def NullResource_def)
  ultimately show ?thesis by (simp add: ExMapping_def)
qed

subsection \<open>CopyStaticResourceDesriptorHandles\<close>

lemma CopyStaticElems_CopyTasks:
  "CopyStaticElems H SrcCache s d inds w = CopyTasks SrcCache (ElemTasks H s d inds) w"
  by (induction inds arbitrary: w) (simp_all add: ElemTasks_def split: sum.splits)

lemma CopyTasks_append:
  "CopyTasks SrcCache (xs @ ys) w =
     (case CopyTasks SrcCache xs w of Inl e \<Rightarrow> Inl e | Inr w1 \<Rightarrow> CopyTasks SrcCache ys w1)"
proof (induction xs arbitrary: w)
  case Nil
  then show ?case by simp
next
  case (Cons x xs)
  obtain H s d where x: "x = (H, s, d)" by (cases x)
  show ?case by (simp add: x Cons.IH split: sum.splits)
qed

lemma GetDescriptorRangeType_Inl: "(\<exists>e. GetDescriptorRangeType t = Inl e) \<longleftrightarrow> t = Unknown"
  by (cases t) simp_all

lemma CopyStaticResource_checked:
  assumes "StaticChecks cfg L SrcLayout res"
  shows "CopyStaticResource cfg L SrcLayout SrcCache res w =
           CopyTasks SrcCache (ResourceTasks cfg L res) w"
proof -
  obtain rt where rt: "GetDescriptorRangeType (ResType res) = Inr rt"
    using assms GetDescriptorRangeType_Inl [of "ResType res"]
    by (cases "GetDescriptorRangeType (ResType res)") (auto simp: StaticChecks_def)
  show ?thesis
  proof (cases "IsValidSampler res")
    case False
    then show ?thesis
      using assms rt
      by (simp add: CopyStaticResource_def ResourceTasks_def VERIFY_def StaticChecks_def
            CopyStaticElems_CopyTasks split: sum.splits)
  next
    case True
    then obtain Sam where S: "GetAssignedSampler cfg L res = Inr Sam"
      using assms by (auto simp: StaticChecks_def split: sum.splits)
    show ?thesis
      using assms rt True S
      by (simp add: CopyStaticResource_def ResourceTasks_def VERIFY_def StaticChecks_def
            CopyStaticElems_CopyTasks CopyTasks_append split: sum.splits)
  qed
qed

lemma CopyStaticResource_Inr_checks:
  assumes "CopyStaticResource cfg L SrcLayout SrcCache res w = Inr w'"
  shows "StaticChecks cfg L SrcLayout res"
  using assms GetDescriptorRangeType_Inl [of "ResType res"]
  by (auto simp: CopyStaticResource_def VERIFY_def StaticChecks_def split: sum.splits if_splits)

lemma CopyStaticResources_checked:
  "\<forall>res \<in> set rs. StaticChecks cfg L SrcLayout res \<Longrightarrow>
   CopyStaticResources cfg L SrcLayout SrcCache rs w =
     CopyTasks SrcCache (concat (map (ResourceTasks cfg L) rs)) w"
  by (induction rs arbitrary: w)
     (simp_all add: CopyStaticResource_checked CopyTasks_append split: sum.splits)

lemma CopyStaticResources_Inr_checks:
  "CopyStaticResources cfg L SrcLayout SrcCache rs w = Inr w' \<Longrightarrow>
   \<forall>res \<in> set rs. StaticChecks cfg L SrcLayout res"
proof (induction rs arbitrary: w)
  case Nil
  then show ?case by simp
next
  case (Cons r rs)
  then obtain w1 where 1: "CopyStaticResource cfg L SrcLayout SrcCache r w = Inr w1"
      and 2: "CopyStaticResources cfg L SrcLayout SrcCache rs w1 = Inr w'"
    by (auto split: sum.splits)
  from CopyStaticResource_Inr_checks [OF 1] Cons.IH [OF 2] show ?case by simp
qed

lemma CopyStaticElement_Inr:
  assumes "CopyStaticElement H SrcCache s d w = Inr w'" and "Cache w = Some c"
  shows "\<exists>S D. GetResource SrcCache (fst s) (snd s) = Inr S
           \<and> GetResource c (fst d) (snd d) = Inr D
           \<and> ((SamePtr (pObject D) (pObject S) \<and> Type D = Type S
                 \<and> CPUDescriptorHandle D = CPUDescriptorHandle S
                 \<and> Cache w' = Some c \<and> DescriptorCopies w' = DescriptorCopies w)
               \<or> (\<not> SamePtr (pObject D) (pObject S) \<and> pObject D = None
                 \<and> Cache w' = Some (SetResource c (fst d) (snd d)
                                      \<lparr>Type = Type S, CPUDescriptorHandle = CPUDescriptorHandle S,
                                       pObject = pObject S\<rparr>)))"
  using assms
  by (auto simp: CopyStaticElement_def VERIFY_def Let_def split: sum.splits if_splits)

lemma Matches_simp:
  "Matches SrcCache c (H, s, d) =
     (\<exists>S D. GetResource SrcCache (fst s) (snd s) = Inr S \<and> GetResource c (fst d) (snd d) = Inr D
          \<and> SamePtr (pObject D) (pObject S) \<and> Type D = Type S
          \<and> CPUDescriptorHandle D = CPUDescriptorHandle S)"
  by (auto simp: Matches_def split: sum.splits)

lemma CopyStaticElement_establishes:
  assumes "CopyStaticElement H SrcCache s d w = Inr w'" and "Cache w = Some c"
  shows "\<exists>c'. Cache w' = Some c' \<and> Matches SrcCache c' (H, s, d)"
proof -
  from CopyStaticElement_Inr [OF assms] obtain S D where
    S: "GetResource SrcCache (fst s) (snd s) = Inr S" and D: "GetResource c (fst d) (snd d) = Inr D"
    and alt: "(SamePtr (pObject D) (pObject S) \<and> Type D = Type S
                 \<and> CPUDescriptorHandle D = CPUDescriptorHandle S
                 \<and> Cache w' = Some c \<and> DescriptorCopies w' = DescriptorCopies w)
               \<or> (\<not> SamePtr (pObject D) (pObject S) \<and> pObject D = None
                 \<and> Cache w' = Some (SetResource c (fst d) (snd d)
                                      \<lparr>Type = Type S, CPUDescriptorHandle = CPUDescriptorHandle S,
                                       pObject = pObject S\<rparr>))"
    by blast
  have inr: "fst d < GetNumRootTables c" "snd d < length (RootTables c ! fst d)"
    using D GetResource_Inr_iff [of c "fst d" "snd d"] by auto
  from alt show ?thesis
  proof
    assume "SamePtr (pObject D) (pObject S) \<and> Type D = Type S
                 \<and> CPUDescriptorHandle D = CPUDescriptorHandle S
                 \<and> Cache w' = Some c \<and> DescriptorCopies w' = DescriptorCopies w"
    then show ?thesis using S D by (auto simp: Matches_simp)
  next
    assume "\<not> SamePtr (pObject D) (pObject S) \<and> pObject D = None
                 \<and> Cache w' = Some (SetResource c (fst d) (snd d)
                                      \<lparr>Type = Type S, CPUDescriptorHandle = CPUDescriptorHandle S,
                                       pObject = pObject S\<rparr>)"
    then show ?thesis using S inr
      by (auto simp: Matches_simp GetResource_SetResource SamePtr_def)
  qed
qed

lemma CopyStaticElement_preserves:
  assumes step: "CopyStaticElement H SrcCache s d w = Inr w'" and c: "Cache w = Some c"
    and m: "Matches SrcCache c (H0, s0, d0)" and cons: "d0 = d \<longrightarrow> s0 = s"
  shows "\<exists>c'. Cache w' = Some c' \<and> Matches SrcCache c' (H0, s0, d0)"
proof -
  from CopyStaticElement_Inr [OF step c] obtain S D where
    S: "GetResource SrcCache (fst s) (snd s) = Inr S" and D: "GetResource c (fst d) (snd d) = Inr D"
    and alt: "(SamePtr (pObject D) (pObject S) \<and> Type D = Type S
                 \<and> CPUDescriptorHandle D = CPUDescriptorHandle S
                 \<and> Cache w' = Some c \<and> DescriptorCopies w' = DescriptorCopies w)
               \<or> (\<not> SamePtr (pObject D) (pObject S) \<and> pObject D = None
                 \<and> Cache w' = Some (SetResource c (fst d) (snd d)
                                      \<lparr>Type = Type S, CPUDescriptorHandle = CPUDescriptorHandle S,
                                       pObject = pObject S\<rparr>))"
    by blast
  from alt show ?thesis
  proof
    assume "SamePtr (pObject D) (pObject S) \<and> Type D = Type S
                 \<and> CPUDescriptorHandle D = CPUDescriptorHandle S
                 \<and> Cache w' = Some c \<and> DescriptorCopies w' = DescriptorCopies w"
    then show ?thesis using m by simp
  next
    assume a: "\<not> SamePtr (pObject D) (pObject S) \<and> pObject D = None
                 \<and> Cache w' = Some (SetResource c (fst d) (snd d)
                                      \<lparr>Type = Type S, CPUDescriptorHandle = CPUDescriptorHandle S,
                                       pObject = pObject S\<rparr>)"
    have "d0 \<noteq> d"
    proof
      assume "d0 = d"
      with cons have "s0 = s" by simp
      with m \<open>d0 = d\<close> S D have "SamePtr (pObject D) (pObject S)" by (auto simp: Matches_simp)
      with a show False by simp
    qed
    then have "fst d0 \<noteq> fst d \<or> snd d0 \<noteq> snd d" by (auto simp: prod_eq_iff)
    then show ?thesis using a m by (auto simp: Matches_simp GetResource_SetResource)
  qed
qed

lemma CopyStaticElement_keeps_bound:
  assumes step: "CopyStaticElement H SrcCache s d w = Inr w'" and c: "Cache w = Some c"
    and D0: "GetResource c (fst d0) (snd d0) = Inr D0" and nn: "pObject D0 \<noteq> None"
  shows "\<exists>c'. Cache w' = Some c' \<and> GetResource c' (fst d0) (snd d0) = Inr D0"
proof -
  from CopyStaticElement_Inr [OF step c] obtain S D where
    S: "GetResource SrcCache (fst s) (snd s) = Inr S" and D: "GetResource c (fst d) (snd d) = Inr D"
    and alt: "(SamePtr (pObject D) (pObject S) \<and> Type D = Type S
                 \<and> CPUDescriptorHandle D = CPUDescriptorHandle S
                 \<and> Cache w' = Some c \<and> DescriptorCopies w' = DescriptorCopies w)
               \<or> (\<not> SamePtr (pObject D) (pObject S) \<and> pObject D = None
                 \<and> Cache w' = Some (SetResource c (fst d) (snd d)
                                      \<lparr>Type = Type S, CPUDescriptorHandle = CPUDescriptorHandle S,
                                       pObject = pObject S\<rparr>))"
    by blast
  from alt show ?thesis
  proof
    assume "SamePtr (pObject D) (pObject S) \<and> Type D = Type S
                 \<and> CPUDescriptorHandle D = CPUDescriptorHandle S
                 \<and> Cache w' = Some c \<and> DescriptorCopies w' = DescriptorCopies w"
    then show ?thesis using D0 by simp
  next
    assume a: "\<not> SamePtr (pObject D) (pObject S) \<and> pObject D = None
                 \<and> Cache w' = Some (SetResource c (fst d) (snd d)
                                      \<lparr>Type = Type S, CPUDescriptorHandle = CPUDescriptorHandle S,
                                       pObject = pObject S\<rparr>)"
    have "fst d0 \<noteq> fst d \<or> snd d0 \<noteq> snd d"
      using a D D0 nn by auto
    then show ?thesis using a D0 by (auto simp: GetResource_SetResource)
  qed
qed

lemma CopyStaticElement_mismatch_aborts:
  assumes c: "Cache w = Some c"
    and D: "GetResource c (fst d) (snd d) = Inr D" and nn: "pObject D \<noteq> None"
    and diff: "\<forall>S. GetResource SrcCache (fst s) (snd s) = Inr S \<longrightarrow> \<not> SamePtr (pObject D) (pObject S)"
  shows "\<exists>e. CopyStaticElement H SrcCache s d w = Inl e"
  using assms
proof (cases "CopyStaticElement H SrcCache s d w")
  case (Inl e)
  then show ?thesis by simp
next
  case (Inr w')
  from CopyStaticElement_Inr [OF Inr c] D nn diff show ?thesis by auto
qed

lemma CopyStaticElement_matching:
  assumes c: "Cache w = Some c" and m: "Matches SrcCache c (H, s, d)"
  shows "\<exists>w' ms. CopyStaticElement H SrcCache s d w = Inr w' \<and> Cache w' = Cache w
           \<and> DescriptorCopies w' = DescriptorCopies w \<and> Log w' = Log w @ ms
           \<and> set ms \<subseteq> {NoStaticResourceAssigned, NoStaticSamplerAssigned}"
proof -
  from m obtain S D where S: "GetResource SrcCache (fst s) (snd s) = Inr S"
    and D: "GetResource c (fst d) (snd d) = Inr D"
    and eq: "SamePtr (pObject D) (pObject S)" "Type D = Type S"
            "CPUDescriptorHandle D = CPUDescriptorHandle S"
    by (auto simp: Matches_simp)
  show ?thesis
  proof (cases "pObject S = None")
    case True
    then show ?thesis using c S D eq
      by (auto simp: CopyStaticElement_def VERIFY_def Let_def)
  next
    case False
    then have "CopyStaticElement H SrcCache s d w = Inr w" using c S D eq
      by (auto simp: CopyStaticElement_def VERIFY_def Let_def)
    then show ?thesis by simp
  qed
qed

lemma CopyTasks_mismatch_aborts:
  assumes "(H, s, d) \<in> set ts" and "Cache w = Some c"
    and "GetResource c (fst d) (snd d) = Inr D" and "pObject D \<noteq> None"
    and "\<forall>S. GetResource SrcCache (fst s) (snd s) = Inr S \<longrightarrow> \<not> SamePtr (pObject D) (pObject S)"
  shows "\<exists>e. CopyTasks SrcCache ts w = Inl e"
  using assms
proof (induction ts arbitrary: w c)
  case Nil
  then show ?case by simp
next
  case (Cons t ts)
  show ?case
  proof (cases "t = (H, s, d)")
    case True
    from CopyStaticElement_mismatch_aborts [OF Cons.prems(2) Cons.prems(3) Cons.prems(4) Cons.prems(5), of H]
    obtain e where "CopyStaticElement H SrcCache s d w = Inl e" by blast
    then have "CopyTasks SrcCache ((H, s, d) # ts) w = Inl e" by simp
    then show ?thesis unfolding True by (rule exI)
  next
    case False
    with Cons.prems(1) have mem: "(H, s, d) \<in> set ts" by simp
    obtain H1 s1 d1 where t: "t = (H1, s1, d1)" by (cases t)
    show ?thesis
    proof (cases "CopyStaticElement H1 SrcCache s1 d1 w")
      case (Inl e)
      then have "CopyTasks SrcCache ((H1, s1, d1) # ts) w = Inl e" by simp
      then show ?thesis unfolding t by (rule exI)
    next
      case (Inr w1)
      from CopyStaticElement_keeps_bound [OF Inr Cons.prems(2) Cons.prems(3) Cons.prems(4)]
      obtain c1 where c1: "Cache w1 = Some c1" "GetResource c1 (fst d) (snd d) = Inr D" by blast
      from Cons.IH [OF mem c1 Cons.prems(4) Cons.prems(5)]
      obtain e where "CopyTasks SrcCache ts w1 = Inl e" by blast
      then have "CopyTasks SrcCache ((H1, s1, d1) # ts) w = Inl e" using Inr by simp
      then show ?thesis unfolding t by (rule exI)
    qed
  qed
qed

lemma CopyTasks_establishes:
  assumes "CopyTasks SrcCache ts w = Inr w'" and "Cache w = Some c"
    and "\<forall>t \<in> P. Matches SrcCache c t"
    and "\<forall>t1 \<in> P \<union> set ts. \<forall>t2 \<in> set ts. snd (snd t1) = snd (snd t2) \<longrightarrow> fst (snd t1) = fst (snd t2)"
  shows "\<exists>c'. Cache w' = Some c' \<and> (\<forall>t \<in> P \<union> set ts. Matches SrcCache c' t)"
  using assms
proof (induction ts arbitrary: w c P)
  case Nil
  then show ?case by simp
next
  case (Cons t ts)
  obtain H s d where t: "t = (H, s, d)" by (cases t)
  from Cons.prems(1) obtain w1 where step: "CopyStaticElement H SrcCache s d w = Inr w1"
    and rest: "CopyTasks SrcCache ts w1 = Inr w'"
    unfolding t by (cases "CopyStaticElement H SrcCache s d w") simp_all
  from CopyStaticElement_establishes [OF step Cons.prems(2)]
  obtain c1 where c1: "Cache w1 = Some c1" and mt: "Matches SrcCache c1 t"
    by (auto simp: t)
  have mp: "Matches SrcCache c1 p" if "p \<in> P" for p
  proof -
    obtain H0 s0 d0 where p: "p = (H0, s0, d0)" by (cases p)
    from that Cons.prems(3) have m0: "Matches SrcCache c (H0, s0, d0)" by (auto simp: p)
    have "p \<in> P \<union> set (t # ts)" "t \<in> set (t # ts)" using that by simp_all
    from Cons.prems(4) [rule_format, OF this] have "d0 = d \<longrightarrow> s0 = s" by (simp add: p t)
    from CopyStaticElement_preserves [OF step Cons.prems(2) m0 this] c1
    show ?thesis by (simp add: p)
  qed
  have inv: "\<forall>q \<in> insert t P. Matches SrcCache c1 q" using mt mp by simp
  have cons: "\<forall>t1 \<in> insert t P \<union> set ts. \<forall>t2 \<in> set ts.
                 snd (snd t1) = snd (snd t2) \<longrightarrow> fst (snd t1) = fst (snd t2)"
  proof (intro ballI impI)
    fix t1 t2
    assume a: "t1 \<in> insert t P \<union> set ts" "t2 \<in> set ts" "snd (snd t1) = snd (snd t2)"
    from a(1,2) have "t1 \<in> P \<union> set (t # ts)" "t2 \<in> set (t # ts)" by simp_all
    from Cons.prems(4) [rule_format, OF this a(3)] show "fst (snd t1) = fst (snd t2)" .
  qed
  from Cons.IH [OF rest c1 inv cons] obtain c' where
    "Cache w' = Some c'" "\<forall>q \<in> insert t P \<union> set ts. Matches SrcCache c' q" by blast
  then have "Cache w' = Some c' \<and> (\<forall>q \<in> P \<union> set (t # ts). Matches SrcCache c' q)" by simp
  then show ?case by (intro exI [where x = c'])
qed

lemma CopyTasks_matching:
  assumes "Cache w = Some c" and "\<forall>t \<in> set ts. Matches SrcCache c t"
  shows "\<exists>w' ms. CopyTasks SrcCache ts w = Inr w' \<and> Cache w' = Cache w
           \<and> DescriptorCopies w' = DescriptorCopies w \<and> Log w' = Log w @ ms
           \<and> set ms \<subseteq> {NoStaticResourceAssigned, NoStaticSamplerAssigned}"
  using assms
proof (induction ts arbitrary: w)
  case Nil
  then show ?case by simp
next
  case (Cons t ts)
  obtain H s d where t: "t = (H, s, d)" by (cases t)
  from Cons.prems have m: "Matches SrcCache c (H, s, d)" by (simp add: t)
  from CopyStaticElement_matching [OF Cons.prems(1) m]
  obtain w1 ms1 where 1: "CopyStaticElement H SrcCache s d w = Inr w1" "Cache w1 = Cache w"
      "DescriptorCopies w1 = DescriptorCopies w" "Log w1 = Log w @ ms1"
      "set ms1 \<subseteq> {NoStaticResourceAssigned, NoStaticSamplerAssigned}"
    by blast
  from 1(2) Cons.prems(1) have c1: "Cache w1 = Some c" by simp
  from Cons.prems(2) have "\<forall>t \<in> set ts. Matches SrcCache c t" by simp
  from Cons.IH [OF c1 this]
  obtain w2 ms2 where 2: "CopyTasks SrcCache ts w1 = Inr w2" "Cache w2 = Cache w1"
      "DescriptorCopies w2 = DescriptorCopies w1" "Log w2 = Log w1 @ ms2"
      "set ms2 \<subseteq> {NoStaticResourceAssigned, NoStaticSamplerAssigned}"
    by blast
  have "CopyTasks SrcCache (t # ts) w = Inr w2" by (simp add: t 1(1) 2(1))
  moreover have "Log w2 = Log w @ (ms1 @ ms2)" by (simp add: 1(4) 2(4))
  moreover have "set (ms1 @ ms2) \<subseteq> {NoStaticResourceAssigned, NoStaticSamplerAssigned}"
    using 1(5) 2(5) by auto
  moreover have "Cache w2 = Cache w" "DescriptorCopies w2 = DescriptorCopies w"
    using 1(2,3) 2(2,3) by simp_all
  ultimately have "CopyTasks SrcCache (t # ts) w = Inr w2 \<and> Cache w2 = Cache w
           \<and> DescriptorCopies w2 = DescriptorCopies w \<and> Log w2 = Log w @ (ms1 @ ms2)
           \<and> set (ms1 @ ms2) \<subseteq> {NoStaticResourceAssigned, NoStaticSamplerAssigned}"
    by simp
  then show ?case by (intro exI [where x = w2] exI [where x = "ms1 @ ms2"])
qed

lemma ElemTasks_member:
  "ArrInd \<in> set inds \<Longrightarrow>
   (H, (fst s, u32_add (snd s) ArrInd), (fst d, u32_add (snd d) ArrInd)) \<in> set (ElemTasks H s d inds)"
  by (induction inds) (auto simp: ElemTasks_def)

lemma ResourceTask_member:
  assumes "res \<in> set (m_SrvCbvUav L SHADER_VARIABLE_TYPE_STATIC)"
    and "ArrInd < BindCount (Attribs res)"
    and "GetDescriptorRangeType (ResType res) = Inr RangeType"
  shows "(D3D12_DESCRIPTOR_HEAP_TYPE_CBV_SRV_UAV,
           (RangeType, u32_add (BindPoint (Attribs res)) ArrInd),
           (RootIndex res, u32_add (OffsetFromTableStart res) ArrInd)) \<in> set (StaticTasks cfg L)"
proof -
  have "ArrInd \<in> set [0 ..< BindCount (Attribs res)]" using assms(2) by simp
  from ElemTasks_member [OF this, of D3D12_DESCRIPTOR_HEAP_TYPE_CBV_SRV_UAV
      "(RangeType, BindPoint (Attribs res))" "(RootIndex res, OffsetFromTableStart res)"]
  have "(D3D12_DESCRIPTOR_HEAP_TYPE_CBV_SRV_UAV,
           (RangeType, u32_add (BindPoint (Attribs res)) ArrInd),
           (RootIndex res, u32_add (OffsetFromTableStart res) ArrInd)) \<in> set (ResourceTasks cfg L res)"
    apply (unfold ResourceTasks_def)
    apply (simp only: assms(3))
    apply (simp only: sum.case set_append)
    apply (rule UnI1)
    apply simp
    done
  with assms(1) show ?thesis
    by (auto simp: StaticTasks_def)
qed

text \<open>
  C4. When both layouts have a cache, and for some static resource and array index the
  destination slot holds a non-null object that is not the object of the source slot (the
  slot of the source cache at the bind point plus the index, in the table of the resource's
  range type), \<^verbatim>\<open>CopyStaticResourceDesriptorHandles\<close> ends in a failed assertion: it
  does not return normally. A slot that holds an object is never overwritten on the way, so
  the mismatch is still there when the loop reaches it, unless an earlier assertion has
  already failed.
\<close>

theorem CopyStatic_mismatch_aborts:
  assumes c: "Cache w = Some c"
    and res: "res \<in> set (m_SrvCbvUav L SHADER_VARIABLE_TYPE_STATIC)"
    and i: "ArrInd < BindCount (Attribs res)"
    and rt: "GetDescriptorRangeType (ResType res) = Inr RangeType"
    and S: "GetResource SrcCache RangeType (u32_add (BindPoint (Attribs res)) ArrInd) = Inr SrcRes"
    and D: "GetResource c (RootIndex res) (u32_add (OffsetFromTableStart res) ArrInd) = Inr DstRes"
    and nn: "pObject DstRes \<noteq> None"
    and diff: "\<not> SamePtr (pObject DstRes) (pObject SrcRes)"
  shows "\<exists>e. CopyStaticResourceDesriptorHandles cfg L SrcLayout (Some SrcCache) w = Inl e"
proof (cases "CopyStaticResourceDesriptorHandles cfg L SrcLayout (Some SrcCache) w")
  case (Inl e)
  then show ?thesis by simp
next
  case (Inr w')
  then have run: "CopyStaticResources cfg L SrcLayout SrcCache
                    (m_SrvCbvUav L SHADER_VARIABLE_TYPE_STATIC) w = Inr w'"
    using c by (simp add: CopyStaticResourceDesriptorHandles_def)
  from CopyStaticResources_checked [OF CopyStaticResources_Inr_checks [OF run]] run
  have flat: "CopyTasks SrcCache (StaticTasks cfg L) w = Inr w'"
    by (simp add: StaticTasks_def)
  have "\<exists>e. CopyTasks SrcCache (StaticTasks cfg L) w = Inl e"
    by (rule CopyTasks_mismatch_aborts [OF ResourceTask_member [OF res i rt] c])
       (use S D nn diff in simp_all)
  with flat show ?thesis by simp
qed

theorem CopyStatic_mismatch_aborts_witness:
  "\<exists>e. CopyStaticResourceDesriptorHandles ExCfg ExLayoutStatic ExLayoutStatic (Some ExSrcCache)
          (ExWorld [[ExOtherCB]]) = Inl e"
proof (rule CopyStatic_mismatch_aborts [where res = ExStaticCB and ArrInd = 0
         and c = "ExCache [[ExOtherCB]]" and RangeType = D3D12_DESCRIPTOR_RANGE_TYPE_CBV
         and SrcRes = ExBoundCB and DstRes = ExOtherCB])
  show "GetResource ExSrcCache D3D12_DESCRIPTOR_RANGE_TYPE_CBV
          (u32_add (BindPoint (Attribs ExStaticCB)) 0) = Inr ExBoundCB"
    by (simp add: ExSrcCache_def ExCache_def GetResource_def GetNumRootTables_def
          D3D12_DESCRIPTOR_RANGE_TYPE_CBV_def ExStaticCB_def ExAttribs_def u32_add_def)
  show "\<not> SamePtr (pObject ExOtherCB) (pObject ExBoundCB)"
    by (simp add: SamePtr_def ExOtherCB_def ExBoundCB_def ExBuffer_def)
qed (simp_all add: ExWorld_def ExCache_def ExLayoutStatic_def ExStaticCB_def ExAttribs_def
       GetResource_def GetNumRootTables_def u32_add_def ExOtherCB_def)

text \<open>
  C8. When a run of \<^verbatim>\<open>CopyStaticResourceDesriptorHandles\<close> has returned normally, a
  second run with the same two layouts and the same source cache also returns normally,
  leaves the destination cache as the first run left it and copies no descriptor; the only
  messages it logs are those for a missing cache or for a source slot with no object. The
  layout is one in which two copies that write the same cache position read the same source
  position, as is the case when no two resolved bindings share a cache position.
\<close>

theorem CopyStatic_second_run:
  assumes cons: "StaticDestinationsConsistent cfg L"
    and first: "CopyStaticResourceDesriptorHandles cfg L SrcLayout pSrcCache w = Inr w1"
  shows "\<exists>w2 ms. CopyStaticResourceDesriptorHandles cfg L SrcLayout pSrcCache w1 = Inr w2
           \<and> Cache w2 = Cache w1
           \<and> DescriptorCopies w2 = DescriptorCopies w1
           \<and> Log w2 = Log w1 @ ms
           \<and> set ms \<subseteq> {NoStaticResourceAssigned, NoStaticSamplerAssigned,
                         LayoutHasNoCache, SourceLayoutHasNoCache}"
proof (cases "Cache w")
  case None
  have r: "CopyStaticResourceDesriptorHandles cfg L SrcLayout pSrcCache v =
             Inr (LOG_ERROR_MESSAGE LayoutHasNoCache v)" if "Cache v = None" for v
    using that by (simp add: CopyStaticResourceDesriptorHandles_def)
  have w1: "w1 = LOG_ERROR_MESSAGE LayoutHasNoCache w"
    using first unfolding r [OF None] by simp
  have "Cache w1 = None" unfolding w1 using None by simp
  from r [OF this] show ?thesis
    by (intro exI [where x = "LOG_ERROR_MESSAGE LayoutHasNoCache w1"]
          exI [where x = "[LayoutHasNoCache]"]) simp
next
  case (Some c)
  note dst = this
  show ?thesis
  proof (cases pSrcCache)
    case None
    have r: "CopyStaticResourceDesriptorHandles cfg L SrcLayout pSrcCache v =
               Inr (LOG_ERROR_MESSAGE SourceLayoutHasNoCache v)" if "Cache v = Some c" for v
      using that None by (simp add: CopyStaticResourceDesriptorHandles_def)
    have w1: "w1 = LOG_ERROR_MESSAGE SourceLayoutHasNoCache w"
      using first unfolding r [OF dst] by simp
    have "Cache w1 = Some c" unfolding w1 using dst by simp
    from r [OF this] show ?thesis
      by (intro exI [where x = "LOG_ERROR_MESSAGE SourceLayoutHasNoCache w1"]
            exI [where x = "[SourceLayoutHasNoCache]"]) simp
  next
    case (Some SrcCache)
    note src = this
    have r: "CopyStaticResourceDesriptorHandles cfg L SrcLayout pSrcCache v =
               CopyStaticResources cfg L SrcLayout SrcCache
                    (m_SrvCbvUav L SHADER_VARIABLE_TYPE_STATIC) v" if "Cache v = Some c'" for v c'
      using that src by (simp add: CopyStaticResourceDesriptorHandles_def)
    have run: "CopyStaticResources cfg L SrcLayout SrcCache
                    (m_SrvCbvUav L SHADER_VARIABLE_TYPE_STATIC) w = Inr w1"
      using first unfolding r [OF dst] .
    note checks = CopyStaticResources_Inr_checks [OF run]
    have flat: "CopyTasks SrcCache (StaticTasks cfg L) w = Inr w1"
      using run unfolding CopyStaticResources_checked [OF checks] StaticTasks_def .
    have e: "\<forall>t \<in> {}. Matches SrcCache c t" by simp
    have cons': "\<forall>t1 \<in> {} \<union> set (StaticTasks cfg L). \<forall>t2 \<in> set (StaticTasks cfg L).
                   snd (snd t1) = snd (snd t2) \<longrightarrow> fst (snd t1) = fst (snd t2)"
      using cons unfolding StaticDestinationsConsistent_def Un_empty_left .
    from CopyTasks_establishes [OF flat dst e cons', unfolded Un_empty_left]
    obtain c1 where c1: "Cache w1 = Some c1"
      and m: "\<forall>t \<in> set (StaticTasks cfg L). Matches SrcCache c1 t" by (elim exE conjE)
    from CopyTasks_matching [OF c1 m]
    obtain w2 ms where 2: "CopyTasks SrcCache (StaticTasks cfg L) w1 = Inr w2" "Cache w2 = Cache w1"
      "DescriptorCopies w2 = DescriptorCopies w1" "Log w2 = Log w1 @ ms"
      "set ms \<subseteq> {NoStaticResourceAssigned, NoStaticSamplerAssigned}"
      by blast
    have second: "CopyStaticResourceDesriptorHandles cfg L SrcLayout pSrcCache w1 = Inr w2"
      unfolding r [OF c1] CopyStaticResources_checked [OF checks]
      using 2(1) unfolding StaticTasks_def .
    have sub: "set ms \<subseteq> {NoStaticResourceAssigned, NoStaticSamplerAssigned,
                         LayoutHasNoCache, SourceLayoutHasNoCache}"
    proof (rule subset_trans [OF 2(5)])
      show "{NoStaticResourceAssigned, NoStaticSamplerAssigned}
              \<subseteq> {NoStaticResourceAssigned, NoStaticSamplerAssigned,
                   LayoutHasNoCache, SourceLayoutHasNoCache}" by simp
    qed
    show ?thesis
      by (intro exI [where x = w2] exI [where x = ms] conjI second 2(2) 2(3) 2(4) sub)
  qed
qed

theorem CopyStatic_second_run_witness:
  "\<exists>w2 ms. CopyStaticResourceDesriptorHandles ExCfg ExLayoutStatic ExLayoutStatic (Some ExSrcCache)
             (ExWorld [[ExBoundCB]]) = Inr w2
      \<and> Cache w2 = Cache (ExWorld [[ExBoundCB]])
      \<and> DescriptorCopies w2 = DescriptorCopies (ExWorld [[ExBoundCB]])
      \<and> Log w2 = Log (ExWorld [[ExBoundCB]]) @ ms
      \<and> set ms \<subseteq> {NoStaticResourceAssigned, NoStaticSamplerAssigned,
                         LayoutHasNoCache, SourceLayoutHasNoCache}"
proof (rule CopyStatic_second_run [where w = "ExWorld [[NullResource]]"])
  have tasks: "StaticTasks ExCfg ExLayoutStatic =
                 [(D3D12_DESCRIPTOR_HEAP_TYPE_CBV_SRV_UAV, (2, 0), (0, 0))]"
    by (simp add: StaticTasks_def ResourceTasks_def ExLayoutStatic_def ExStaticCB_def ExAttribs_def
          ElemTasks_def IsValidSampler_def u32_add_def D3D12_DESCRIPTOR_RANGE_TYPE_CBV_def)
  show "StaticDestinationsConsistent ExCfg ExLayoutStatic"
    by (simp add: StaticDestinationsConsistent_def tasks)
  show "CopyStaticResourceDesriptorHandles ExCfg ExLayoutStatic ExLayoutStatic (Some ExSrcCache)
          (ExWorld [[NullResource]]) = Inr (ExWorld [[ExBoundCB]])"
    by (simp add: CopyStaticResourceDesriptorHandles_def ExWorld_def ExCache_def ExLayoutStatic_def
          CopyStaticResource_def VERIFY_def ExStaticCB_def ExAttribs_def IsValidSampler_def
          CopyStaticElement_def ExSrcCache_def GetResource_def GetNumRootTables_def u32_add_def
          D3D12_DESCRIPTOR_RANGE_TYPE_CBV_def ExBoundCB_def NullResource_def SamePtr_def
          WriteSlot_def SetResource_def)
qed

subsection \<open>The clone constructor\<close>

lemma prefix_by_take:
  assumes "xs = take (length xs) ys"
  shows "length xs \<le> length ys" and "i < length xs \<Longrightarrow> xs ! i = ys ! i"
proof -
  have "length xs = length (take (length xs) ys)" using assms by simp
  then show "length xs \<le> length ys" by simp
  assume "i < length xs"
  then have "take (length xs) ys ! i = ys ! i" by simp
  then show "xs ! i = ys ! i" using assms by simp
qed

lemma CloneSampler_Inr:
  assumes "CloneSampler cfg Src vt x sams = Inr (sid', sams')"
  shows "sid' = SamplerId x
       \<and> (SamplerId x = None \<longrightarrow> sams' = sams)
       \<and> (\<forall>sid. SamplerId x = Some sid \<longrightarrow>
             sid = length sams \<and> sid < length (m_Samplers Src vt)
             \<and> sams' = sams @ [m_Samplers Src vt ! sid])"
  using assms
  by (cases "SamplerId x")
     (auto simp: CloneSampler_def VERIFY_def GetSampler_def m_NumSamplers_def
           split: sum.splits if_splits)

lemma CloneResources_copies:
  assumes "CloneResources cfg Src vt xs (rs, sams) = Inr (rs', sams')"
    and "sams = take (length sams) (m_Samplers Src vt)"
  shows "rs' = rs @ xs \<and> sams' = take (length sams') (m_Samplers Src vt)
         \<and> (\<forall>x \<in> set xs. \<forall>sid. SamplerId x = Some sid \<longrightarrow> sid < length sams')
         \<and> length sams \<le> length sams'"
  using assms
proof (induction xs arbitrary: rs sams)
  case Nil
  then show ?case by simp
next
  case (Cons x xs)
  from Cons.prems(1) obtain sid1 sams1 where
    cs: "CloneSampler cfg Src vt x sams = Inr (sid1, sams1)"
    and rest: "CloneResources cfg Src vt xs (rs @ [x\<lparr>SamplerId := sid1\<rparr>], sams1) = Inr (rs', sams')"
    by (auto simp: VERIFY_def split: sum.splits if_splits)
  note f = CloneSampler_Inr [OF cs]
  from f have x: "x\<lparr>SamplerId := sid1\<rparr> = x" by simp
  have pre: "sams1 = take (length sams1) (m_Samplers Src vt)"
  proof (cases "SamplerId x")
    case None
    with f Cons.prems(2) show ?thesis by simp
  next
    case (Some sid)
    with f have "sid = length sams" "sid < length (m_Samplers Src vt)"
      "sams1 = sams @ [m_Samplers Src vt ! sid]" by simp_all
    with Cons.prems(2) show ?thesis by (simp add: take_Suc_conv_app_nth)
  qed
  have grow: "length sams \<le> length sams1"
    "\<forall>sid. SamplerId x = Some sid \<longrightarrow> sid < length sams1"
    using f by (cases "SamplerId x"; simp)+
  from Cons.IH [OF rest [unfolded x] pre] grow show ?case by auto
qed

lemma CloneVarType_copies:
  assumes "CloneVarType cfg Src Allowed vt = Inr (rs, sams)" and "IsAllowedType vt Allowed"
  shows "rs = m_SrvCbvUav Src vt \<and> sams = take (length sams) (m_Samplers Src vt)
         \<and> (\<forall>x \<in> set rs. \<forall>sid. SamplerId x = Some sid \<longrightarrow> sid < length sams)"
proof -
  from assms have "CloneResources cfg Src vt (m_SrvCbvUav Src vt) ([], []) = Inr (rs, sams)"
    by (simp add: CloneVarType_def)
  from CloneResources_copies [OF this] show ?thesis by simp
qed

lemma CloneLayout_group:
  assumes "CloneLayout cfg Src Allowed = Inr L"
  shows "CloneVarType cfg Src Allowed vt = Inr (m_SrvCbvUav L vt, m_Samplers L vt)"
  using assms
  by (cases vt)
     (auto simp: CloneLayout_def VERIFY_def Let_def split: sum.splits if_splits)

text \<open>
  C3. When the clone constructor returns normally, the clone has, for every allowed variable
  type, as many resolved bindings as the source layout, and its binding at each position
  has the root index and the offset of the source binding at that position. Where the source
  binding has a sampler, the clone's binding has the same sampler id, and the sampler under
  that id in the clone has the root index and the offset of the sampler under that id in
  the source.
\<close>

theorem CloneLayout_same_table_and_offset:
  assumes clone: "CloneLayout cfg SrcLayout AllowedVarTypes = Inr L"
    and allowed: "IsAllowedType VarType AllowedVarTypes"
    and r: "r < m_NumCbvSrvUav SrcLayout VarType"
  shows "m_NumCbvSrvUav L VarType = m_NumCbvSrvUav SrcLayout VarType
       \<and> RootIndex (m_SrvCbvUav L VarType ! r) = RootIndex (m_SrvCbvUav SrcLayout VarType ! r)
       \<and> OffsetFromTableStart (m_SrvCbvUav L VarType ! r)
           = OffsetFromTableStart (m_SrvCbvUav SrcLayout VarType ! r)
       \<and> (\<forall>sid. SamplerId (m_SrvCbvUav SrcLayout VarType ! r) = Some sid \<longrightarrow>
            (\<exists>Sam SrcSam. SamplerId (m_SrvCbvUav L VarType ! r) = Some sid
               \<and> GetSampler L VarType sid = Inr Sam
               \<and> GetSampler SrcLayout VarType sid = Inr SrcSam
               \<and> SamRootIndex Sam = SamRootIndex SrcSam
               \<and> SamOffsetFromTableStart Sam = SamOffsetFromTableStart SrcSam))"
proof -
  from CloneVarType_copies [OF CloneLayout_group [OF clone] allowed]
  have rs: "m_SrvCbvUav L VarType = m_SrvCbvUav SrcLayout VarType"
    and sams: "m_Samplers L VarType = take (length (m_Samplers L VarType)) (m_Samplers SrcLayout VarType)"
    and ids: "\<forall>x \<in> set (m_SrvCbvUav L VarType). \<forall>sid. SamplerId x = Some sid
                \<longrightarrow> sid < length (m_Samplers L VarType)"
    by simp_all
  have mem: "m_SrvCbvUav SrcLayout VarType ! r \<in> set (m_SrvCbvUav L VarType)"
    using r by (simp add: rs m_NumCbvSrvUav_def)
  have sam: "\<exists>Sam SrcSam. SamplerId (m_SrvCbvUav L VarType ! r) = Some sid
               \<and> GetSampler L VarType sid = Inr Sam
               \<and> GetSampler SrcLayout VarType sid = Inr SrcSam
               \<and> SamRootIndex Sam = SamRootIndex SrcSam
               \<and> SamOffsetFromTableStart Sam = SamOffsetFromTableStart SrcSam"
    if sid: "SamplerId (m_SrvCbvUav SrcLayout VarType ! r) = Some sid" for sid
  proof -
    from ids mem sid have lt: "sid < length (m_Samplers L VarType)" by blast
    have le: "length (m_Samplers L VarType) \<le> length (m_Samplers SrcLayout VarType)"
      by (rule prefix_by_take(1) [OF sams])
    have "m_Samplers L VarType ! sid = m_Samplers SrcLayout VarType ! sid"
      by (rule prefix_by_take(2) [OF sams lt])
    then show ?thesis
      using lt le sid by (simp add: GetSampler_def m_NumSamplers_def rs)
  qed
  show ?thesis using sam by (simp add: rs m_NumCbvSrvUav_def)
qed

theorem CloneLayout_same_table_and_offset_witness:
  "\<exists>L. CloneLayout ExCfg ExLayoutTex [SHADER_VARIABLE_TYPE_MUTABLE] = Inr L
      \<and> RootIndex (m_SrvCbvUav L SHADER_VARIABLE_TYPE_MUTABLE ! 0) = RootIndex ExTex
      \<and> OffsetFromTableStart (m_SrvCbvUav L SHADER_VARIABLE_TYPE_MUTABLE ! 0) = OffsetFromTableStart ExTex
      \<and> map_sum id SamRootIndex (GetSampler L SHADER_VARIABLE_TYPE_MUTABLE 0) = Inr (SamRootIndex ExSam)
      \<and> map_sum id SamOffsetFromTableStart (GetSampler L SHADER_VARIABLE_TYPE_MUTABLE 0)
           = Inr (SamOffsetFromTableStart ExSam)"
proof -
  have "\<exists>L. CloneLayout ExCfg ExLayoutTex [SHADER_VARIABLE_TYPE_MUTABLE] = Inr L"
    by (simp add: CloneLayout_def CloneVarType_def IsAllowedType_def ExLayoutTex_def CloneSampler_def
          ExTex_def ExSam_def ExAttribs_def ExCfg_def VERIFY_def GetSampler_def m_NumSamplers_def
          Let_def)
  then obtain L where L: "CloneLayout ExCfg ExLayoutTex [SHADER_VARIABLE_TYPE_MUTABLE] = Inr L" ..
  have src: "m_SrvCbvUav ExLayoutTex SHADER_VARIABLE_TYPE_MUTABLE ! 0 = ExTex"
    "GetSampler ExLayoutTex SHADER_VARIABLE_TYPE_MUTABLE 0 = Inr ExSam"
    "SamplerId ExTex = Some 0"
    by (simp_all add: ExLayoutTex_def GetSampler_def m_NumSamplers_def ExTex_def)
  have "0 < m_NumCbvSrvUav ExLayoutTex SHADER_VARIABLE_TYPE_MUTABLE"
    by (simp add: m_NumCbvSrvUav_def ExLayoutTex_def)
  from CloneLayout_same_table_and_offset [OF L _ this] src
  have "RootIndex (m_SrvCbvUav L SHADER_VARIABLE_TYPE_MUTABLE ! 0) = RootIndex ExTex
      \<and> OffsetFromTableStart (m_SrvCbvUav L SHADER_VARIABLE_TYPE_MUTABLE ! 0) = OffsetFromTableStart ExTex
      \<and> map_sum id SamRootIndex (GetSampler L SHADER_VARIABLE_TYPE_MUTABLE 0) = Inr (SamRootIndex ExSam)
      \<and> map_sum id SamOffsetFromTableStart (GetSampler L SHADER_VARIABLE_TYPE_MUTABLE 0)
           = Inr (SamOffsetFromTableStart ExSam)"
    by (auto simp: IsAllowedType_def)
  with L show ?thesis by blast
qed

subsection \<open>Initialize\<close>

text \<open>
  C7, at the scenario of the specification: a static constant buffer at bind point 0, a
  mutable texture SRV of three elements at bind point 0 with a mutable sampler at bind point
  0, and a dynamic buffer UAV at bind point 0, initialised without a root signature. The
  tables of the cache (SRV, UAV, CBV, sampler) get 4, 2, 2 and 2 slots: one more than the
  largest bind point plus bind count of the table.
\<close>

theorem Initialize_scenario_table_sizes:
  "(case Initialize ExCfg ExOps ExScenario AllVarTypes None (ExWorld []) of
      Inl e \<Rightarrow> None
    | Inr (L, rs, w) \<Rightarrow> map_option (\<lambda>c. map length (RootTables c)) (Cache w))
   = Some [4, 2, 2, 2]"
  by (simp add: Initialize_def VERIFY_def ExWorld_def ExCache_def ProcessResources_def ExScenario_def
        ExAttribs_def IsAllowedType_def AllVarTypes_def GetResSampler_def AddTexSRV_def AddResource_def
        ExCfg_def u32_add_def int_of_u32_def u32_of_int_def CacheInitialize_def
        D3D12_DESCRIPTOR_RANGE_TYPE_SRV_def D3D12_DESCRIPTOR_RANGE_TYPE_UAV_def
        D3D12_DESCRIPTOR_RANGE_TYPE_CBV_def D3D12_DESCRIPTOR_RANGE_TYPE_SAMPLER_def Let_def)

theorem Initialize_scenario_table_sizes_witness:
  "(case Initialize ExCfg ExOps ExScenario AllVarTypes None (ExWorld []) of
      Inl e \<Rightarrow> None
    | Inr (L, rs, w) \<Rightarrow> map_option (\<lambda>c. map length (RootTables c)) (Cache w))
   \<noteq> Some [3, 1, 1, 1]"
  using Initialize_scenario_table_sizes by simp

subsection \<open>Initialize followed by BindResources\<close>

text \<open>Binding an object keeps the slots that are bound and binds the slot of the binding.\<close>

lemma IsBound_BoundAt:
  assumes "ArrInd < BindCount (Attribs res)"
    and "BoundAt w (RootIndex res, u32_add (OffsetFromTableStart res) ArrInd)"
  shows "IsBound res ArrInd w = Inr True"
  using assms
  by (auto simp: IsBound_def BoundAt_def ReadSlot_def GetResource_def VERIFY_def Let_def
           split: option.splits sum.splits if_splits)

lemma BoundAt_LOG [simp]: "BoundAt (LOG_ERROR_MESSAGE m w) pos = BoundAt w pos"
  by (simp add: BoundAt_def ReadSlot_def)

lemma BoundAt_Copy [simp]: "BoundAt (CopyDescriptorsSimple d s h w) pos = BoundAt w pos"
  by (simp add: BoundAt_def ReadSlot_def)

lemma BoundAt_WriteSlot_keeps:
  assumes "BoundAt w pos" and "pObject x = Some obj"
    and "CPUDescriptorHandle x \<noteq> 0 \<or> IsDynamicBuffer obj"
  shows "BoundAt (WriteSlot r off x w) pos"
proof (cases "Cache w")
  case None
  with assms(1) show ?thesis by (simp add: BoundAt_def ReadSlot_def)
next
  case (Some c)
  with assms show ?thesis
    by (auto simp: BoundAt_def ReadSlot_WriteSlot [OF Some] split: sum.splits option.splits)
qed

lemma BoundAt_WriteSlot_new:
  assumes "ReadSlot w r off = Inr D" and "pObject x = Some obj"
    and "CPUDescriptorHandle x \<noteq> 0 \<or> IsDynamicBuffer obj"
  shows "BoundAt (WriteSlot r off x w) (r, off)"
proof -
  from assms(1) obtain c where c: "Cache w = Some c" and D: "GetResource c r off = Inr D"
    by (auto simp: ReadSlot_def split: option.splits)
  from D GetResource_Inr_iff [of c r off] have "r < GetNumRootTables c" "off < length (RootTables c ! r)"
    by auto
  with assms(2,3) show ?thesis
    by (simp add: BoundAt_def ReadSlot_WriteSlot [OF c])
qed

lemma CacheCB_keeps:
  assumes "CacheCB res obj r off h w = Inr w'" and "BoundAt w pos"
  shows "BoundAt w' pos"
proof (cases obj)
  case (BufferD3D12Impl a uniform hdl dyn)
  show ?thesis
  proof (cases uniform)
    case False
    with assms BufferD3D12Impl show ?thesis by (auto simp: CacheCB_def)
  next
    case True
    from assms(1) BufferD3D12Impl True obtain D where D: "ReadSlot w r off = Inr D"
      by (cases "ReadSlot w r off") (simp_all add: CacheCB_def)
    from assms(1) BufferD3D12Impl True D have ok: "hdl \<noteq> 0 \<or> dyn"
      by (auto simp: CacheCB_def VERIFY_def Let_def split: if_splits)
    let ?x = "\<lparr>Type = ResType res, CPUDescriptorHandle = hdl, pObject = Some obj\<rparr>"
    have x: "pObject ?x = Some obj" "CPUDescriptorHandle ?x \<noteq> 0 \<or> IsDynamicBuffer obj"
      using ok BufferD3D12Impl by auto
    from assms(1) BufferD3D12Impl True D ok
    obtain w2 where w2: "w' = WriteSlot r off ?x w2" "BoundAt w2 pos = BoundAt w pos"
      by (auto simp: CacheCB_def VERIFY_def Let_def split: if_splits)
    from BoundAt_WriteSlot_keeps [OF _ x, of w2 pos r off] w2 assms(2) show ?thesis by simp
  qed
qed (use assms in \<open>auto simp: CacheCB_def\<close>)

lemma BoundAt_cong: "Cache w2 = Cache w \<Longrightarrow> BoundAt w2 pos = BoundAt w pos"
  by (simp add: BoundAt_def ReadSlot_def)

lemma CacheSampler_keeps:
  assumes "CacheSampler cfg Sam (Some v) idx h w = Inr w'" and "BoundAt w pos"
  shows "BoundAt w' pos"
proof (cases "GetViewSampler v")
  case None
  with assms show ?thesis
    by (auto simp: CacheSampler_def VERIFY_def Let_def split: option.splits sum.splits if_splits)
next
  case (Some smp)
  let ?x = "\<lparr>Type = Sampler, CPUDescriptorHandle = SamplerCPUDescriptorHandle smp,
             pObject = Some (SamplerObject smp)\<rparr>"
  from assms(1) Some have ok: "SamplerCPUDescriptorHandle smp \<noteq> 0"
    by (auto simp: CacheSampler_def VERIFY_def Let_def split: option.splits sum.splits if_splits)
  from assms(1) Some ok
  obtain w2 where w2: "w' = WriteSlot (SamRootIndex Sam) (u32_add (SamOffsetFromTableStart Sam) idx) ?x w2"
      "Cache w2 = Cache w"
    by (auto simp: CacheSampler_def VERIFY_def Let_def split: option.splits sum.splits if_splits)
  have "BoundAt w2 pos" using assms(2) BoundAt_cong [OF w2(2)] by simp
  from BoundAt_WriteSlot_keeps [OF this, of ?x] ok show ?thesis unfolding w2(1) by simp
qed

lemma BindSamplerProc_keeps:
  assumes "BindSamplerProc cfg L res i v w = Inr w'" and "BoundAt w pos"
  shows "BoundAt w' pos"
proof (cases "IsValidSampler res")
  case False
  with assms show ?thesis by (simp add: BindSamplerProc_def)
next
  case True
  with assms(1) obtain Sam h where "CacheSampler cfg Sam (Some v) (SamplerArrInd Sam i) h w = Inr w'"
    by (auto simp: BindSamplerProc_def VERIFY_def split: sum.splits option.splits if_splits)
  from CacheSampler_keeps [OF this assms(2)] show ?thesis .
qed

lemma CacheResourceView_Inr:
  assumes "CacheResourceView cfg res tmpl obj r off h proc w = Inr w'"
  shows "((\<exists>hdl. QueryView tmpl obj = Some (False, hdl)) \<and> w' = LOG_ERROR_MESSAGE IncorrectViewType w)
       \<or> (QueryView tmpl obj = None \<and> w' = LOG_ERROR_MESSAGE IncorrectResourceType w)
       \<or> (\<exists>ok hdl D w2 w3. QueryView tmpl obj = Some (ok, hdl) \<and> (VERIFY_SHADER_BINDINGS cfg \<longrightarrow> ok)
              \<and> ReadSlot w r off = Inr D \<and> hdl \<noteq> 0 \<and> Cache w2 = Cache w
              \<and> Cache w3 = Cache (WriteSlot r off
                     \<lparr>Type = ResType res, CPUDescriptorHandle = hdl, pObject = Some obj\<rparr> w2)
              \<and> proc obj w3 = Inr w')"
proof (cases "QueryView tmpl obj")
  case None
  with assms show ?thesis by (simp add: CacheResourceView_def)
next
  case (Some p)
  obtain ok hdl where p: "p = (ok, hdl)" by (cases p)
  show ?thesis
  proof (cases "VERIFY_SHADER_BINDINGS cfg \<and> \<not> ok")
    case True
    with assms Some p show ?thesis by (simp add: CacheResourceView_def)
  next
    case False
    from assms Some p False obtain D where D: "ReadSlot w r off = Inr D"
      by (cases "ReadSlot w r off") (simp_all add: CacheResourceView_def)
    from assms Some p False D have hdl: "hdl \<noteq> 0"
      by (auto simp: CacheResourceView_def VERIFY_def Let_def split: if_splits)
    let ?x = "\<lparr>Type = ResType res, CPUDescriptorHandle = hdl, pObject = Some obj\<rparr>"
    let ?w1 = "if VariableType (Attribs res) \<noteq> SHADER_VARIABLE_TYPE_DYNAMIC
                                \<and> pObject D \<noteq> None
                                \<and> \<not> SamePtr (pObject D) (Some obj)
                             then LOG_ERROR_MESSAGE ResourceAlreadyBound w else w"
    let ?w2 = "WriteSlot r off ?x ?w1"
    let ?w3 = "if h \<noteq> 0 then CopyDescriptorsSimple h hdl D3D12_DESCRIPTOR_HEAP_TYPE_CBV_SRV_UAV ?w2
               else ?w2"
    have run: "proc obj ?w3 = Inr w'"
      using assms Some p False D hdl
      by (simp add: CacheResourceView_def VERIFY_def Let_def split del: if_split cong: if_cong)
    have c1: "Cache ?w1 = Cache w" by simp
    have c3: "Cache ?w3 = Cache (WriteSlot r off ?x ?w1)" by simp
    from Some p False D hdl c1 c3 run show ?thesis by blast
  qed
qed

lemma CacheResourceView_keeps:
  assumes run: "CacheResourceView cfg res tmpl obj r off h proc w = Inr w'"
    and proc: "\<And>v u u'. proc v u = Inr u' \<Longrightarrow> BoundAt u pos \<Longrightarrow> BoundAt u' pos"
    and b: "BoundAt w pos"
  shows "BoundAt w' pos"
proof -
  from CacheResourceView_Inr [OF run]
  consider "w' = LOG_ERROR_MESSAGE IncorrectViewType w" | "w' = LOG_ERROR_MESSAGE IncorrectResourceType w"
    | hdl w2 w3 where "hdl \<noteq> 0" "Cache w2 = Cache w"
       "Cache w3 = Cache (WriteSlot r off
                     \<lparr>Type = ResType res, CPUDescriptorHandle = hdl, pObject = Some obj\<rparr> w2)"
       "proc obj w3 = Inr w'"
    by blast
  then show ?thesis
  proof cases
    case 1
    then show ?thesis using b by simp
  next
    case 2
    then show ?thesis using b by simp
  next
    case 3
    have "BoundAt w2 pos" using b BoundAt_cong [OF 3(2)] by simp
    from BoundAt_WriteSlot_keeps [OF this, of _ obj r off] 3(1)
    have "BoundAt (WriteSlot r off
                     \<lparr>Type = ResType res, CPUDescriptorHandle = hdl, pObject = Some obj\<rparr> w2) pos"
      by simp
    then have "BoundAt w3 pos" using BoundAt_cong [OF 3(3)] by simp
    from proc [OF 3(4) this] show ?thesis .
  qed
qed

lemma CacheResourceView_establishes:
  assumes run: "CacheResourceView cfg res tmpl obj r off h proc w = Inr w'"
    and proc: "\<And>v u u'. proc v u = Inr u' \<Longrightarrow> BoundAt u (r, off) \<Longrightarrow> BoundAt u' (r, off)"
    and q: "QueryView tmpl obj = Some (True, hdl)"
  shows "BoundAt w' (r, off)"
proof -
  from CacheResourceView_Inr [OF run] q
  obtain D w2 w3 where 3: "ReadSlot w r off = Inr D" "hdl \<noteq> 0" "Cache w2 = Cache w"
       "Cache w3 = Cache (WriteSlot r off
                     \<lparr>Type = ResType res, CPUDescriptorHandle = hdl, pObject = Some obj\<rparr> w2)"
       "proc obj w3 = Inr w'"
    by auto
  have "ReadSlot w2 r off = Inr D" using 3(1,3) by (simp add: ReadSlot_def)
  from BoundAt_WriteSlot_new [OF this, of _ obj] 3(2)
  have "BoundAt (WriteSlot r off
                     \<lparr>Type = ResType res, CPUDescriptorHandle = hdl, pObject = Some obj\<rparr> w2) (r, off)"
    by simp
  then have "BoundAt w3 (r, off)" using BoundAt_cong [OF 3(4)] by simp
  from proc [OF 3(5) this] show ?thesis .
qed

lemma CacheCB_establishes:
  assumes "CacheCB res (BufferD3D12Impl a True hdl dyn) r off h w = Inr w'"
  shows "BoundAt w' (r, off)"
proof -
  from assms obtain D where D: "ReadSlot w r off = Inr D"
    by (cases "ReadSlot w r off") (simp_all add: CacheCB_def)
  from assms D have ok: "hdl \<noteq> 0 \<or> dyn"
    by (auto simp: CacheCB_def VERIFY_def Let_def split: if_splits)
  let ?x = "\<lparr>Type = ResType res, CPUDescriptorHandle = hdl,
             pObject = Some (BufferD3D12Impl a True hdl dyn)\<rparr>"
  from assms D ok
  obtain w2 where w2: "w' = WriteSlot r off ?x w2" "Cache w2 = Cache w"
    by (auto simp: CacheCB_def VERIFY_def Let_def split: if_splits)
  have "ReadSlot w2 r off = Inr D" using D w2(2) by (simp add: ReadSlot_def)
  from BoundAt_WriteSlot_new [OF this, of ?x] ok show ?thesis unfolding w2(1) by auto
qed

lemma BindResource_Inr_entry:
  assumes "BindResource cfg L res p ArrayIndex w = Inr w'"
  shows "\<exists>c D. Cache w = Some c \<and> ArrayIndex < BindCount (Attribs res)
           \<and> GetResource c (RootIndex res) (u32_add (OffsetFromTableStart res) ArrayIndex) = Inr D
           \<and> DbgVerifyResourceHandle cfg c res
               (ShaderVisibleTableCPUDescriptorHandle c D3D12_DESCRIPTOR_HEAP_TYPE_CBV_SRV_UAV
                  (RootIndex res) (u32_add (OffsetFromTableStart res) ArrayIndex)) = None"
proof -
  from assms obtain c where c: "Cache w = Some c"
    by (cases "Cache w") (simp_all add: BindResource_def)
  from assms c have i: "ArrayIndex < BindCount (Attribs res)"
    by (simp add: BindResource_def VERIFY_def split: if_splits)
  from assms c i obtain D where
    D: "GetResource c (RootIndex res) (u32_add (OffsetFromTableStart res) ArrayIndex) = Inr D"
    by (cases "GetResource c (RootIndex res) (u32_add (OffsetFromTableStart res) ArrayIndex)")
       (simp_all add: BindResource_def VERIFY_def Let_def)
  from assms c i D have "DbgVerifyResourceHandle cfg c res
               (ShaderVisibleTableCPUDescriptorHandle c D3D12_DESCRIPTOR_HEAP_TYPE_CBV_SRV_UAV
                  (RootIndex res) (u32_add (OffsetFromTableStart res) ArrayIndex)) = None"
    by (cases "DbgVerifyResourceHandle cfg c res
               (ShaderVisibleTableCPUDescriptorHandle c D3D12_DESCRIPTOR_HEAP_TYPE_CBV_SRV_UAV
                  (RootIndex res) (u32_add (OffsetFromTableStart res) ArrayIndex))")
       (simp_all add: BindResource_def VERIFY_def Let_def)
  with c i D show ?thesis by blast
qed

lemma BindResource_keeps:
  assumes run: "BindResource cfg L res (Some obj) ArrayIndex w = Inr w'" and b: "BoundAt w pos"
  shows "BoundAt w' pos"
proof -
  from BindResource_Inr_entry [OF run] obtain c D where e: "Cache w = Some c"
    "ArrayIndex < BindCount (Attribs res)"
    "GetResource c (RootIndex res) (u32_add (OffsetFromTableStart res) ArrayIndex) = Inr D"
    "DbgVerifyResourceHandle cfg c res
               (ShaderVisibleTableCPUDescriptorHandle c D3D12_DESCRIPTOR_HEAP_TYPE_CBV_SRV_UAV
                  (RootIndex res) (u32_add (OffsetFromTableStart res) ArrayIndex)) = None"
    by blast
  note eq = run [unfolded BindResource_obj_eq [OF e, of L obj] Let_def]
  have triv: "\<And>v u u'. (\<lambda>p w'. Inr w') v u = Inr u' \<Longrightarrow> BoundAt u pos \<Longrightarrow> BoundAt u' pos"
    by simp
  have procS: "\<And>v u u'. BindSamplerProc cfg L res ArrayIndex v u = Inr u' \<Longrightarrow> BoundAt u pos
                 \<Longrightarrow> BoundAt u' pos"
    by (rule BindSamplerProc_keeps)
  show ?thesis
  proof (cases "ResType res")
    case CBV
    with eq CacheCB_keeps [OF _ b] show ?thesis by simp
  next
    case TexSRV
    with eq have "CacheResourceView cfg res (AsTextureView TEXTURE_VIEW_SHADER_RESOURCE)
              obj (RootIndex res) (u32_add (OffsetFromTableStart res) ArrayIndex)
              (ShaderVisibleTableCPUDescriptorHandle c D3D12_DESCRIPTOR_HEAP_TYPE_CBV_SRV_UAV
                  (RootIndex res) (u32_add (OffsetFromTableStart res) ArrayIndex))
              (BindSamplerProc cfg L res ArrayIndex) w = Inr w'" by simp
    from CacheResourceView_keeps [OF this procS b] show ?thesis .
  next
    case TexUAV
    with eq have "CacheResourceView cfg res (AsTextureView TEXTURE_VIEW_UNORDERED_ACCESS)
              obj (RootIndex res) (u32_add (OffsetFromTableStart res) ArrayIndex)
              (ShaderVisibleTableCPUDescriptorHandle c D3D12_DESCRIPTOR_HEAP_TYPE_CBV_SRV_UAV
                  (RootIndex res) (u32_add (OffsetFromTableStart res) ArrayIndex))
              (\<lambda>p w'. Inr w') w = Inr w'" by simp
    from CacheResourceView_keeps [OF this triv b] show ?thesis .
  next
    case BufSRV
    with eq have "CacheResourceView cfg res (AsBufferView BUFFER_VIEW_SHADER_RESOURCE)
              obj (RootIndex res) (u32_add (OffsetFromTableStart res) ArrayIndex)
              (ShaderVisibleTableCPUDescriptorHandle c D3D12_DESCRIPTOR_HEAP_TYPE_CBV_SRV_UAV
                  (RootIndex res) (u32_add (OffsetFromTableStart res) ArrayIndex))
              (\<lambda>p w'. Inr w') w = Inr w'" by simp
    from CacheResourceView_keeps [OF this triv b] show ?thesis .
  next
    case BufUAV
    with eq have "CacheResourceView cfg res (AsBufferView BUFFER_VIEW_UNORDERED_ACCESS)
              obj (RootIndex res) (u32_add (OffsetFromTableStart res) ArrayIndex)
              (ShaderVisibleTableCPUDescriptorHandle c D3D12_DESCRIPTOR_HEAP_TYPE_CBV_SRV_UAV
                  (RootIndex res) (u32_add (OffsetFromTableStart res) ArrayIndex))
              (\<lambda>p w'. Inr w') w = Inr w'" by simp
    from CacheResourceView_keeps [OF this triv b] show ?thesis .
  qed (use eq in simp_all)
qed

lemma BindResource_establishes:
  assumes run: "BindResource cfg L res (Some obj) ArrayIndex w = Inr w'"
    and cat: "CategoryMatches (ResType res) obj" and kind: "ViewKindMatches (ResType res) obj"
  shows "BoundAt w' (RootIndex res, u32_add (OffsetFromTableStart res) ArrayIndex)"
proof -
  from BindResource_Inr_entry [OF run] obtain c D where e: "Cache w = Some c"
    "ArrayIndex < BindCount (Attribs res)"
    "GetResource c (RootIndex res) (u32_add (OffsetFromTableStart res) ArrayIndex) = Inr D"
    "DbgVerifyResourceHandle cfg c res
               (ShaderVisibleTableCPUDescriptorHandle c D3D12_DESCRIPTOR_HEAP_TYPE_CBV_SRV_UAV
                  (RootIndex res) (u32_add (OffsetFromTableStart res) ArrayIndex)) = None"
    by blast
  note eq = run [unfolded BindResource_obj_eq [OF e, of L obj] Let_def]
  let ?pos = "(RootIndex res, u32_add (OffsetFromTableStart res) ArrayIndex)"
  have triv: "\<And>v u u'. (\<lambda>p w'. Inr w') v u = Inr u' \<Longrightarrow> BoundAt u ?pos \<Longrightarrow> BoundAt u' ?pos"
    by simp
  have procS: "\<And>v u u'. BindSamplerProc cfg L res ArrayIndex v u = Inr u' \<Longrightarrow> BoundAt u ?pos
                 \<Longrightarrow> BoundAt u' ?pos"
    by (rule BindSamplerProc_keeps)
  show ?thesis
  proof (cases "ResType res")
    case CBV
    with cat obtain a hdl dyn where "obj = BufferD3D12Impl a True hdl dyn" by (cases obj) auto
    with eq CBV CacheCB_establishes show ?thesis by simp
  next
    case TexSRV
    with cat kind obtain a hdl s where obj: "obj = TextureViewD3D12Impl a TEXTURE_VIEW_SHADER_RESOURCE hdl s"
      by (cases obj) auto
    from eq TexSRV have "CacheResourceView cfg res (AsTextureView TEXTURE_VIEW_SHADER_RESOURCE)
              obj (RootIndex res) (u32_add (OffsetFromTableStart res) ArrayIndex)
              (ShaderVisibleTableCPUDescriptorHandle c D3D12_DESCRIPTOR_HEAP_TYPE_CBV_SRV_UAV
                  (RootIndex res) (u32_add (OffsetFromTableStart res) ArrayIndex))
              (BindSamplerProc cfg L res ArrayIndex) w = Inr w'" by simp
    from CacheResourceView_establishes [OF this procS, where hdl = hdl] obj show ?thesis by simp
  next
    case TexUAV
    with cat kind obtain a hdl s where obj: "obj = TextureViewD3D12Impl a TEXTURE_VIEW_UNORDERED_ACCESS hdl s"
      by (cases obj) auto
    from eq TexUAV have "CacheResourceView cfg res (AsTextureView TEXTURE_VIEW_UNORDERED_ACCESS)
              obj (RootIndex res) (u32_add (OffsetFromTableStart res) ArrayIndex)
              (ShaderVisibleTableCPUDescriptorHandle c D3D12_DESCRIPTOR_HEAP_TYPE_CBV_SRV_UAV
                  (RootIndex res) (u32_add (OffsetFromTableStart res) ArrayIndex))
              (\<lambda>p w'. Inr w') w = Inr w'" by simp
    from CacheResourceView_establishes [OF this triv, where hdl = hdl] obj show ?thesis by simp
  next
    case BufSRV
    with cat kind obtain a hdl where obj: "obj = BufferViewD3D12Impl a BUFFER_VIEW_SHADER_RESOURCE hdl"
      by (cases obj) auto
    from eq BufSRV have "CacheResourceView cfg res (AsBufferView BUFFER_VIEW_SHADER_RESOURCE)
              obj (RootIndex res) (u32_add (OffsetFromTableStart res) ArrayIndex)
              (ShaderVisibleTableCPUDescriptorHandle c D3D12_DESCRIPTOR_HEAP_TYPE_CBV_SRV_UAV
                  (RootIndex res) (u32_add (OffsetFromTableStart res) ArrayIndex))
              (\<lambda>p w'. Inr w') w = Inr w'" by simp
    from CacheResourceView_establishes [OF this triv, where hdl = hdl] obj show ?thesis by simp
  next
    case BufUAV
    with cat kind obtain a hdl where obj: "obj = BufferViewD3D12Impl a BUFFER_VIEW_UNORDERED_ACCESS hdl"
      by (cases obj) auto
    from eq BufUAV have "CacheResourceView cfg res (AsBufferView BUFFER_VIEW_UNORDERED_ACCESS)
              obj (RootIndex res) (u32_add (OffsetFromTableStart res) ArrayIndex)
              (ShaderVisibleTableCPUDescriptorHandle c D3D12_DESCRIPTOR_HEAP_TYPE_CBV_SRV_UAV
                  (RootIndex res) (u32_add (OffsetFromTableStart res) ArrayIndex))
              (\<lambda>p w'. Inr w') w = Inr w'" by simp
    from CacheResourceView_establishes [OF this triv, where hdl = hdl] obj show ?thesis by simp
  qed (use cat in simp_all)
qed

text \<open>Binding changes nothing of what the assertions read.\<close>

lemma Shape_SetResource [simp]: "Shape (SetResource c r off x) = Shape c"
  by (simp add: Shape_def list_eq_iff_nth_eq)

lemma InRange_shape: "Shape c = Shape c' \<Longrightarrow> InRange c r off = InRange c' r off"
proof -
  assume "Shape c = Shape c'"
  then have m: "map length (RootTables c) = map length (RootTables c')" by (simp add: Shape_def)
  then have l: "length (RootTables c) = length (RootTables c')" by (rule map_eq_imp_length_eq)
  have "length (RootTables c ! r) = length (RootTables c' ! r)" if "r < length (RootTables c)"
  proof -
    have "map length (RootTables c) ! r = map length (RootTables c') ! r" using m by simp
    then show ?thesis using that l by simp
  qed
  then show ?thesis using l by (auto simp: InRange_def GetNumRootTables_def)
qed

lemma DbgVerifyResourceHandle_shape:
  "Shape c = Shape c' \<Longrightarrow> DbgVerifyResourceHandle cfg c res h = DbgVerifyResourceHandle cfg c' res h"
  by (simp add: Shape_def DbgVerifyResourceHandle_def)

lemma DbgVerifySamplerHandle_shape:
  "Shape c = Shape c' \<Longrightarrow> DbgVerifySamplerHandle cfg c Sam b h = DbgVerifySamplerHandle cfg c' Sam b h"
  by (simp add: Shape_def DbgVerifySamplerHandle_def)

lemma ShaderVisible_shape:
  "Shape c = Shape c' \<Longrightarrow>
   ShaderVisibleTableCPUDescriptorHandle c = ShaderVisibleTableCPUDescriptorHandle c'"
  by (simp add: Shape_def)

lemma BindSamplerChecks_shape:
  assumes "Shape c = Shape c'"
  shows "BindSamplerChecks cfg L res i c = BindSamplerChecks cfg L res i c'"
  unfolding BindSamplerChecks_def
  by (simp add: InRange_shape [OF assms] DbgVerifySamplerHandle_shape [OF assms]
        ShaderVisible_shape [OF assms] split: option.splits sum.splits)

lemma WShape_WriteSlot [simp]: "WShape (WriteSlot r off x w) = WShape w"
  by (cases "Cache w") (simp_all add: WShape_def)

lemma WShape_LOG [simp]: "WShape (LOG_ERROR_MESSAGE m w) = WShape w"
  by (simp add: WShape_def)

lemma WShape_Copy [simp]: "WShape (CopyDescriptorsSimple d s h w) = WShape w"
  by (simp add: WShape_def)

lemma CacheCB_shape: "CacheCB res obj r off h w = Inr w' \<Longrightarrow> WShape w' = WShape w"
  by (auto simp: CacheCB_def VERIFY_def Let_def split: IDeviceObject.splits sum.splits if_splits)

lemma CacheSampler_shape: "CacheSampler cfg Sam v idx h w = Inr w' \<Longrightarrow> WShape w' = WShape w"
  by (auto simp: CacheSampler_def VERIFY_def Let_def split: option.splits sum.splits if_splits)

lemma BindSamplerProc_shape: "BindSamplerProc cfg L res i v w = Inr w' \<Longrightarrow> WShape w' = WShape w"
  by (auto simp: BindSamplerProc_def VERIFY_def dest: CacheSampler_shape
           split: option.splits sum.splits if_splits)

lemma WShape_cong: "Cache w2 = Cache w \<Longrightarrow> WShape w2 = WShape w"
  by (simp add: WShape_def)

lemma CacheResourceView_shape:
  assumes run: "CacheResourceView cfg res tmpl obj r off h proc w = Inr w'"
    and proc: "\<And>v u u'. proc v u = Inr u' \<Longrightarrow> WShape u' = WShape u"
  shows "WShape w' = WShape w"
proof -
  from CacheResourceView_Inr [OF run]
  consider "w' = LOG_ERROR_MESSAGE IncorrectViewType w" | "w' = LOG_ERROR_MESSAGE IncorrectResourceType w"
    | hdl w2 w3 where "Cache w2 = Cache w"
       "Cache w3 = Cache (WriteSlot r off
                     \<lparr>Type = ResType res, CPUDescriptorHandle = hdl, pObject = Some obj\<rparr> w2)"
       "proc obj w3 = Inr w'"
    by blast
  then show ?thesis
  proof cases
    case 3
    have "WShape w' = WShape w3" by (rule proc [OF 3(3)])
    also have "\<dots> = WShape w2" using WShape_cong [OF 3(2)] by simp
    also have "\<dots> = WShape w" by (rule WShape_cong [OF 3(1)])
    finally show ?thesis .
  qed simp_all
qed

lemma BindResource_shape:
  assumes run: "BindResource cfg L res (Some obj) ArrayIndex w = Inr w'"
  shows "WShape w' = WShape w"
proof -
  from BindResource_Inr_entry [OF run] obtain c D where e: "Cache w = Some c"
    "ArrayIndex < BindCount (Attribs res)"
    "GetResource c (RootIndex res) (u32_add (OffsetFromTableStart res) ArrayIndex) = Inr D"
    "DbgVerifyResourceHandle cfg c res
               (ShaderVisibleTableCPUDescriptorHandle c D3D12_DESCRIPTOR_HEAP_TYPE_CBV_SRV_UAV
                  (RootIndex res) (u32_add (OffsetFromTableStart res) ArrayIndex)) = None"
    by blast
  note eq = run [unfolded BindResource_obj_eq [OF e, of L obj] Let_def]
  have triv: "\<And>v u u'. (\<lambda>p w'. Inr w') v u = Inr u' \<Longrightarrow> WShape u' = WShape u"
    by simp
  have procS: "\<And>v u u'. BindSamplerProc cfg L res ArrayIndex v u = Inr u' \<Longrightarrow> WShape u' = WShape u"
    by (rule BindSamplerProc_shape)
  let ?r = "RootIndex res" and ?o = "u32_add (OffsetFromTableStart res) ArrayIndex"
  let ?h = "ShaderVisibleTableCPUDescriptorHandle c D3D12_DESCRIPTOR_HEAP_TYPE_CBV_SRV_UAV ?r ?o"
  show ?thesis
  proof (cases "ResType res")
    case CBV
    with eq CacheCB_shape show ?thesis by simp
  next
    case TexSRV
    with eq have "CacheResourceView cfg res (AsTextureView TEXTURE_VIEW_SHADER_RESOURCE)
              obj ?r ?o ?h (BindSamplerProc cfg L res ArrayIndex) w = Inr w'" by simp
    from CacheResourceView_shape [OF this procS] show ?thesis .
  next
    case TexUAV
    with eq have "CacheResourceView cfg res (AsTextureView TEXTURE_VIEW_UNORDERED_ACCESS)
              obj ?r ?o ?h (\<lambda>p w'. Inr w') w = Inr w'" by simp
    from CacheResourceView_shape [OF this triv] show ?thesis .
  next
    case BufSRV
    with eq have "CacheResourceView cfg res (AsBufferView BUFFER_VIEW_SHADER_RESOURCE)
              obj ?r ?o ?h (\<lambda>p w'. Inr w') w = Inr w'" by simp
    from CacheResourceView_shape [OF this triv] show ?thesis .
  next
    case BufUAV
    with eq have "CacheResourceView cfg res (AsBufferView BUFFER_VIEW_UNORDERED_ACCESS)
              obj ?r ?o ?h (\<lambda>p w'. Inr w') w = Inr w'" by simp
    from CacheResourceView_shape [OF this triv] show ?thesis .
  qed (use eq in simp_all)
qed

text \<open>When the assertions hold and the object has its handles, binding returns.\<close>

lemma QueryView_usable:
  "QueryView tmpl obj = Some (ok, hdl) \<Longrightarrow> ObjectUsable obj \<Longrightarrow> hdl \<noteq> 0"
  by (cases tmpl; cases obj) auto

lemma CacheCB_succeeds:
  assumes "ReadSlot w r off = Inr D" and "ObjectUsable obj"
  shows "\<exists>w'. CacheCB res obj r off h w = Inr w'"
  using assms by (cases obj) (auto simp: CacheCB_def VERIFY_def Let_def)

lemma CacheSampler_succeeds:
  assumes "Cache w = Some c"
    and "BindPoint (SamAttribs Sam) \<noteq> InvalidBindPoint cfg"
    and "idx < BindCount (SamAttribs Sam)"
    and "InRange c (SamRootIndex Sam) (u32_add (SamOffsetFromTableStart Sam) idx)"
    and "DbgVerifySamplerHandle cfg c Sam False h = None"
    and "ObjectUsable v"
  shows "\<exists>w'. CacheSampler cfg Sam (Some v) idx h w = Inr w'"
proof -
  from assms(4) obtain D where
    D: "GetResource c (SamRootIndex Sam) (u32_add (SamOffsetFromTableStart Sam) idx) = Inr D"
    by (auto simp: InRange_def GetResource_def)
  show ?thesis
  proof (cases "GetViewSampler v")
    case None
    with assms D show ?thesis by (simp add: CacheSampler_def VERIFY_def)
  next
    case (Some smp)
    with assms(6) have "SamplerCPUDescriptorHandle smp \<noteq> 0" by (cases v) auto
    with assms D Some show ?thesis by (simp add: CacheSampler_def VERIFY_def Let_def)
  qed
qed

lemma BindSamplerProc_succeeds:
  assumes c: "Cache w = Some c" and chk: "BindSamplerChecks cfg L res i c" and u: "ObjectUsable v"
  shows "\<exists>w'. BindSamplerProc cfg L res i v w = Inr w'"
proof (cases "SamplerId res")
  case None
  then show ?thesis by (simp add: BindSamplerProc_def IsValidSampler_def)
next
  case (Some sid)
  with chk obtain Sam where S: "GetAssignedSampler cfg L res = Inr Sam"
    by (auto simp: BindSamplerChecks_def split: sum.splits)
  from chk Some S have f: "\<not> StaticSampler (SamAttribs Sam)"
      "BindCount (Attribs res) = BindCount (SamAttribs Sam) \<or> BindCount (SamAttribs Sam) = 1"
      "BindPoint (SamAttribs Sam) \<noteq> InvalidBindPoint cfg"
      "SamplerArrInd Sam i < BindCount (SamAttribs Sam)"
      "InRange c (SamRootIndex Sam) (u32_add (SamOffsetFromTableStart Sam) (SamplerArrInd Sam i))"
      "DbgVerifySamplerHandle cfg c Sam False
                    (ShaderVisibleTableCPUDescriptorHandle c D3D12_DESCRIPTOR_HEAP_TYPE_SAMPLER
                       (SamRootIndex Sam)
                       (u32_add (SamOffsetFromTableStart Sam) (SamplerArrInd Sam i))) = None"
    by (simp_all add: BindSamplerChecks_def)
  from CacheSampler_succeeds [OF c f(3) f(4) f(5) f(6) u]
  show ?thesis using Some S f(1,2) c
    by (simp add: BindSamplerProc_def IsValidSampler_def VERIFY_def)
qed

lemma CacheResourceView_succeeds:
  assumes D: "ReadSlot w r off = Inr D" and u: "ObjectUsable obj"
    and proc: "\<And>u. WShape u = WShape w \<Longrightarrow> \<exists>u'. proc obj u = Inr u'"
  shows "\<exists>w'. CacheResourceView cfg res tmpl obj r off h proc w = Inr w'"
proof (cases "QueryView tmpl obj")
  case None
  then show ?thesis by (simp add: CacheResourceView_def)
next
  case (Some p)
  obtain ok hdl where p: "p = (ok, hdl)" by (cases p)
  show ?thesis
  proof (cases "VERIFY_SHADER_BINDINGS cfg \<and> \<not> ok")
    case True
    with Some p show ?thesis by (simp add: CacheResourceView_def)
  next
    case False
    from QueryView_usable [OF Some [unfolded p] u] have hdl: "hdl \<noteq> 0" .
    let ?x = "\<lparr>Type = ResType res, CPUDescriptorHandle = hdl, pObject = Some obj\<rparr>"
    let ?w1 = "if VariableType (Attribs res) \<noteq> SHADER_VARIABLE_TYPE_DYNAMIC
                                \<and> pObject D \<noteq> None
                                \<and> \<not> SamePtr (pObject D) (Some obj)
                             then LOG_ERROR_MESSAGE ResourceAlreadyBound w else w"
    let ?w3 = "if h \<noteq> 0 then CopyDescriptorsSimple h hdl D3D12_DESCRIPTOR_HEAP_TYPE_CBV_SRV_UAV
                                (WriteSlot r off ?x ?w1)
               else WriteSlot r off ?x ?w1"
    have "WShape ?w3 = WShape w" by simp
    from proc [OF this] obtain u' where pr: "proc obj ?w3 = Inr u'" ..
    from False consider "\<not> VERIFY_SHADER_BINDINGS cfg" | "ok" by blast
    then have "CacheResourceView cfg res tmpl obj r off h proc w = Inr u'"
    proof cases
      case 1
      with pr Some p D hdl show ?thesis
        by (simp add: CacheResourceView_def VERIFY_def Let_def split del: if_split cong: if_cong)
    next
      case 2
      with pr Some p D hdl show ?thesis
        by (simp add: CacheResourceView_def VERIFY_def Let_def split del: if_split cong: if_cong)
    qed
    then show ?thesis ..
  qed
qed

lemma BindResource_succeeds:
  assumes c: "Cache w = Some c"
    and i: "ArrayIndex < BindCount (Attribs res)"
    and rng: "InRange c (RootIndex res) (u32_add (OffsetFromTableStart res) ArrayIndex)"
    and dbg: "DbgVerifyResourceHandle cfg c res
               (ShaderVisibleTableCPUDescriptorHandle c D3D12_DESCRIPTOR_HEAP_TYPE_CBV_SRV_UAV
                  (RootIndex res) (u32_add (OffsetFromTableStart res) ArrayIndex)) = None"
    and kind: "ResType res \<in> {CBV, TexSRV, TexUAV, BufSRV, BufUAV}"
    and u: "ObjectUsable obj"
    and sam: "BindSamplerChecks cfg L res ArrayIndex c"
  shows "\<exists>w'. BindResource cfg L res (Some obj) ArrayIndex w = Inr w'"
proof -
  let ?r = "RootIndex res" and ?o = "u32_add (OffsetFromTableStart res) ArrayIndex"
  let ?h = "ShaderVisibleTableCPUDescriptorHandle c D3D12_DESCRIPTOR_HEAP_TYPE_CBV_SRV_UAV ?r ?o"
  from rng obtain D where D: "GetResource c ?r ?o = Inr D"
    by (auto simp: InRange_def GetResource_def)
  then have R: "ReadSlot w ?r ?o = Inr D" using c by (simp add: ReadSlot_def)
  note eq = BindResource_obj_eq [OF c i D dbg, of L obj, unfolded Let_def]
  have triv: "\<And>u. WShape u = WShape w \<Longrightarrow> \<exists>u'. (\<lambda>p w'. Inr w') obj u = Inr u'"
    by simp
  have procS: "\<exists>u'. BindSamplerProc cfg L res ArrayIndex obj u = Inr u'" if "WShape u = WShape w" for u
  proof -
    from that c obtain c' where c': "Cache u = Some c'" "Shape c' = Shape c"
      by (auto simp: WShape_def)
    from sam BindSamplerChecks_shape [OF c'(2)] have "BindSamplerChecks cfg L res ArrayIndex c'" by simp
    from BindSamplerProc_succeeds [OF c'(1) this u] show ?thesis .
  qed
  from kind consider "ResType res = CBV" | "ResType res = TexSRV" | "ResType res = TexUAV"
    | "ResType res = BufSRV" | "ResType res = BufUAV" by auto
  then show ?thesis
  proof cases
    case 1
    with eq CacheCB_succeeds [OF R u] show ?thesis by simp
  next
    case 2
    from CacheResourceView_succeeds [where proc = "BindSamplerProc cfg L res ArrayIndex", OF R u procS] obtain w' where
      "CacheResourceView cfg res (AsTextureView TEXTURE_VIEW_SHADER_RESOURCE)
              obj ?r ?o ?h (BindSamplerProc cfg L res ArrayIndex) w = Inr w'" by blast
    with eq 2 show ?thesis by simp
  next
    case 3
    from CacheResourceView_succeeds [where proc = "\<lambda>p w'. Inr w'", OF R u triv] obtain w' where
      "CacheResourceView cfg res (AsTextureView TEXTURE_VIEW_UNORDERED_ACCESS)
              obj ?r ?o ?h (\<lambda>p w'. Inr w') w = Inr w'" by blast
    with eq 3 show ?thesis by simp
  next
    case 4
    from CacheResourceView_succeeds [where proc = "\<lambda>p w'. Inr w'", OF R u triv] obtain w' where
      "CacheResourceView cfg res (AsBufferView BUFFER_VIEW_SHADER_RESOURCE)
              obj ?r ?o ?h (\<lambda>p w'. Inr w') w = Inr w'" by blast
    with eq 4 show ?thesis by simp
  next
    case 5
    from CacheResourceView_succeeds [where proc = "\<lambda>p w'. Inr w'", OF R u triv] obtain w' where
      "CacheResourceView cfg res (AsBufferView BUFFER_VIEW_UNORDERED_ACCESS)
              obj ?r ?o ?h (\<lambda>p w'. Inr w') w = Inr w'" by blast
    with eq 5 show ?thesis by simp
  qed
qed

text \<open>The two loops of \<^verbatim>\<open>BindResources\<close> without flags.\<close>

lemma SlotReady_shape:
  assumes "Shape c = Shape c'"
  shows "SlotReady cfg L c res i = SlotReady cfg L c' res i"
  unfolding SlotReady_def
  by (simp only: InRange_shape [OF assms] DbgVerifyResourceHandle_shape [OF assms]
        ShaderVisible_shape [OF assms] BindSamplerChecks_shape [OF assms])

lemma BindSlot_NoFlags:
  "BindSlot cfg L M NoFlags Res ArrInd w =
     (case M (Name (Attribs Res)) ArrInd of
        Some pObj \<Rightarrow>
          (case BindResource cfg L Res (Some pObj) ArrInd w of
             Inl e \<Rightarrow> Inl e
           | Inr w2 \<Rightarrow> Inr (False, w2))
      | None \<Rightarrow> Inr (False, w))"
  by (simp add: BindSlot_def NoFlags_def)

lemma BindSlot_NoFlags_ready:
  assumes c: "Cache w = Some c" and i: "i < BindCount (Attribs res)"
    and ready: "SlotReady cfg L c res i" and sup: "Supplies M (ResType res) (Attribs res) i"
  shows "\<exists>w'. BindSlot cfg L M NoFlags res i w = Inr (False, w') \<and> WShape w' = WShape w
              \<and> (\<forall>pos. BoundAt w pos \<longrightarrow> BoundAt w' pos)
              \<and> BoundAt w' (RootIndex res, u32_add (OffsetFromTableStart res) i)"
proof -
  from sup obtain obj where obj: "M (Name (Attribs res)) i = Some obj"
    and cat: "CategoryMatches (ResType res) obj" and kind: "ViewKindMatches (ResType res) obj"
    and us: "ObjectUsable obj"
    by (auto simp: Supplies_def split: option.splits)
  from ready have r: "InRange c (RootIndex res) (u32_add (OffsetFromTableStart res) i)"
      "DbgVerifyResourceHandle cfg c res
           (ShaderVisibleTableCPUDescriptorHandle c D3D12_DESCRIPTOR_HEAP_TYPE_CBV_SRV_UAV
              (RootIndex res) (u32_add (OffsetFromTableStart res) i)) = None"
      "ResType res \<in> {CBV, TexSRV, TexUAV, BufSRV, BufUAV}"
      "BindSamplerChecks cfg L res i c"
    by (simp_all add: SlotReady_def)
  from BindResource_succeeds [OF c i r(1) r(2) r(3) us r(4)]
  obtain w' where run: "BindResource cfg L res (Some obj) i w = Inr w'" ..
  have "BindSlot cfg L M NoFlags res i w = Inr (False, w')"
    by (simp add: BindSlot_NoFlags obj run)
  moreover have "WShape w' = WShape w" by (rule BindResource_shape [OF run])
  moreover have "\<forall>pos. BoundAt w pos \<longrightarrow> BoundAt w' pos"
    using BindResource_keeps [OF run] by blast
  moreover have "BoundAt w' (RootIndex res, u32_add (OffsetFromTableStart res) i)"
    by (rule BindResource_establishes [OF run cat kind])
  ultimately show ?thesis by blast
qed

lemma SlotOK_shape: "Shape c = Shape c' \<Longrightarrow> SlotOK cfg L M c slot = SlotOK cfg L M c' slot"
  by (simp add: SlotOK_def SlotReady_shape [of c c'])

lemma BindSlots_NoFlags_ready:
  assumes "Cache w = Some c" and "\<And>slot. slot \<in> set slots \<Longrightarrow> SlotOK cfg L M c slot"
  shows "\<exists>w'. BindSlots cfg L M NoFlags slots w = Inr (False, w') \<and> WShape w' = WShape w
              \<and> (\<forall>pos. BoundAt w pos \<longrightarrow> BoundAt w' pos)
              \<and> (\<forall>slot \<in> set slots. BoundAt w' (SlotPos slot))"
  using assms
proof (induction slots arbitrary: w c)
  case Nil
  then show ?case by simp
next
  case (Cons slot slots)
  obtain res i where slot: "slot = (res, i)" by (cases slot)
  have "SlotOK cfg L M c slot" by (rule Cons.prems(2)) simp
  then have ok: "i < BindCount (Attribs res)" "SlotReady cfg L c res i"
      "Supplies M (ResType res) (Attribs res) i"
    by (simp_all add: SlotOK_def slot)
  from BindSlot_NoFlags_ready [OF Cons.prems(1) ok]
  obtain w1 where w1: "BindSlot cfg L M NoFlags res i w = Inr (False, w1)" "WShape w1 = WShape w"
      "\<forall>pos. BoundAt w pos \<longrightarrow> BoundAt w1 pos"
      "BoundAt w1 (RootIndex res, u32_add (OffsetFromTableStart res) i)"
    by blast
  from w1(2) Cons.prems(1) obtain c1 where c1: "Cache w1 = Some c1" "Shape c1 = Shape c"
    by (auto simp: WShape_def)
  have rest: "SlotOK cfg L M c1 s" if "s \<in> set slots" for s
  proof -
    have "SlotOK cfg L M c s" by (rule Cons.prems(2)) (simp add: that)
    then show ?thesis by (simp only: SlotOK_shape [OF c1(2)])
  qed
  from Cons.IH [OF c1(1) rest]
  obtain w2 where w2: "BindSlots cfg L M NoFlags slots w1 = Inr (False, w2)" "WShape w2 = WShape w1"
      "\<forall>pos. BoundAt w1 pos \<longrightarrow> BoundAt w2 pos"
      "\<forall>s \<in> set slots. BoundAt w2 (SlotPos s)"
    by blast
  have "BindSlots cfg L M NoFlags (slot # slots) w = Inr (False, w2)"
    by (simp add: slot w1(1) w2(1))
  moreover have "WShape w2 = WShape w" by (simp add: w2(2) w1(2))
  moreover have "\<forall>pos. BoundAt w pos \<longrightarrow> BoundAt w2 pos"
    using w1(3) w2(3) by blast
  moreover have "\<forall>s \<in> set (slot # slots). BoundAt w2 (SlotPos s)"
  proof
    fix s assume "s \<in> set (slot # slots)"
    then consider "s = slot" | "s \<in> set slots" by auto
    then show "BoundAt w2 (SlotPos s)"
    proof cases
      case 1
      from w1(4) have "BoundAt w1 (SlotPos slot)" by (simp add: SlotPos_def slot)
      with w2(3) 1 show ?thesis by blast
    next
      case 2
      with w2(4) show ?thesis by blast
    qed
  qed
  ultimately show ?case by blast
qed

lemma SlotsInOrder_member:
  "(res, i) \<in> set (SlotsInOrder rs) \<longleftrightarrow> res \<in> set rs \<and> i < BindCount (Attribs res)"
  by (induction rs) (auto simp: SlotsInOrder_def)

lemma BindResources_NoFlags_ready:
  assumes c: "Cache w = Some c"
    and ok: "\<And>res i. res \<in> set (AllSrvCbvUav L) \<Longrightarrow> i < BindCount (Attribs res) \<Longrightarrow>
                SlotReady cfg L c res i \<and> Supplies M (ResType res) (Attribs res) i"
  shows "\<exists>w'. BindResources cfg L (Some M) NoFlags w = Inr w'
              \<and> (\<forall>res \<in> set (AllSrvCbvUav L). \<forall>i < BindCount (Attribs res).
                    IsBound res i w' = Inr True)"
proof -
  have "SlotOK cfg L M c slot" if "slot \<in> set (SlotsInOrder (AllSrvCbvUav L))" for slot
  proof -
    obtain res i where slot: "slot = (res, i)" by (cases slot)
    with that have m: "res \<in> set (AllSrvCbvUav L)" "i < BindCount (Attribs res)"
      by (simp_all add: SlotsInOrder_member)
    from ok [OF m] m(2) show ?thesis by (simp add: SlotOK_def slot)
  qed
  from BindSlots_NoFlags_ready [OF c this]
  obtain w' where w': "BindSlots cfg L M NoFlags (SlotsInOrder (AllSrvCbvUav L)) w = Inr (False, w')"
      "\<forall>slot \<in> set (SlotsInOrder (AllSrvCbvUav L)). BoundAt w' (SlotPos slot)"
    by blast
  have run: "BindResources cfg L (Some M) NoFlags w = Inr w'"
    by (simp add: BindResources_def BindResources_loop_BindSlots w'(1))
  have "IsBound res i w' = Inr True"
    if "res \<in> set (AllSrvCbvUav L)" "i < BindCount (Attribs res)" for res i
  proof -
    from that have "(res, i) \<in> set (SlotsInOrder (AllSrvCbvUav L))"
      by (simp add: SlotsInOrder_member)
    with w'(2) have "BoundAt w' (SlotPos (res, i))" by blast
    then have "BoundAt w' (RootIndex res, u32_add (OffsetFromTableStart res) i)"
      by (simp add: SlotPos_def)
    from IsBound_BoundAt [OF that(2) this] show ?thesis .
  qed
  with run show ?thesis by blast
qed

text \<open>The second pass of \<^verbatim>\<open>Initialize\<close> without a root signature keeps the invariant.\<close>

lemma int_of_u32_small: "n < 2 ^ 31 \<Longrightarrow> int_of_u32 n = int n"
  by (simp add: int_of_u32_def)

lemma u32_add_small: "a + b < 2 ^ 32 \<Longrightarrow> u32_add a b = a + b"
  by (simp add: u32_add_def)

lemma int_of_u32_sum: "a + b < 2 ^ 31 \<Longrightarrow> int_of_u32 (u32_add a b) = int (a + b)"
proof -
  assume a: "a + b < 2 ^ 31"
  then have "a + b < (2 ^ 32 :: nat)" by simp
  then have "u32_add a b = a + b" by (rule u32_add_small)
  with a show ?thesis by (simp only: int_of_u32_small)
qed

lemma RangeType_lt_4: "GetDescriptorRangeType Kind = Inr rt \<Longrightarrow> rt < 4"
  by (cases Kind)
     (auto simp: D3D12_DESCRIPTOR_RANGE_TYPE_SRV_def D3D12_DESCRIPTOR_RANGE_TYPE_UAV_def
        D3D12_DESCRIPTOR_RANGE_TYPE_CBV_def D3D12_DESCRIPTOR_RANGE_TYPE_SAMPLER_def)

lemma SamplerInv_mono:
  assumes "SamplerInv R mbp A Sam"
    and "mbp ! D3D12_DESCRIPTOR_RANGE_TYPE_SAMPLER \<le> mbp' ! D3D12_DESCRIPTOR_RANGE_TYPE_SAMPLER"
  shows "SamplerInv R mbp' A Sam"
  using assms by (simp add: SamplerInv_def)

lemma BindingInv_mono:
  assumes inv: "BindingInv R items mbp sams res"
    and mbp: "\<And>k. k < 4 \<Longrightarrow> mbp ! k \<le> mbp' ! k"
    and sams: "\<And>VarType i. i < length (sams VarType) \<Longrightarrow>
                 i < length (sams' VarType) \<and> sams' VarType ! i = sams VarType ! i"
  shows "BindingInv R items mbp' sams' res"
proof -
  from inv have a: "(ResType res, Attribs res) \<in> set items"
      "GetDescriptorRangeType (ResType res) = Inr (RootIndex res)"
      "OffsetFromTableStart res = BindPoint (Attribs res)"
      "int (BindPoint (Attribs res) + BindCount (Attribs res)) \<le> mbp ! RootIndex res"
    by (simp_all add: BindingInv_def)
  from RangeType_lt_4 [OF a(2)] have "RootIndex res < 4" .
  from mbp [OF this] a(4)
  have b: "int (BindPoint (Attribs res) + BindCount (Attribs res)) \<le> mbp' ! RootIndex res"
    by simp
  have s3: "mbp ! D3D12_DESCRIPTOR_RANGE_TYPE_SAMPLER \<le> mbp' ! D3D12_DESCRIPTOR_RANGE_TYPE_SAMPLER"
    by (rule mbp) (simp add: D3D12_DESCRIPTOR_RANGE_TYPE_SAMPLER_def)
  show ?thesis
  proof (cases "SamplerId res")
    case None
    with a b show ?thesis by (simp add: BindingInv_def)
  next
    case (Some sid)
    with inv have c: "ResType res = TexSRV" "sid < length (sams (VariableType (Attribs res)))"
        "SamplerInv R mbp (Attribs res) (sams (VariableType (Attribs res)) ! sid)"
      by (simp_all add: BindingInv_def)
    from sams [OF c(2)] have d: "sid < length (sams' (VariableType (Attribs res)))"
        "sams' (VariableType (Attribs res)) ! sid = sams (VariableType (Attribs res)) ! sid"
      by simp_all
    from SamplerInv_mono [OF c(3) s3] d(2)
    have "SamplerInv R mbp' (Attribs res) (sams' (VariableType (Attribs res)) ! sid)" by simp
    with a b c(1) d(1) Some show ?thesis by (simp add: BindingInv_def)
  qed
qed

lemma AddResource_static_Inr:
  assumes "RootSig st = None" and "AddResource cfg ops sh A Kind SamId st = Inr st'"
  shows "\<exists>rt. GetDescriptorRangeType Kind = Inr rt
           \<and> st' = st\<lparr>MaxBindPoint := (MaxBindPoint st)
                         [rt := max (MaxBindPoint st ! rt)
                                    (int_of_u32 (u32_add (BindPoint A) (BindCount A)))],
                      CurrCbvSrvUav := (CurrCbvSrvUav st)
                         (VariableType A := CurrCbvSrvUav st (VariableType A) @
                            [\<lparr>Attribs = A, ResType = Kind, RootIndex = rt,
                              OffsetFromTableStart = BindPoint A, SamplerId = SamId\<rparr>])\<rparr>"
  using assms
  by (auto simp: AddResource_def VERIFY_def split: sum.splits if_splits)

lemma max_update_ge:
  fixes mbp :: "int list"
  shows "mbp ! k \<le> mbp [rt := max (mbp ! rt) v] ! k"
  by (cases "rt < length mbp") (simp_all add: nth_list_update list_update_beyond)

lemma AddResource_inv:
  assumes inv: "InitInv R items st" and mem: "(Kind, A) \<in> set items"
    and nowrap: "BindPoint A + BindCount A < 2 ^ 31"
    and sam: "case SamId of
                None \<Rightarrow> True
              | Some sid \<Rightarrow> Kind = TexSRV \<and> sid < length (CurrSampler st (VariableType A))
                           \<and> SamplerInv R (MaxBindPoint st) A (CurrSampler st (VariableType A) ! sid)"
    and run: "AddResource cfg ops sh A Kind SamId st = Inr st'"
  shows "InitInv R items st'"
proof -
  from inv have i: "RootSig st = None" "length (MaxBindPoint st) = 4"
      "\<forall>k < 4. MaxBindPoint st ! k < 2 ^ 31"
      "\<forall>VarType. \<forall>res \<in> set (CurrCbvSrvUav st VarType).
            BindingInv R items (MaxBindPoint st) (CurrSampler st) res"
    by (simp_all add: InitInv_def)
  let ?v = "int_of_u32 (u32_add (BindPoint A) (BindCount A))"
  from int_of_u32_sum [OF nowrap] have v: "?v = int (BindPoint A + BindCount A)" .
  from AddResource_static_Inr [OF i(1) run] obtain rt where
    rt: "GetDescriptorRangeType Kind = Inr rt" and
    st': "st' = st\<lparr>MaxBindPoint := (MaxBindPoint st) [rt := max (MaxBindPoint st ! rt) ?v],
                   CurrCbvSrvUav := (CurrCbvSrvUav st)
                     (VariableType A := CurrCbvSrvUav st (VariableType A) @
                        [\<lparr>Attribs = A, ResType = Kind, RootIndex = rt,
                          OffsetFromTableStart = BindPoint A, SamplerId = SamId\<rparr>])\<rparr>"
    by blast
  let ?mbp = "(MaxBindPoint st) [rt := max (MaxBindPoint st ! rt) ?v]"
  let ?new = "\<lparr>Attribs = A, ResType = Kind, RootIndex = rt,
               OffsetFromTableStart = BindPoint A, SamplerId = SamId\<rparr>"
  from RangeType_lt_4 [OF rt] have rt4: "rt < 4" .
  have ge: "MaxBindPoint st ! k \<le> ?mbp ! k" for k by (rule max_update_ge)
  have at: "?mbp ! rt = max (MaxBindPoint st ! rt) ?v" using rt4 i(2) by simp
  have bound: "?mbp ! k < 2 ^ 31" if "k < 4" for k
  proof (cases "k = rt")
    case True
    from i(3) rt4 have "MaxBindPoint st ! rt < 2 ^ 31" by blast
    moreover from nowrap have "int (BindPoint A + BindCount A) < 2 ^ 31" by simp
    ultimately show ?thesis using True at v by simp
  next
    case False
    with i(3) that show ?thesis by simp
  qed
  have old: "BindingInv R items ?mbp (CurrSampler st) res"
    if "res \<in> set (CurrCbvSrvUav st VarType)" for res VarType
  proof -
    from i(4) that have "BindingInv R items (MaxBindPoint st) (CurrSampler st) res" by blast
    then show ?thesis by (rule BindingInv_mono) (simp_all add: ge)
  qed
  have new: "BindingInv R items ?mbp (CurrSampler st) ?new"
  proof -
    have le: "int (BindPoint A + BindCount A) \<le> ?mbp ! rt" using at v by simp
    show ?thesis
    proof (cases SamId)
      case None
      with mem rt le show ?thesis by (simp add: BindingInv_def)
    next
      case (Some sid)
      with sam have s: "Kind = TexSRV" "sid < length (CurrSampler st (VariableType A))"
          "SamplerInv R (MaxBindPoint st) A (CurrSampler st (VariableType A) ! sid)"
        by simp_all
      from SamplerInv_mono [OF s(3) ge]
      have "SamplerInv R ?mbp A (CurrSampler st (VariableType A) ! sid)" .
      with mem rt le s(1,2) Some show ?thesis by (simp add: BindingInv_def)
    qed
  qed
  have all: "BindingInv R items (MaxBindPoint st') (CurrSampler st') res"
    if "res \<in> set (CurrCbvSrvUav st' VarType)" for res VarType
  proof -
    from that st' consider "res \<in> set (CurrCbvSrvUav st VarType)" | "res = ?new"
      by (auto split: if_splits)
    then show ?thesis
    proof cases
      case 1
      from old [OF 1] show ?thesis by (simp add: st')
    next
      case 2
      with new show ?thesis by (simp add: st')
    qed
  qed
  have "RootSig st' = None" by (simp add: st' i(1))
  moreover have "length (MaxBindPoint st') = 4" by (simp add: st' i(2))
  moreover have "\<forall>k < 4. MaxBindPoint st' ! k < 2 ^ 31" using bound by (simp add: st')
  ultimately show ?thesis using all by (simp add: InitInv_def)
qed

lemma AddTexSRV_static_cases:
  assumes rs: "RootSig st = None" and run: "AddTexSRV cfg ops R A st = Inr st'"
  shows "(AttribSamplerId A = None \<and> AddResource cfg ops (ShaderType R) A TexSRV None st = Inr st')
       \<or> (\<exists>src S. AttribSamplerId A = Some src \<and> GetResSampler R src = Inr S
             \<and> VariableType S = VariableType A \<and> StaticSampler S
             \<and> AddResource cfg ops (ShaderType R) A TexSRV None (st\<lparr>RootSig := None\<rparr>) = Inr st')
       \<or> (\<exists>src S. AttribSamplerId A = Some src \<and> GetResSampler R src = Inr S
             \<and> VariableType S = VariableType A \<and> \<not> StaticSampler S
             \<and> AddResource cfg ops (ShaderType R) A TexSRV
                  (Some (length (CurrSampler st (VariableType A))))
                  (st\<lparr>MaxBindPoint := (MaxBindPoint st)
                         [D3D12_DESCRIPTOR_RANGE_TYPE_SAMPLER :=
                            max (MaxBindPoint st ! D3D12_DESCRIPTOR_RANGE_TYPE_SAMPLER)
                                (int_of_u32 (u32_add (BindPoint S) (BindCount S)))],
                      CurrSampler := (CurrSampler st)
                         (VariableType A := CurrSampler st (VariableType A) @
                            [\<lparr>SamAttribs = S, SamRootIndex = D3D12_DESCRIPTOR_RANGE_TYPE_SAMPLER,
                              SamOffsetFromTableStart = BindPoint S\<rparr>])\<rparr>) = Inr st')"
proof (cases "AttribSamplerId A")
  case None
  with run show ?thesis by (simp add: AddTexSRV_def)
next
  case (Some src)
  with run obtain S where S: "GetResSampler R src = Inr S"
    by (cases "GetResSampler R src") (simp_all add: AddTexSRV_def)
  from run Some S have vt: "VariableType S = VariableType A"
    by (simp add: AddTexSRV_def VERIFY_def split: if_splits)
  show ?thesis
  proof (cases "StaticSampler S")
    case True
    with run Some S vt rs show ?thesis by (simp add: AddTexSRV_def VERIFY_def)
  next
    case False
    with run Some S vt rs show ?thesis
      by (simp add: AddTexSRV_def VERIFY_def Let_def split: if_splits)
  qed
qed

lemma InitInv_RootSig_None: "InitInv R items (st\<lparr>RootSig := None\<rparr>) = InitInv R items st"
  if "RootSig st = None"
  using that by (simp add: InitInv_def)

lemma AddTexSRV_inv:
  assumes inv: "InitInv R items st" and mem: "(TexSRV, A) \<in> set items"
    and wf: "AttribsWellFormed cfg R TexSRV A"
    and run: "AddTexSRV cfg ops R A st = Inr st'"
  shows "InitInv R items st'"
proof -
  from inv have i: "RootSig st = None" "length (MaxBindPoint st) = 4"
      "\<forall>k < 4. MaxBindPoint st ! k < 2 ^ 31"
      "\<forall>VarType. \<forall>res \<in> set (CurrCbvSrvUav st VarType).
            BindingInv R items (MaxBindPoint st) (CurrSampler st) res"
    by (simp_all add: InitInv_def)
  from wf have nowrap: "BindPoint A + BindCount A < 2 ^ 31" by (simp add: AttribsWellFormed_def)
  from AddTexSRV_static_cases [OF i(1) run]
  consider (none) "AddResource cfg ops (ShaderType R) A TexSRV None st = Inr st'"
    | (static) "AddResource cfg ops (ShaderType R) A TexSRV None (st\<lparr>RootSig := None\<rparr>) = Inr st'"
    | (sampler) src S where "AttribSamplerId A = Some src" "GetResSampler R src = Inr S"
        "VariableType S = VariableType A" "\<not> StaticSampler S"
        "AddResource cfg ops (ShaderType R) A TexSRV
                  (Some (length (CurrSampler st (VariableType A))))
                  (st\<lparr>MaxBindPoint := (MaxBindPoint st)
                         [D3D12_DESCRIPTOR_RANGE_TYPE_SAMPLER :=
                            max (MaxBindPoint st ! D3D12_DESCRIPTOR_RANGE_TYPE_SAMPLER)
                                (int_of_u32 (u32_add (BindPoint S) (BindCount S)))],
                      CurrSampler := (CurrSampler st)
                         (VariableType A := CurrSampler st (VariableType A) @
                            [\<lparr>SamAttribs = S, SamRootIndex = D3D12_DESCRIPTOR_RANGE_TYPE_SAMPLER,
                              SamOffsetFromTableStart = BindPoint S\<rparr>])\<rparr>) = Inr st'"
    by blast
  then show ?thesis
  proof cases
    case none
    show ?thesis by (rule AddResource_inv [OF inv mem nowrap _ none]) simp
  next
    case static
    from inv InitInv_RootSig_None [OF i(1), of R items]
    have "InitInv R items (st\<lparr>RootSig := None\<rparr>)" by simp
    then show ?thesis by (rule AddResource_inv [OF _ mem nowrap _ static]) simp
  next
    case sampler
    let ?s = D3D12_DESCRIPTOR_RANGE_TYPE_SAMPLER
    let ?v = "int_of_u32 (u32_add (BindPoint S) (BindCount S))"
    let ?mbp = "(MaxBindPoint st) [?s := max (MaxBindPoint st ! ?s) ?v]"
    let ?Sam = "\<lparr>SamAttribs = S, SamRootIndex = ?s, SamOffsetFromTableStart = BindPoint S\<rparr>"
    let ?sams = "(CurrSampler st) (VariableType A := CurrSampler st (VariableType A) @ [?Sam])"
    let ?st2 = "st\<lparr>MaxBindPoint := ?mbp, CurrSampler := ?sams\<rparr>"
    from wf sampler(1,2,4) have nowrapS: "BindPoint S + BindCount S < 2 ^ 31"
      by (simp add: AttribsWellFormed_def)
    from int_of_u32_sum [OF nowrapS] have v: "?v = int (BindPoint S + BindCount S)" .
    have s4: "?s < 4" by (simp add: D3D12_DESCRIPTOR_RANGE_TYPE_SAMPLER_def)
    have ge: "MaxBindPoint st ! k \<le> ?mbp ! k" for k by (rule max_update_ge)
    have at: "?mbp ! ?s = max (MaxBindPoint st ! ?s) ?v" using s4 i(2) by simp
    have bound: "?mbp ! k < 2 ^ 31" if "k < 4" for k
    proof (cases "k = ?s")
      case True
      from i(3) s4 have "MaxBindPoint st ! ?s < 2 ^ 31" by blast
      moreover from nowrapS have "int (BindPoint S + BindCount S) < 2 ^ 31" by simp
      ultimately show ?thesis using True at v by simp
    next
      case False
      with i(3) that show ?thesis by simp
    qed
    have ext: "i < length (?sams VarType) \<and> ?sams VarType ! i = CurrSampler st VarType ! i"
      if "i < length (CurrSampler st VarType)" for VarType i
      using that by (cases "VarType = VariableType A") (simp_all add: nth_append)
    have old: "BindingInv R items ?mbp ?sams res"
      if "res \<in> set (CurrCbvSrvUav st VarType)" for res VarType
    proof -
      from i(4) that have "BindingInv R items (MaxBindPoint st) (CurrSampler st) res" by blast
      then show ?thesis by (rule BindingInv_mono) (rule ge, rule ext)
    qed
    have inv2: "InitInv R items ?st2"
      using old bound i(1,2) by (simp add: InitInv_def)
    have new: "SamplerInv R ?mbp A ?Sam"
      using sampler(1,2,3,4) at v by (simp add: SamplerInv_def)
    have cond: "case Some (length (CurrSampler st (VariableType A))) of
                None \<Rightarrow> True
              | Some sid \<Rightarrow> TexSRV = TexSRV \<and> sid < length (CurrSampler ?st2 (VariableType A))
                           \<and> SamplerInv R (MaxBindPoint ?st2) A (CurrSampler ?st2 (VariableType A) ! sid)"
      using new by simp
    show ?thesis by (rule AddResource_inv [OF inv2 mem nowrap cond sampler(5)])
  qed
qed

lemma AddResources_inv:
  assumes "InitInv R items st" and "set xs \<subseteq> set items"
    and "\<And>Kind A. (Kind, A) \<in> set items \<Longrightarrow> AttribsWellFormed cfg R Kind A"
    and "AddResources cfg ops R xs st = Inr st'"
  shows "InitInv R items st'"
  using assms(1,2,4)
proof (induction xs arbitrary: st)
  case Nil
  then show ?case by simp
next
  case (Cons x xs)
  obtain Kind A where x: "x = (Kind, A)" by (cases x)
  from Cons.prems(2) x have mem: "(Kind, A) \<in> set items" and sub: "set xs \<subseteq> set items" by simp_all
  from assms(3) [OF mem] have wf: "AttribsWellFormed cfg R Kind A" .
  from Cons.prems(3) x obtain st1 where
    st1: "(if Kind = TexSRV then AddTexSRV cfg ops R A st
           else AddResource cfg ops (ShaderType R) A Kind None st) = Inr st1"
    and rest: "AddResources cfg ops R xs st1 = Inr st'"
    by (simp split: sum.splits)
  have "InitInv R items st1"
  proof (cases "Kind = TexSRV")
    case True
    with st1 have "AddTexSRV cfg ops R A st = Inr st1" by simp
    from AddTexSRV_inv [OF Cons.prems(1) mem [unfolded True] wf [unfolded True] this]
    show ?thesis .
  next
    case False
    with st1 have r: "AddResource cfg ops (ShaderType R) A Kind None st = Inr st1" by simp
    from wf have "BindPoint A + BindCount A < 2 ^ 31" by (simp add: AttribsWellFormed_def)
    from AddResource_inv [OF Cons.prems(1) mem this _ r] show ?thesis by simp
  qed
  from Cons.IH [OF this sub rest] show ?case .
qed

text \<open>After \<^verbatim>\<open>Initialize\<close> every slot of every binding passes the assertions.\<close>

lemma ProcessResources_kinds:
  "(Kind, A) \<in> set (ProcessResources AllowedVarTypes R) \<Longrightarrow> Kind \<in> {CBV, TexSRV, TexUAV, BufSRV, BufUAV}"
  by (auto simp: ProcessResources_def Let_def)

lemma nth_four:
  fixes f :: "nat \<Rightarrow> 'a"
  assumes "r < 4"
  shows "[f 0, f 1, f 2, f 3] ! r = f r"
proof -
  from assms have "r = 0 \<or> r = 1 \<or> r = 2 \<or> r = 3" by arith
  then show ?thesis by (elim disjE) simp_all
qed

lemma u32_of_int_succ:
  assumes "0 \<le> m" and "m < 2 ^ 31"
  shows "u32_of_int (m + 1) = nat (m + 1)"
proof -
  from assms have "0 \<le> m + 1" "m + 1 < 2 ^ 32" by simp_all
  then have "(m + 1) mod 2 ^ 32 = m + 1" by (rule mod_pos_pos_trivial)
  then show ?thesis by (simp add: u32_of_int_def)
qed

lemma StaticTableSizes_nth: "r < 4 \<Longrightarrow> StaticTableSizes mbp ! r = u32_of_int (mbp ! r + 1)"
  unfolding StaticTableSizes_def D3D12_DESCRIPTOR_RANGE_TYPE_SRV_def
    D3D12_DESCRIPTOR_RANGE_TYPE_UAV_def D3D12_DESCRIPTOR_RANGE_TYPE_CBV_def
    D3D12_DESCRIPTOR_RANGE_TYPE_SAMPLER_def
  by (rule nth_four [where f = "\<lambda>k. u32_of_int (mbp ! k + 1)"])

lemma InRange_static:
  assumes tables: "map length (RootTables c) = StaticTableSizes mbp"
    and r: "r < 4" and le: "int (bp + bc) \<le> mbp ! r" and lt: "mbp ! r < 2 ^ 31" and i: "i < bc"
  shows "InRange c r (u32_add bp i)"
proof -
  have "length (map length (RootTables c)) = length (StaticTableSizes mbp)"
    by (simp only: tables)
  then have len: "length (RootTables c) = 4" by (simp add: StaticTableSizes_def)
  from le have nn: "0 \<le> mbp ! r" by simp
  from tables r len have "length (RootTables c ! r) = StaticTableSizes mbp ! r"
    by (metis nth_map)
  also have "\<dots> = nat (mbp ! r + 1)"
    by (simp only: StaticTableSizes_nth [OF r] u32_of_int_succ [OF nn lt])
  finally have sz: "length (RootTables c ! r) = nat (mbp ! r + 1)" .
  from le lt have "bp + bc < 2 ^ 31" by simp
  with i have "bp + i < 2 ^ 32" by simp
  then have u: "u32_add bp i = bp + i" by (rule u32_add_small)
  from le i have "bp + i < nat (mbp ! r + 1)" by simp
  with sz u len r show ?thesis by (simp add: InRange_def GetNumRootTables_def)
qed

lemma InitInv_SlotReady:
  assumes inv: "InitInv R items st"
    and wf: "\<And>Kind A. (Kind, A) \<in> set items \<Longrightarrow> AttribsWellFormed cfg R Kind A"
    and kinds: "\<And>Kind A. (Kind, A) \<in> set items \<Longrightarrow> Kind \<in> {CBV, TexSRV, TexUAV, BufSRV, BufUAV}"
    and dbg_type: "DEBUG cfg \<Longrightarrow> DbgContentType c = StaticShaderResources"
    and dbg_handle: "\<And>heap r off. DEBUG cfg \<Longrightarrow> ShaderVisibleTableCPUDescriptorHandle c heap r off = 0"
    and tables: "map length (RootTables c) = StaticTableSizes (MaxBindPoint st)"
    and L1: "m_SrvCbvUav L = CurrCbvSrvUav st" and L2: "m_Samplers L = CurrSampler st"
    and res: "res \<in> set (CurrCbvSrvUav st VarType)" and i: "i < BindCount (Attribs res)"
  shows "SlotReady cfg L c res i"
proof -
  let ?mbp = "MaxBindPoint st" and ?A = "Attribs res"
  from inv have bound: "\<forall>k < 4. ?mbp ! k < 2 ^ 31"
    and all: "\<forall>VarType. \<forall>res \<in> set (CurrCbvSrvUav st VarType).
                 BindingInv R items ?mbp (CurrSampler st) res"
    by (simp_all add: InitInv_def)
  from all res have b: "BindingInv R items ?mbp (CurrSampler st) res" by blast
  then have a: "(ResType res, ?A) \<in> set items"
      "GetDescriptorRangeType (ResType res) = Inr (RootIndex res)"
      "OffsetFromTableStart res = BindPoint ?A"
      "int (BindPoint ?A + BindCount ?A) \<le> ?mbp ! RootIndex res"
    by (simp_all add: BindingInv_def)
  from RangeType_lt_4 [OF a(2)] have r4: "RootIndex res < 4" .
  from bound r4 have lt: "?mbp ! RootIndex res < 2 ^ 31" by blast
  from InRange_static [OF tables r4 a(4) lt i]
  have rng: "InRange c (RootIndex res) (u32_add (OffsetFromTableStart res) i)"
    by (simp only: a(3))
  have dbg: "DbgVerifyResourceHandle cfg c res h = None"
    if "DEBUG cfg \<Longrightarrow> h = 0" for h
    using that dbg_type by (cases "DEBUG cfg") (simp_all add: DbgVerifyResourceHandle_def)
  have dbgR: "DbgVerifyResourceHandle cfg c res
           (ShaderVisibleTableCPUDescriptorHandle c D3D12_DESCRIPTOR_HEAP_TYPE_CBV_SRV_UAV
              (RootIndex res) (u32_add (OffsetFromTableStart res) i)) = None"
    by (rule dbg) (rule dbg_handle)
  have sam: "BindSamplerChecks cfg L res i c"
  proof (cases "SamplerId res")
    case None
    then show ?thesis by (simp add: BindSamplerChecks_def)
  next
    case (Some sid)
    let ?vt = "VariableType ?A"
    let ?Sam = "CurrSampler st ?vt ! sid"
    let ?S = "SamAttribs ?Sam"
    from b Some have s: "ResType res = TexSRV" "sid < length (CurrSampler st ?vt)"
        "SamplerInv R ?mbp ?A ?Sam"
      by (simp_all add: BindingInv_def)
    from s(3) obtain src where src: "AttribSamplerId ?A = Some src" "GetResSampler R src = Inr ?S"
      by (cases "AttribSamplerId ?A") (simp_all add: SamplerInv_def)
    from s(3) have si: "\<not> StaticSampler ?S" "VariableType ?S = ?vt"
        "SamRootIndex ?Sam = D3D12_DESCRIPTOR_RANGE_TYPE_SAMPLER"
        "SamOffsetFromTableStart ?Sam = BindPoint ?S"
        "int (BindPoint ?S + BindCount ?S) \<le> ?mbp ! D3D12_DESCRIPTOR_RANGE_TYPE_SAMPLER"
      by (simp_all add: SamplerInv_def)
    from wf [OF a(1)] s(1) src si(1)
    have w: "Name ?S = Name ?A @ D3DSamplerSuffix cfg" "BindPoint ?S \<noteq> InvalidBindPoint cfg"
        "BindCount ?A = BindCount ?S \<or> BindCount ?S = 1"
      by (simp_all add: AttribsWellFormed_def)
    have get: "GetAssignedSampler cfg L res = Inr ?Sam"
      using s(1,2) Some si(2) w(1)
      by (simp add: GetAssignedSampler_def GetSampler_def m_NumSamplers_def L2 VERIFY_def)
    have idx: "SamplerArrInd ?Sam i < BindCount ?S"
      using w(3) i by (auto simp: SamplerArrInd_def)
    have s4: "D3D12_DESCRIPTOR_RANGE_TYPE_SAMPLER < 4"
      by (simp add: D3D12_DESCRIPTOR_RANGE_TYPE_SAMPLER_def)
    from bound s4 have lt3: "?mbp ! D3D12_DESCRIPTOR_RANGE_TYPE_SAMPLER < 2 ^ 31" by blast
    from InRange_static [OF tables s4 si(5) lt3 idx]
    have rngS: "InRange c (SamRootIndex ?Sam)
                  (u32_add (SamOffsetFromTableStart ?Sam) (SamplerArrInd ?Sam i))"
      by (simp only: si(3,4))
    have dbgS: "DbgVerifySamplerHandle cfg c ?Sam False
                  (ShaderVisibleTableCPUDescriptorHandle c D3D12_DESCRIPTOR_HEAP_TYPE_SAMPLER
                     (SamRootIndex ?Sam)
                     (u32_add (SamOffsetFromTableStart ?Sam) (SamplerArrInd ?Sam i))) = None"
      using dbg_type dbg_handle by (cases "DEBUG cfg") (simp_all add: DbgVerifySamplerHandle_def)
    show ?thesis
      unfolding BindSamplerChecks_def Some get
      using si(1) w(2,3) idx rngS dbgS by simp
  qed
  from rng dbgR kinds [OF a(1)] sam show ?thesis by (simp add: SlotReady_def)
qed

lemma Initialize_static_Inr:
  assumes "Initialize cfg ops R AllowedVarTypes None w = Inr (L, rs, w0)"
  shows "\<exists>c st. Cache w = Some c
           \<and> AddResources cfg ops R (ProcessResources AllowedVarTypes R)
                \<lparr>CurrCbvSrvUav = (\<lambda>VarType. []), CurrSampler = (\<lambda>VarType. []),
                 MaxBindPoint = [-1, -1, -1, -1], RootSig = None\<rparr> = Inr st
           \<and> L = \<lparr>m_SrvCbvUav = CurrCbvSrvUav st, m_Samplers = CurrSampler st,
                  m_ShaderType = ShaderType R\<rparr>
           \<and> w0 = w\<lparr>Cache := Some (c\<lparr>RootTables := map (\<lambda>n. replicate n NullResource)
                                                      (StaticTableSizes (MaxBindPoint st))\<rparr>)\<rparr>"
  using assms
  by (auto simp: Initialize_def VERIFY_def CacheInitialize_def StaticTableSizes_def Let_def
           split: sum.splits option.splits if_splits prod.splits)

lemma InitInv_start:
  "InitInv R items \<lparr>CurrCbvSrvUav = (\<lambda>VarType. []), CurrSampler = (\<lambda>VarType. []),
                    MaxBindPoint = [-1, -1, -1, -1], RootSig = None\<rparr>"
proof -
  have "[-1, -1, -1, -1 :: int] ! k < 2 ^ 31" if "k < 4" for k
  proof -
    from that have "k = 0 \<or> k = 1 \<or> k = 2 \<or> k = 3" by arith
    then show ?thesis by (elim disjE) simp_all
  qed
  then show ?thesis by (simp add: InitInv_def)
qed

lemma AllSrvCbvUav_member:
  "res \<in> set (AllSrvCbvUav L) \<Longrightarrow> \<exists>VarType. res \<in> set (m_SrvCbvUav L VarType)"
  by (auto simp: AllSrvCbvUav_def)

text \<open>Every processed resource gets a binding.\<close>

lemma Covered_Grows: "Covered st x \<Longrightarrow> Grows st st' \<Longrightarrow> Covered st' x"
  unfolding Covered_def Grows_def by blast

lemma Grows_trans: "Grows st st1 \<Longrightarrow> Grows st1 st2 \<Longrightarrow> Grows st st2"
  unfolding Grows_def by blast

lemma AddResource_covers:
  assumes rs: "RootSig st = None" and run: "AddResource cfg ops sh A Kind SamId st = Inr st'"
  shows "Grows st st' \<and> Covered st' (Kind, A)"
proof -
  from AddResource_static_Inr [OF rs run] obtain rt where
    st': "st' = st\<lparr>MaxBindPoint := (MaxBindPoint st)
                         [rt := max (MaxBindPoint st ! rt)
                                    (int_of_u32 (u32_add (BindPoint A) (BindCount A)))],
                   CurrCbvSrvUav := (CurrCbvSrvUav st)
                     (VariableType A := CurrCbvSrvUav st (VariableType A) @
                        [\<lparr>Attribs = A, ResType = Kind, RootIndex = rt,
                          OffsetFromTableStart = BindPoint A, SamplerId = SamId\<rparr>])\<rparr>"
    by blast
  have "Grows st st'" by (auto simp: Grows_def st' rs)
  moreover have "Covered st' (Kind, A)" by (simp add: Covered_def st')
  ultimately show ?thesis ..
qed

lemma AddTexSRV_covers:
  assumes rs: "RootSig st = None" and run: "AddTexSRV cfg ops R A st = Inr st'"
  shows "Grows st st' \<and> Covered st' (TexSRV, A)"
proof -
  from AddTexSRV_static_cases [OF rs run]
  obtain st2 SamId where st2: "RootSig st2 = None" "CurrCbvSrvUav st2 = CurrCbvSrvUav st"
      "AddResource cfg ops (ShaderType R) A TexSRV SamId st2 = Inr st'"
  proof (elim disjE exE conjE)
    assume "AddResource cfg ops (ShaderType R) A TexSRV None st = Inr st'"
    with rs show thesis by (rule that [OF _ refl])
  next
    assume a: "AddResource cfg ops (ShaderType R) A TexSRV None (st\<lparr>RootSig := None\<rparr>) = Inr st'"
    show thesis by (rule that [OF _ _ a]) simp_all
  next
    fix src S
    assume a: "AddResource cfg ops (ShaderType R) A TexSRV
                  (Some (length (CurrSampler st (VariableType A))))
                  (st\<lparr>MaxBindPoint := (MaxBindPoint st)
                         [D3D12_DESCRIPTOR_RANGE_TYPE_SAMPLER :=
                            max (MaxBindPoint st ! D3D12_DESCRIPTOR_RANGE_TYPE_SAMPLER)
                                (int_of_u32 (u32_add (BindPoint S) (BindCount S)))],
                      CurrSampler := (CurrSampler st)
                         (VariableType A := CurrSampler st (VariableType A) @
                            [\<lparr>SamAttribs = S, SamRootIndex = D3D12_DESCRIPTOR_RANGE_TYPE_SAMPLER,
                              SamOffsetFromTableStart = BindPoint S\<rparr>])\<rparr>) = Inr st'"
    show thesis by (rule that [OF _ _ a]) (simp_all add: rs)
  qed
  from AddResource_covers [OF st2(1,3)] have "Grows st2 st'" "Covered st' (TexSRV, A)" by simp_all
  moreover from this(1) have "Grows st st'" by (simp add: Grows_def st2(2))
  ultimately show ?thesis by simp
qed

lemma AddResources_covers:
  assumes "RootSig st = None" and "AddResources cfg ops R xs st = Inr st'"
  shows "Grows st st' \<and> (\<forall>x \<in> set xs. Covered st' x)"
  using assms
proof (induction xs arbitrary: st)
  case Nil
  then show ?case by (simp add: Grows_def)
next
  case (Cons x xs)
  obtain Kind A where x: "x = (Kind, A)" by (cases x)
  from Cons.prems(2) x obtain st1 where
    st1: "(if Kind = TexSRV then AddTexSRV cfg ops R A st
           else AddResource cfg ops (ShaderType R) A Kind None st) = Inr st1"
    and rest: "AddResources cfg ops R xs st1 = Inr st'"
    by (simp split: sum.splits)
  have one: "Grows st st1 \<and> Covered st1 (Kind, A)"
  proof (cases "Kind = TexSRV")
    case True
    with st1 have "AddTexSRV cfg ops R A st = Inr st1" by simp
    from AddTexSRV_covers [OF Cons.prems(1) this] True show ?thesis by simp
  next
    case False
    with st1 have "AddResource cfg ops (ShaderType R) A Kind None st = Inr st1" by simp
    from AddResource_covers [OF Cons.prems(1) this] show ?thesis .
  qed
  then have g1: "Grows st st1" and c1: "Covered st1 (Kind, A)" by simp_all
  from g1 have "RootSig st1 = None" by (simp add: Grows_def)
  from Cons.IH [OF this rest] have g2: "Grows st1 st'" and c2: "\<forall>x \<in> set xs. Covered st' x"
    by simp_all
  from Grows_trans [OF g1 g2] have "Grows st st'" .
  moreover have "\<forall>y \<in> set (x # xs). Covered st' y"
  proof
    fix y assume "y \<in> set (x # xs)"
    then consider "y = x" | "y \<in> set xs" by auto
    then show "Covered st' y"
    proof cases
      case 1
      with Covered_Grows [OF c1 g2] x show ?thesis by simp
    next
      case 2
      with c2 show ?thesis by blast
    qed
  qed
  ultimately show ?case ..
qed

lemma AllSrvCbvUav_group:
  "res \<in> set (m_SrvCbvUav L VarType) \<Longrightarrow> res \<in> set (AllSrvCbvUav L)"
  by (cases VarType) (simp_all add: AllSrvCbvUav_def)

text \<open>
  C1. Take any reflected resources whose attributes are well formed, a cache that is not yet
  initialised (in a debug build: of static shader resources, without shader-visible
  descriptors), and a resource mapping that supplies, for every resource that
  \<^verbatim>\<open>ProcessResources\<close> enumerates for the allowed variable types and every array index
  below its bind count, an object of the resource's category and view kind. If
  \<^verbatim>\<open>Initialize\<close> without a root signature returns, then every enumerated resource has a
  binding in the layout, \<^verbatim>\<open>BindResources\<close> with that mapping and no flags returns, and
  afterwards \<^verbatim>\<open>IsBound\<close> returns true for every binding of the layout, of whatever
  variable type, and every array index below its bind count.
\<close>

theorem Initialize_BindAll_IsBound:
  assumes cache: "Cache w = Some c"
    and dbg_type: "DEBUG cfg \<Longrightarrow> DbgContentType c = StaticShaderResources"
    and dbg_handle: "\<And>heap r off. DEBUG cfg \<Longrightarrow> ShaderVisibleTableCPUDescriptorHandle c heap r off = 0"
    and wf: "\<And>Kind A. (Kind, A) \<in> set (ProcessResources AllowedVarTypes R) \<Longrightarrow>
               AttribsWellFormed cfg R Kind A"
    and complete: "\<And>Kind A i. (Kind, A) \<in> set (ProcessResources AllowedVarTypes R) \<Longrightarrow>
               i < BindCount A \<Longrightarrow> Supplies M Kind A i"
    and init: "Initialize cfg ops R AllowedVarTypes None w = Inr (L, rs, w0)"
  shows "(\<forall>(Kind, A) \<in> set (ProcessResources AllowedVarTypes R).
             \<exists>res \<in> set (AllSrvCbvUav L). Attribs res = A \<and> ResType res = Kind)
       \<and> (\<exists>w1. BindResources cfg L (Some M) NoFlags w0 = Inr w1
            \<and> (\<forall>res \<in> set (AllSrvCbvUav L). \<forall>i < BindCount (Attribs res).
                  IsBound res i w1 = Inr True))"
proof -
  let ?items = "ProcessResources AllowedVarTypes R"
  from Initialize_static_Inr [OF init] cache obtain st where
    run: "AddResources cfg ops R ?items
                \<lparr>CurrCbvSrvUav = (\<lambda>VarType. []), CurrSampler = (\<lambda>VarType. []),
                 MaxBindPoint = [-1, -1, -1, -1], RootSig = None\<rparr> = Inr st"
    and L: "L = \<lparr>m_SrvCbvUav = CurrCbvSrvUav st, m_Samplers = CurrSampler st,
                  m_ShaderType = ShaderType R\<rparr>"
    and w0: "w0 = w\<lparr>Cache := Some (c\<lparr>RootTables := map (\<lambda>n. replicate n NullResource)
                                                      (StaticTableSizes (MaxBindPoint st))\<rparr>)\<rparr>"
    by auto
  let ?c0 = "c\<lparr>RootTables := map (\<lambda>n. replicate n NullResource)
                                (StaticTableSizes (MaxBindPoint st))\<rparr>"
  have inv: "InitInv R ?items st"
    by (rule AddResources_inv [OF InitInv_start _ wf run]) simp_all
  have c0: "Cache w0 = Some ?c0" by (simp add: w0)
  have tables: "map length (RootTables ?c0) = StaticTableSizes (MaxBindPoint st)"
    by (simp add: comp_def)
  have d1: "DEBUG cfg \<Longrightarrow> DbgContentType ?c0 = StaticShaderResources"
    using dbg_type by simp
  have d2: "\<And>heap r off. DEBUG cfg \<Longrightarrow> ShaderVisibleTableCPUDescriptorHandle ?c0 heap r off = 0"
    using dbg_handle by simp
  have L1: "m_SrvCbvUav L = CurrCbvSrvUav st" and L2: "m_Samplers L = CurrSampler st"
    by (simp_all add: L)
  have ok: "SlotReady cfg L ?c0 res i \<and> Supplies M (ResType res) (Attribs res) i"
    if m: "res \<in> set (AllSrvCbvUav L)" and i: "i < BindCount (Attribs res)" for res i
  proof -
    from AllSrvCbvUav_member [OF m] L1 obtain VarType where
      r: "res \<in> set (CurrCbvSrvUav st VarType)" by auto
    have ready: "SlotReady cfg L ?c0 res i"
      by (rule InitInv_SlotReady [OF inv wf ProcessResources_kinds d1 d2 tables L1 L2 r i])
    from inv r have "BindingInv R ?items (MaxBindPoint st) (CurrSampler st) res"
      by (simp add: InitInv_def)
    then have "(ResType res, Attribs res) \<in> set ?items" by (simp add: BindingInv_def)
    from complete [OF this i] ready show ?thesis by simp
  qed
  have bound: "\<exists>w1. BindResources cfg L (Some M) NoFlags w0 = Inr w1
            \<and> (\<forall>res \<in> set (AllSrvCbvUav L). \<forall>i < BindCount (Attribs res).
                  IsBound res i w1 = Inr True)"
    by (rule BindResources_NoFlags_ready [OF c0 ok])
  from AddResources_covers [OF _ run] have cov: "\<forall>x \<in> set ?items. Covered st x" by simp
  have "\<exists>res \<in> set (AllSrvCbvUav L). Attribs res = A \<and> ResType res = Kind"
    if "(Kind, A) \<in> set ?items" for Kind A
  proof -
    from cov that have "Covered st (Kind, A)" by blast
    then obtain res where "res \<in> set (CurrCbvSrvUav st (VariableType A))"
        "Attribs res = A" "ResType res = Kind"
      by (auto simp: Covered_def)
    moreover from this(1) have "res \<in> set (AllSrvCbvUav L)"
      by (simp add: AllSrvCbvUav_group [where VarType = "VariableType A"] L1)
    ultimately show ?thesis by blast
  qed
  with bound show ?thesis by blast
qed

text \<open>The scenario of the specification, with a mapping for its three names.\<close>

lemma ExScenario_items:
  "ProcessResources AllVarTypes ExScenario =
     [(CBV, ExAttribs ''cbStatic'' 0 1 SHADER_VARIABLE_TYPE_STATIC),
      (TexSRV, (ExAttribs ''g_Tex'' 0 3 SHADER_VARIABLE_TYPE_MUTABLE)\<lparr>AttribSamplerId := Some 0\<rparr>),
      (BufUAV, ExAttribs ''g_Buf'' 0 1 SHADER_VARIABLE_TYPE_DYNAMIC)]"
  by (simp add: ProcessResources_def ExScenario_def ExAttribs_def IsAllowedType_def AllVarTypes_def)

lemma ExScenario_Initialize:
  "Initialize ExCfg ExOps ExScenario AllVarTypes None (ExWorld [])
     = Inr (ExScenarioLayout, None, ExWorld ExScenarioTables)"
  by (simp add: Initialize_def VERIFY_def ExWorld_def ExCache_def ProcessResources_def ExScenario_def
        ExAttribs_def IsAllowedType_def AllVarTypes_def GetResSampler_def AddTexSRV_def AddResource_def
        ExCfg_def u32_add_def int_of_u32_def u32_of_int_def CacheInitialize_def
        D3D12_DESCRIPTOR_RANGE_TYPE_SRV_def D3D12_DESCRIPTOR_RANGE_TYPE_UAV_def
        D3D12_DESCRIPTOR_RANGE_TYPE_CBV_def D3D12_DESCRIPTOR_RANGE_TYPE_SAMPLER_def Let_def
        ExScenarioLayout_def ExScenarioCB_def ExScenarioTex_def ExScenarioBuf_def ExScenarioSam_def
        ExScenarioTables_def)

theorem Initialize_BindAll_IsBound_witness:
  "\<exists>w1. BindResources ExCfg ExScenarioLayout (Some ExScenarioMapping) NoFlags (ExWorld ExScenarioTables) = Inr w1
       \<and> IsBound ExScenarioCB 0 w1 = Inr True
       \<and> IsBound ExScenarioTex 0 w1 = Inr True
       \<and> IsBound ExScenarioTex 1 w1 = Inr True
       \<and> IsBound ExScenarioTex 2 w1 = Inr True
       \<and> IsBound ExScenarioBuf 0 w1 = Inr True"
proof -
  have cache: "Cache (ExWorld []) = Some (ExCache [])" by (simp add: ExWorld_def)
  have dbg_type: "DbgContentType (ExCache []) = StaticShaderResources" by (simp add: ExCache_def)
  have dbg_handle: "ShaderVisibleTableCPUDescriptorHandle (ExCache []) heap r off = 0" for heap r off
    by (simp add: ExCache_def)
  have wf: "AttribsWellFormed ExCfg ExScenario Kind A"
    if "(Kind, A) \<in> set (ProcessResources AllVarTypes ExScenario)" for Kind A
    using that unfolding ExScenario_items
    by (auto simp: AttribsWellFormed_def ExAttribs_def GetResSampler_def ExScenario_def ExCfg_def)
  have complete: "Supplies ExScenarioMapping Kind A i"
    if "(Kind, A) \<in> set (ProcessResources AllVarTypes ExScenario)" "i < BindCount A" for Kind A i
    using that unfolding ExScenario_items
    by (auto simp: Supplies_def ExScenarioMapping_def ExAttribs_def ExBuffer_def)
  from Initialize_BindAll_IsBound [OF cache dbg_type dbg_handle wf complete ExScenario_Initialize]
  obtain w1 where run: "BindResources ExCfg ExScenarioLayout (Some ExScenarioMapping) NoFlags
                          (ExWorld ExScenarioTables) = Inr w1"
    and all: "\<forall>res \<in> set (AllSrvCbvUav ExScenarioLayout). \<forall>i < BindCount (Attribs res).
                 IsBound res i w1 = Inr True"
    by blast
  have rs: "AllSrvCbvUav ExScenarioLayout = [ExScenarioCB, ExScenarioTex, ExScenarioBuf]"
    by (simp add: AllSrvCbvUav_def ExScenarioLayout_def)
  have "IsBound ExScenarioCB 0 w1 = Inr True"
    by (rule all [rule_format]) (simp_all add: rs ExScenarioCB_def ExAttribs_def)
  moreover have "IsBound ExScenarioTex 0 w1 = Inr True"
    by (rule all [rule_format]) (simp_all add: rs ExScenarioTex_def ExAttribs_def)
  moreover have "IsBound ExScenarioTex 1 w1 = Inr True"
    by (rule all [rule_format]) (simp_all add: rs ExScenarioTex_def ExAttribs_def)
  moreover have "IsBound ExScenarioTex 2 w1 = Inr True"
    by (rule all [rule_format]) (simp_all add: rs ExScenarioTex_def ExAttribs_def)
  moreover have "IsBound ExScenarioBuf 0 w1 = Inr True"
    by (rule all [rule_format]) (simp_all add: rs ExScenarioBuf_def ExAttribs_def)
  ultimately show ?thesis using run by blast
qed

end
